(* ===== verification/Stars_Prelude.thy ===== *)
theory Stars_Prelude
  imports Complex_Main "HOL-Library.Multiset" "HOL-Library.Word" "HOL-Library.Monad_Syntax"
begin

text \<open>
  Shared vocabulary of the development: the named theorem collections, the model of
  \<open>std::list::sort\<close>, and the generic list and option lemmas the components use.

  A handler of the program that may have no defined outcome (a null pointer is followed, an
  end iterator is dereferenced, a loop never ends) returns \<open>'a option\<close>; \<open>None\<close> stands for
  exactly that, and the components prove when it cannot happen.
\<close>

named_theorems opt_intro "decomposition of a postcondition of a fallible step"
named_theorems frame_simps \<open>fields an operation leaves alone\<close>
named_theorems sort_simps \<open>what sorting keeps of a list\<close>
named_theorems sent_simps \<open>what an operation adds to the outgoing traffic\<close>

section \<open>Sorting a linked list\<close>

text \<open>
  \<open>std::list::sort(cmp)\<close> is a stable merge sort. Its result is determined when \<open>cmp\<close> is a
  strict weak order; the insertion sort below computes it. Some comparators of the program
  are not irreflexive, so what is proved about a sorted list goes through the locale
  \<open>sort_order\<close>, which asks for less than a strict weak order.
\<close>

fun std_insert :: "('a \<Rightarrow> 'a \<Rightarrow> bool) \<Rightarrow> 'a \<Rightarrow> 'a list \<Rightarrow> 'a list" where
  "std_insert lt x [] = [x]"
| "std_insert lt x (y # ys) = (if lt y x then y # std_insert lt x ys else x # y # ys)"

definition std_sort :: "('a \<Rightarrow> 'a \<Rightarrow> bool) \<Rightarrow> 'a list \<Rightarrow> 'a list" where
  "std_sort lt xs = foldr (std_insert lt) xs []"

lemma std_sort_simps [simp]:
  "std_sort lt [] = []"
  "std_sort lt (x # xs) = std_insert lt x (std_sort lt xs)"
  by (simp_all add: std_sort_def)

lemma mset_std_insert [sort_simps]: "mset (std_insert lt x xs) = add_mset x (mset xs)"
  by (induction xs) auto

lemma mset_std_sort [sort_simps]: "mset (std_sort lt xs) = mset xs"
  by (induction xs) (auto simp: sort_simps)

lemma set_std_insert [simp]: "set (std_insert lt x xs) = insert x (set xs)"
  by (induction xs) auto

lemma set_std_sort [simp]: "set (std_sort lt xs) = set xs"
  by (induction xs) auto

lemma length_std_insert [simp]: "length (std_insert lt x xs) = Suc (length xs)"
  by (induction xs) auto

lemma length_std_sort [simp]: "length (std_sort lt xs) = length xs"
  by (induction xs) auto

lemma std_sort_eq_Nil [simp]: "std_sort lt xs = [] \<longleftrightarrow> xs = []"
  by (metis length_0_conv length_std_sort)

lemma distinct_std_sort_map [simp]:
  "distinct (map f (std_sort lt xs)) = distinct (map f xs)"
  by (metis mset_eq_imp_distinct_iff mset_map mset_std_sort)

lemma distinct_std_insert_map [simp]:
  "distinct (map f (std_insert lt x xs)) \<longleftrightarrow> f x \<notin> f ` set xs \<and> distinct (map f xs)"
  by (metis distinct.simps(2) list.simps(9) mset.simps(2) mset_eq_imp_distinct_iff mset_map
      mset_std_insert set_map)

lemma map_of_std_sort:
  assumes "distinct (map (\<lambda>y. fst (g y)) ys)"
  shows "map_of (map g (std_sort lt ys)) = map_of (map g ys)"
proof (subst map_of_inject_set)
  show "distinct (map fst (map g (std_sort lt ys)))"
    using assms distinct_std_sort_map [of "\<lambda>y. fst (g y)" lt ys] by (simp add: comp_def)
  show "distinct (map fst (map g ys))" using assms by (simp add: comp_def)
qed simp

lemma filter_std_insert_other:
  "\<not> P x \<Longrightarrow> filter P (std_insert lt x xs) = filter P xs"
  by (induction xs) auto

text \<open>
  The contract of a sort with the comparator \<open>lt\<close>: the pairs of the result are related by
  \<open>le\<close>. It covers a strict weak order, with \<open>le a b = (\<not> lt b a)\<close>, and a comparator that
  is true both ways on some pairs.
\<close>

locale sort_order =
  fixes lt :: "'a \<Rightarrow> 'a \<Rightarrow> bool" and le :: "'a \<Rightarrow> 'a \<Rightarrow> bool"
  assumes lt_le: "lt a b \<Longrightarrow> le a b"
    and not_lt_le: "\<not> lt a b \<Longrightarrow> le b a"
    and le_trans: "le a b \<Longrightarrow> le b c \<Longrightarrow> le a c"
begin

lemma insert_ordered: "sorted_wrt le xs \<Longrightarrow> sorted_wrt le (std_insert lt x xs)"
proof (induction xs)
  case Nil
  then show ?case by simp
next
  case (Cons y ys)
  show ?case
  proof (cases "lt y x")
    case True
    with Cons show ?thesis by (auto intro: lt_le)
  next
    case False
    then have "le x y" by (rule not_lt_le)
    with Cons.prems False show ?thesis by (auto intro: le_trans)
  qed
qed

lemma sort_ordered: "sorted_wrt le (std_sort lt xs)"
  by (induction xs) (auto intro: insert_ordered)

end

text \<open>A strict weak order: the sort is moreover stable, and sorting twice changes nothing.\<close>

locale weak_order = sort_order lt "\<lambda>a b. \<not> lt b a"
  for lt :: "'a \<Rightarrow> 'a \<Rightarrow> bool" +
  assumes lt_irrefl: "\<not> lt a a"
    and lt_trans: "lt a b \<Longrightarrow> lt b c \<Longrightarrow> lt a c"
begin

lemma insert_smallest:
  "\<forall>y \<in> set xs. \<not> lt y x \<Longrightarrow> std_insert lt x xs = x # xs"
  by (cases xs) auto

lemma sort_fixed: "sorted_wrt (\<lambda>a b. \<not> lt b a) xs \<Longrightarrow> std_sort lt xs = xs"
  by (induction xs) (auto simp: insert_smallest)

lemma sort_idem: "std_sort lt (std_sort lt xs) = std_sort lt xs"
  by (rule sort_fixed) (rule sort_ordered)

lemma filter_insert_same:
  "sorted_wrt (\<lambda>a b. \<not> lt b a) xs \<Longrightarrow> \<not> lt x k \<Longrightarrow> \<not> lt k x \<Longrightarrow>
   filter (\<lambda>y. \<not> lt y k \<and> \<not> lt k y) (std_insert lt x xs) =
   x # filter (\<lambda>y. \<not> lt y k \<and> \<not> lt k y) xs"
proof (induction xs)
  case Nil
  then show ?case by simp
next
  case (Cons y ys)
  show ?case
  proof (cases "lt y x")
    case True
    with Cons.prems have "lt y k" using not_lt_le le_trans by metis
    with Cons True show ?thesis by simp
  next
    case False
    with Cons.prems show ?thesis by simp
  qed
qed

lemma sort_stable:
  "filter (\<lambda>y. \<not> lt y k \<and> \<not> lt k y) (std_sort lt xs) = filter (\<lambda>y. \<not> lt y k \<and> \<not> lt k y) xs"
proof (induction xs)
  case Nil
  then show ?case by simp
next
  case (Cons x xs)
  show ?case
  proof (cases "\<not> lt x k \<and> \<not> lt k x")
    case True
    with Cons show ?thesis using filter_insert_same [OF sort_ordered] by simp
  next
    case False
    then show ?thesis using Cons filter_std_insert_other [of "\<lambda>y. \<not> lt y k \<and> \<not> lt k y"] by auto
  qed
qed

end

text \<open>A comparator that orders by a key of a linear order is a strict weak order.\<close>

lemma weak_order_key: "weak_order (\<lambda>a b. (f a :: 'b :: linorder) < f b)"
  by unfold_locales auto

section \<open>Lists, options and numbers\<close>

text \<open>Numbers written with a high part and a bounded low part compare by high part first.\<close>

lemma mixed_radix_eq:
  fixes p q c a b :: nat
  assumes "p < c" and "q < c" and "a * c + p = b * c + q"
  shows "a = b \<and> p = q"
proof -
  have "a = (a * c + p) div c" and "b = (b * c + q) div c" using assms(1,2) by auto
  with assms(3) have "a = b" by metis
  with assms(3) show ?thesis by simp
qed

lemma mixed_radix_less:
  fixes p q c a b :: nat
  assumes "p < c" and "q < c"
  shows "a * c + p < b * c + q \<longleftrightarrow> a < b \<or> (a = b \<and> p < q)"
proof (cases a b rule: linorder_cases)
  case less
  then have "Suc a * c \<le> b * c" by (intro mult_le_mono1) simp
  with less assms show ?thesis by simp
next
  case equal
  then show ?thesis by simp
next
  case greater
  then have "Suc b * c \<le> a * c" by (intro mult_le_mono1) simp
  with greater assms show ?thesis by simp
qed

lemma filter_mset_mset: "mset (filter P xs) = filter_mset P (mset xs)"
  by simp

lemma mset_remove1_find:
  "x \<in> set xs \<Longrightarrow> add_mset x (mset (remove1 x xs)) = mset xs"
  by simp

section \<open>Fallible steps\<close>

text \<open>
  A postcondition of a fallible step holds of its result, when it has one. The rules of
  \<open>opt_intro\<close> take such a claim apart along the text of the step, leaving one goal per branch.
\<close>

definition opt_post :: "('a \<Rightarrow> bool) \<Rightarrow> 'a option \<Rightarrow> bool" where
  "opt_post P r = (case r of None \<Rightarrow> True | Some x \<Rightarrow> P x)"

lemma opt_none [opt_intro]: "opt_post P None"
  by (simp add: opt_post_def)

lemma opt_some [opt_intro]: "P x \<Longrightarrow> opt_post P (Some x)"
  by (simp add: opt_post_def)

lemma opt_if [opt_intro]:
  "(b \<Longrightarrow> opt_post P x) \<Longrightarrow> (\<not> b \<Longrightarrow> opt_post P y) \<Longrightarrow> opt_post P (if b then x else y)"
  by simp

lemma opt_bind [opt_intro]:
  "(\<And>x. m = Some x \<Longrightarrow> opt_post P (f x)) \<Longrightarrow> opt_post P (Option.bind m f)"
  by (cases m) (simp_all add: opt_post_def)

lemma opt_case_option [opt_intro]:
  "(x = None \<Longrightarrow> opt_post P a) \<Longrightarrow> (\<And>y. x = Some y \<Longrightarrow> opt_post P (f y)) \<Longrightarrow>
   opt_post P (case x of None \<Rightarrow> a | Some y \<Rightarrow> f y)"
  by (cases x) simp_all

lemma opt_case_list [opt_intro]:
  "(x = [] \<Longrightarrow> opt_post P a) \<Longrightarrow> (\<And>y ys. x = y # ys \<Longrightarrow> opt_post P (f y ys)) \<Longrightarrow>
   opt_post P (case x of [] \<Rightarrow> a | y # ys \<Rightarrow> f y ys)"
  by (cases x) simp_all

lemma opt_case_prod [opt_intro]:
  "(\<And>y z. x = (y, z) \<Longrightarrow> opt_post P (f y z)) \<Longrightarrow> opt_post P (case x of (y, z) \<Rightarrow> f y z)"
  by (cases x) simp_all

lemma opt_postD: "opt_post P r \<Longrightarrow> r = Some x \<Longrightarrow> P x"
  by (simp add: opt_post_def)

lemma opt_postI: "(\<And>x. r = Some x \<Longrightarrow> P x) \<Longrightarrow> opt_post P r"
  by (cases r) (simp_all add: opt_post_def)

lemma opt_mono: "opt_post P r \<Longrightarrow> (\<And>x. P x \<Longrightarrow> Q x) \<Longrightarrow> opt_post Q r"
  by (cases r) (simp_all add: opt_post_def)

lemma bind_Some_iff: "Option.bind x f = Some y \<longleftrightarrow> (\<exists>a. x = Some a \<and> f a = Some y)"
  by (cases x) auto

lemma list_all_std_sort [simp]: "list_all P (std_sort lt xs) = list_all P xs"
  by (simp add: list_all_iff)

lemma sum_tl:
  fixes xs :: "'a list list"
  assumes "k < length xs"
  shows "sum_list (map length (xs[k := tl (xs ! k)])) \<le> sum_list (map length xs)"
    and "xs ! k \<noteq> [] \<Longrightarrow> sum_list (map length (xs[k := tl (xs ! k)])) < sum_list (map length xs)"
  using assms by (induction xs arbitrary: k) (auto simp: nth_Cons' less_Suc_eq_0_disj split: nat.splits)

section \<open>Numbers with infinity\<close>

text \<open>A \<open>double\<close> that may be \<open>INFINITY\<close>: the rationals, and one element above all of them.\<close>

datatype ext = Fin rat | Infinite

instantiation ext :: linorder
begin

fun less_eq_ext :: "ext \<Rightarrow> ext \<Rightarrow> bool" where
  "less_eq_ext (Fin a) (Fin b) \<longleftrightarrow> a \<le> b"
| "less_eq_ext (Fin a) Infinite \<longleftrightarrow> True"
| "less_eq_ext Infinite (Fin b) \<longleftrightarrow> False"
| "less_eq_ext Infinite Infinite \<longleftrightarrow> True"

definition less_ext :: "ext \<Rightarrow> ext \<Rightarrow> bool" where
  "less_ext a b \<longleftrightarrow> a \<le> b \<and> \<not> b \<le> a"

instance
proof
  fix a b c :: ext
  show "a < b \<longleftrightarrow> a \<le> b \<and> \<not> b \<le> a" by (rule less_ext_def)
  show "a \<le> a" by (cases a) simp_all
  show "a \<le> b \<Longrightarrow> b \<le> c \<Longrightarrow> a \<le> c" by (cases a; cases b; cases c) simp_all
  show "a \<le> b \<Longrightarrow> b \<le> a \<Longrightarrow> a = b" by (cases a; cases b) simp_all
  show "a \<le> b \<or> b \<le> a" by (cases a; cases b) auto
qed

end

lemma less_ext_simps [simp]:
  "Fin a < Fin b \<longleftrightarrow> a < b" "Fin a < Infinite" "\<not> Infinite < x"
  by (auto simp: less_ext_def) (cases x; simp)

definition ext_scale :: "rat \<Rightarrow> ext \<Rightarrow> ext" where
  "ext_scale k x = (case x of Fin a \<Rightarrow> Fin (a * k) | Infinite \<Rightarrow> Infinite)"

end
