(* ===== verification/Comm_Address.thy ===== *)
theory Comm_Address
  imports Stars_Prelude
begin

text \<open>
  \<open>include/CommAddress.hpp\<close>: a peer address is an IPv4 number and a port. The program orders
  addresses by \<open>value()\<close>, the double \<open>IP + port / 65536\<close>. Both terms and their sum fit in
  the 53 bits of a double's significand, so the double is the exact rational number that
  \<open>addr_value\<close> computes. The comparison operators are installed as the library's order, so
  that its automation applies to addresses.
\<close>

datatype addr = Addr (ip: "32 word") (port: "16 word")

definition null_addr :: addr where
  "null_addr = Addr 0 0"

definition addr_value :: "addr \<Rightarrow> rat" where
  "addr_value a = of_nat (unat (ip a)) + of_nat (unat (port a)) / 65536"

definition addr_distance :: "addr \<Rightarrow> addr \<Rightarrow> rat" where
  "addr_distance a r = (let result = addr_value a - addr_value r
     in if result < 0 then - result else result)"

lemma addr_value_scaled:
  "addr_value a * 65536 = of_nat (unat (ip a) * 65536 + unat (port a))"
  by (simp add: addr_value_def field_simps)

lemma unat_port_less: "unat (port a) < 65536"
  using unsigned_less [where 'a = nat, of "port a"] by simp

lemma addr_value_inject: "addr_value a = addr_value b \<Longrightarrow> a = b"
proof -
  assume "addr_value a = addr_value b"
  then have "addr_value a * 65536 = addr_value b * 65536" by simp
  then have eq: "unat (ip a) * 65536 + unat (port a) = unat (ip b) * 65536 + unat (port b)"
    unfolding addr_value_scaled by (simp only: of_nat_eq_iff)
  have ranges: "unat (port a) < 65536" "unat (port b) < 65536"
    by (rule unat_port_less)+
  from mixed_radix_eq [OF ranges eq]
  have "unat (ip a) = unat (ip b)" and "unat (port a) = unat (port b)" by auto
  then show "a = b" by (cases a; cases b) (simp add: word_unat_eq_iff)
qed

lemma addr_value_eq_iff [simp]: "addr_value a = addr_value b \<longleftrightarrow> a = b"
  by (auto dest: addr_value_inject)

text \<open>The comparison operators of the program order the addresses by their values.\<close>

definition addr_below :: "addr \<Rightarrow> addr \<Rightarrow> bool" where
  "addr_below a r \<longleftrightarrow> addr_value a < addr_value r"

definition addr_at_most :: "addr \<Rightarrow> addr \<Rightarrow> bool" where
  "addr_at_most a r \<longleftrightarrow> addr_value a \<le> addr_value r"

instantiation addr :: linorder
begin

definition less_addr :: "addr \<Rightarrow> addr \<Rightarrow> bool" where
  "less_addr a r \<longleftrightarrow> addr_below a r"

definition less_eq_addr :: "addr \<Rightarrow> addr \<Rightarrow> bool" where
  "less_eq_addr a r \<longleftrightarrow> addr_at_most a r"

instance
  by intro_classes (auto simp: less_addr_def less_eq_addr_def addr_below_def addr_at_most_def)

end

lemma addr_distance_sym: "addr_distance a b = addr_distance b a"
  by (simp add: addr_distance_def Let_def)

lemma addr_distance_nonneg: "0 \<le> addr_distance a b"
  by (simp add: addr_distance_def Let_def)

lemma addr_distance_zero_iff: "addr_distance a b = 0 \<longleftrightarrow> a = b"
  by (auto simp: addr_distance_def Let_def)

lemma addr_distance_triangle: "addr_distance a c \<le> addr_distance a b + addr_distance b c"
  by (simp add: addr_distance_def Let_def)

lemma addr_value_nonneg: "0 \<le> addr_value a"
  unfolding addr_value_def by (intro add_nonneg_nonneg divide_nonneg_nonneg of_nat_0_le_iff) simp

lemma null_addr_least: "null_addr \<le> a"
  using addr_value_nonneg [of a] by (simp add: less_eq_addr_def addr_at_most_def addr_value_def null_addr_def)

text \<open>
  The address order of the program is the lexicographic order of (IP, port), and its
  distance is a metric that separates addresses.
\<close>

theorem addr_order_metric:
  "(addr_below a b \<longleftrightarrow> ip a < ip b \<or> (ip a = ip b \<and> port a < port b))
   \<and> (addr_distance a b = 0 \<longleftrightarrow> a = b)
   \<and> addr_distance a b = addr_distance b a
   \<and> addr_distance a c \<le> addr_distance a b + addr_distance b c"
proof -
  have ranges: "unat (port a) < 65536" "unat (port b) < 65536"
    by (rule unat_port_less)+
  have "addr_below a b \<longleftrightarrow> addr_value a * 65536 < addr_value b * 65536"
    by (simp add: addr_below_def)
  also have "\<dots> \<longleftrightarrow> unat (ip a) * 65536 + unat (port a) < unat (ip b) * 65536 + unat (port b)"
    unfolding addr_value_scaled by (simp only: of_nat_less_iff)
  also have "\<dots> \<longleftrightarrow> unat (ip a) < unat (ip b) \<or> (unat (ip a) = unat (ip b) \<and> unat (port a) < unat (port b))"
    by (rule mixed_radix_less [OF ranges])
  finally show ?thesis
    by (auto simp: word_less_nat_alt word_unat_eq_iff addr_distance_sym addr_distance_zero_iff
        addr_distance_triangle)
qed

end
