(* ===== verification/Zone_Description.thy ===== *)
theory Zone_Description
  imports Comm_Address
begin

unbundle bit_operations_syntax

text \<open>
  \<open>include/ZoneDescription.hpp\<close>, \<open>src/lib/overlay/ZoneDescription.cpp\<close>: the description of a
  zone of the tree (an address interval and a count of free structure nodes), and
  \<open>include/TransactionalZoneDescription.hpp\<close>: what a structure node keeps about one child,
  with the pending values of a two-phase commit beside the actual ones.
\<close>

section \<open>Zones\<close>

record zone =
  z_min :: addr
  z_max :: addr
  z_avail :: "32 word"

definition zone_default :: zone where
  "zone_default = \<lparr>z_min = null_addr, z_max = null_addr, z_avail = 0\<rparr>"

definition zone_of_addr :: "addr \<Rightarrow> zone" where
  "zone_of_addr a = \<lparr>z_min = a, z_max = a, z_avail = 0\<rparr>"

definition zone_eq :: "zone \<Rightarrow> zone \<Rightarrow> bool" where
  "zone_eq z r \<longleftrightarrow> z_avail z = z_avail r \<and> z_min z = z_min r \<and> z_max z = z_max r"

definition zone_contains :: "zone \<Rightarrow> addr \<Rightarrow> bool" where
  "zone_contains z src \<longleftrightarrow> z_min z \<le> src \<and> src \<le> z_max z"

definition zone_distance_addr :: "zone \<Rightarrow> addr \<Rightarrow> rat" where
  "zone_distance_addr z src =
    (if src < z_min z then addr_distance src (z_min z)
     else if z_max z < src then addr_distance src (z_max z)
     else 0)"

definition zone_distance :: "zone \<Rightarrow> zone \<Rightarrow> rat" where
  "zone_distance z r =
    (if z_max r < z_max z
     then (if z_min r < z_min z then addr_distance (z_max z) (z_min r) else 0)
     else (if z_min z < z_min r then addr_distance (z_max r) (z_min z) else 0))"

definition zone_intersects :: "zone \<Rightarrow> zone \<Rightarrow> bool" where
  "zone_intersects z r \<longleftrightarrow>
    zone_contains z (z_min r) \<or> zone_contains z (z_max r) \<or>
    zone_contains r (z_min z) \<or> zone_contains r (z_max z)"

text \<open>
  The loop that rounds the count of free nodes down to a power of two. \<open>avail\<close> is an \<open>int\<close>,
  so \<open>avail >>= 1\<close> is an arithmetic shift: from a negative value the loop never reaches 1.
\<close>

partial_function (option) round_loop :: "32 word \<Rightarrow> 32 word \<Rightarrow> 32 word option" where [code]:
  "round_loop res avail =
    (if avail = 1 then Some res
     else round_loop (push_bit 1 res) (signed_drop_bit 1 avail))"

definition round_avail :: "32 word \<Rightarrow> 32 word option" where
  "round_avail avail = (if avail \<noteq> 0 then round_loop 1 avail else Some 0)"

definition zone_aggregate :: "zone \<Rightarrow> zone \<Rightarrow> zone option" where
  "zone_aggregate z r = do {
     n \<leftarrow> round_avail (z_avail z + z_avail r);
     Some \<lparr>z_min = (if z_min r < z_min z then z_min r else z_min z),
           z_max = (if z_max z < z_max r then z_max r else z_max z),
           z_avail = n\<rparr>
   }"

lemma zone_eq_iff [simp]: "zone_eq z r \<longleftrightarrow> z = r"
  by (auto simp: zone_eq_def)

lemma zone_distance_sym:
  "z_max a \<noteq> z_max b \<Longrightarrow> zone_distance a b = zone_distance b a"
  by (auto simp: zone_distance_def addr_distance_sym)

lemma zone_distance_self [simp]: "zone_distance a a = 0"
  by (simp add: zone_distance_def)

lemma zone_distance_nonneg: "0 \<le> zone_distance a b"
  by (simp add: zone_distance_def addr_distance_nonneg)

lemma zone_distance_addr_zero_iff:
  "zone_distance_addr z a = 0 \<longleftrightarrow> zone_contains z a"
  by (auto simp: zone_distance_addr_def zone_contains_def addr_distance_zero_iff)

lemma zone_distance_addr_nonneg: "0 \<le> zone_distance_addr z a"
  by (simp add: zone_distance_addr_def addr_distance_nonneg)

subsection \<open>The rounding loop\<close>

lemma sint_shift [simp]: "sint (signed_drop_bit (Suc 0) (w :: 32 word)) = sint w div 2"
  by (simp add: sint_signed_drop_bit_eq drop_bit_eq_div)

lemma sint_eq_sint_iff: "sint (v :: 32 word) = sint w \<longleftrightarrow> v = w"
  by (auto intro: signed_word_eqI)

lemma round_loop_pos:
  "0 < sint avail \<Longrightarrow> \<exists>k. round_loop res avail = Some (push_bit k res)
     \<and> 2 ^ k \<le> sint avail \<and> sint avail < 2 ^ Suc k"
proof (induction "nat (sint avail)" arbitrary: res avail rule: less_induct)
  case less
  show ?case
  proof (cases "avail = 1")
    case True
    then show ?thesis by (intro exI [of _ 0]) (simp add: round_loop.simps)
  next
    case False
    let ?a = "signed_drop_bit 1 avail"
    have "sint avail \<noteq> 1" using False sint_eq_sint_iff [of avail 1] by simp
    with less.prems have big: "2 \<le> sint avail" by simp
    then have pos: "0 < sint ?a" and dec: "nat (sint ?a) < nat (sint avail)"
      by (simp_all add: sint_shift)
    from less.hyps [OF dec pos, of "push_bit 1 res"] obtain k where
      k: "round_loop (push_bit 1 res) ?a = Some (push_bit k (push_bit 1 res))"
        "2 ^ k \<le> sint ?a" "sint ?a < 2 ^ Suc k" by blast
    from k(1) False have "round_loop res avail = Some (push_bit (Suc k) res)"
      by (subst round_loop.simps) (simp add: push_bit_push_bit)
    moreover have "2 ^ Suc k \<le> sint avail" and "sint avail < 2 ^ Suc (Suc k)"
      using k(2,3) by (simp_all add: sint_shift)
    ultimately show ?thesis by blast
  qed
qed

lemma round_loop_returns_pos: "round_loop res avail = Some r \<Longrightarrow> 0 < sint avail"
proof (rule round_loop.raw_induct [where P = "\<lambda>res avail r. 0 < sint avail"])
  fix f :: "32 word \<Rightarrow> 32 word \<Rightarrow> 32 word option" and res avail r
  assume IH: "\<And>res avail r. f res avail = Some r \<Longrightarrow> 0 < sint (avail :: 32 word)"
    and eq: "(if avail = 1 then Some res
       else f (push_bit 1 res) (signed_drop_bit 1 avail)) = Some r"
  show "0 < sint avail"
  proof (cases "avail = 1")
    case True
    then show ?thesis by simp
  next
    case False
    with eq have "f (push_bit 1 res) (signed_drop_bit 1 avail) = Some r" by simp
    then have "0 < sint (signed_drop_bit 1 avail)" by (rule IH)
    then show ?thesis by simp
  qed
qed

lemma round_avail_Some:
  assumes "round_avail a = Some n"
  shows "(a = 0 \<and> n = 0) \<or>
    (0 < sint a \<and> (\<exists>k. n = 2 ^ k \<and> 2 ^ k \<le> sint a \<and> sint a < 2 ^ Suc k))"
proof (cases "a = 0")
  case True
  with assms show ?thesis by (simp add: round_avail_def)
next
  case False
  with assms have "round_loop 1 a = Some n" by (simp add: round_avail_def)
  with round_loop_returns_pos round_loop_pos [of a 1] show ?thesis
    by (fastforce simp: push_bit_eq_mult)
qed

lemma round_avail_returns: "0 \<le> sint a \<Longrightarrow> \<exists>n. round_avail a = Some n"
proof -
  assume "0 \<le> sint a"
  then have "a = 0 \<or> 0 < sint a" using sint_eq_sint_iff [of a 0] by auto
  then show ?thesis using round_loop_pos [of a 1] by (auto simp: round_avail_def)
qed

text \<open>
  C39. Aggregating two zones returns exactly when the sum of the two 32-bit counts, read as a
  signed \<open>int\<close>, is not negative; for a sum of \<open>2 ^ 31\<close> or more the loop runs for ever.
\<close>

theorem zone_aggregate_returns_iff:
  "(\<exists>z'. zone_aggregate z r = Some z') \<longleftrightarrow> 0 \<le> sint (z_avail z + z_avail r)"
proof
  assume "\<exists>z'. zone_aggregate z r = Some z'"
  then obtain n where "round_avail (z_avail z + z_avail r) = Some n"
    by (auto simp: zone_aggregate_def bind_Some_iff)
  then show "0 \<le> sint (z_avail z + z_avail r)"
    using round_avail_Some by fastforce
next
  assume "0 \<le> sint (z_avail z + z_avail r)"
  then show "\<exists>z'. zone_aggregate z r = Some z'"
    using round_avail_returns by (fastforce simp: zone_aggregate_def)
qed

lemma zone_aggregate_Some_min: "zone_aggregate z r = Some z' \<Longrightarrow> z_min z' = min (z_min z) (z_min r)"
  and zone_aggregate_Some_max: "zone_aggregate z r = Some z' \<Longrightarrow> z_max z' = max (z_max z) (z_max r)"
  by (auto simp: zone_aggregate_def bind_Some_iff min_def max_def)

text \<open>
  When it returns, the aggregate covers exactly the hull of both address intervals, and
  its count is 0 for a zero sum and otherwise the greatest power of two not above the sum.
\<close>

theorem zone_aggregate_result:
  assumes "zone_aggregate z r = Some z'"
  shows "z_min z' = min (z_min z) (z_min r) \<and> z_max z' = max (z_max z) (z_max r) \<and>
    (let s = z_avail z + z_avail r in
     (s = 0 \<and> z_avail z' = 0) \<or>
     (\<exists>k. z_avail z' = 2 ^ k \<and> 2 ^ k \<le> sint s \<and> sint s < 2 ^ Suc k))"
proof -
  from assms obtain n where n: "round_avail (z_avail z + z_avail r) = Some n" "z_avail z' = n"
    by (auto simp: zone_aggregate_def bind_Some_iff)
  from round_avail_Some [OF n(1)] n(2) zone_aggregate_Some_min [OF assms]
    zone_aggregate_Some_max [OF assms]
  show ?thesis by (auto simp: Let_def)
qed

lemma zone_aggregate_example:
  "zone_aggregate \<lparr>z_min = Addr 5 1, z_max = Addr 7 1, z_avail = 3\<rparr>
     \<lparr>z_min = Addr 2 1, z_max = Addr 6 1, z_avail = 2\<rparr>
   = Some \<lparr>z_min = Addr 2 1, z_max = Addr 7 1, z_avail = 4\<rparr>"
  by (simp add: zone_aggregate_def round_avail_def round_loop.simps less_addr_def addr_below_def addr_value_def)

theorem zone_aggregate_result_witness:
  "z_min \<lparr>z_min = Addr 2 1, z_max = Addr 7 1, z_avail = 4\<rparr> = min (Addr 5 1) (Addr 2 1)"
  using zone_aggregate_result [OF zone_aggregate_example] by simp

end
