(* ===== verification/Transactional_Zone.thy ===== *)
theory Transactional_Zone
  imports Zone_Description
begin

text \<open>
  \<open>include/TransactionalZoneDescription.hpp\<close> and the three members of it that
  \<open>src/lib/overlay/StructureNode.cpp\<close> defines: what a structure node knows about one child,
  with an actual and a pending (link, zone) pair. The zones are held through shared
  pointers; a null pointer is \<open>None\<close>. The only write through such a pointer is the count of
  free nodes of an actual zone (StrNodeNeededMsg); the pending zone it may be shared with is
  overwritten by every operation that starts a change before a commit can read it, so zones
  are values here.
\<close>

record tzone =
  tz_changing :: bool
  tz_link :: addr
  tz_seq :: "64 word"
  tz_newLink :: addr
  tz_zone :: "zone option"
  tz_newZone :: "zone option"

definition tz_default :: tzone where
  "tz_default = \<lparr>tz_changing = False, tz_link = null_addr, tz_seq = 0,
     tz_newLink = null_addr, tz_zone = None, tz_newZone = None\<rparr>"

definition comes_from :: "tzone \<Rightarrow> addr \<Rightarrow> bool" where
  "comes_from t src \<longleftrightarrow> tz_link t = src \<or> tz_newLink t = src"

definition is_addition :: "tzone \<Rightarrow> bool" where
  "is_addition t \<longleftrightarrow> tz_changing t \<and> tz_link t = null_addr \<and> tz_newLink t \<noteq> null_addr"

definition is_deletion :: "tzone \<Rightarrow> bool" where
  "is_deletion t \<longleftrightarrow> tz_changing t \<and> tz_link t \<noteq> null_addr \<and> tz_newLink t = null_addr"

definition test_and_set :: "64 word \<Rightarrow> tzone \<Rightarrow> bool \<times> tzone" where
  "test_and_set s t = (if tz_seq t < s then (True, t\<lparr>tz_seq := s\<rparr>) else (False, t))"

definition set_link :: "addr \<Rightarrow> tzone \<Rightarrow> tzone" where
  "set_link a t = t\<lparr>tz_newLink := a, tz_changing := True\<rparr>"

definition reset_link :: "tzone \<Rightarrow> tzone" where
  "reset_link t = t\<lparr>tz_newLink := null_addr, tz_changing := True\<rparr>"

definition set_zone :: "zone option \<Rightarrow> tzone \<Rightarrow> tzone" where
  "set_zone i t = (let t' = t\<lparr>tz_newZone := i\<rparr>
     in if \<not> tz_changing t then t'\<lparr>tz_zone := i\<rparr> else t')"

definition tz_commit :: "tzone \<Rightarrow> tzone" where
  "tz_commit t = (if tz_changing t
     then t\<lparr>tz_link := tz_newLink t, tz_newLink := null_addr,
            tz_zone := tz_newZone t, tz_newZone := None, tz_changing := False\<rparr>
     else t)"

definition tz_rollback :: "tzone \<Rightarrow> tzone" where
  "tz_rollback t = (if tz_changing t
     then t\<lparr>tz_newLink := tz_link t, tz_newZone := tz_zone t, tz_changing := False\<rparr>
     else t)"

definition set_zone_from :: "addr \<Rightarrow> zone option \<Rightarrow> tzone \<Rightarrow> tzone" where
  "set_zone_from src i t =
    (if \<not> tz_changing t \<and> tz_link t = src then t\<lparr>tz_zone := i\<rparr>
     else if tz_changing t then
       (if tz_newLink t = src then t\<lparr>tz_newZone := i\<rparr>
        else if tz_link t = src then t\<lparr>tz_zone := i\<rparr>
        else t)
     else t)"

lemmas tz_defs = is_addition_def is_deletion_def test_and_set_def set_link_def reset_link_def
  set_zone_def tz_commit_def tz_rollback_def set_zone_from_def

lemma tz_commit_changing [simp]: "\<not> tz_changing (tz_commit t)"
  by (simp add: tz_commit_def)

lemma tz_rollback_changing [simp]: "\<not> tz_changing (tz_rollback t)"
  by (simp add: tz_rollback_def)

lemma tz_commit_idle [simp]: "\<not> tz_changing t \<Longrightarrow> tz_commit t = t"
  by (simp add: tz_commit_def)

lemma tz_rollback_idle [simp]: "\<not> tz_changing t \<Longrightarrow> tz_rollback t = t"
  by (simp add: tz_rollback_def)

lemma tz_rollback_actual [simp]:
  "tz_link (tz_rollback t) = tz_link t" "tz_zone (tz_rollback t) = tz_zone t"
  "tz_seq (tz_rollback t) = tz_seq t"
  by (simp_all add: tz_rollback_def)

lemma set_link_fields [simp]:
  "tz_changing (set_link a t)" "tz_newLink (set_link a t) = a"
  "tz_link (set_link a t) = tz_link t" "tz_zone (set_link a t) = tz_zone t"
  "tz_seq (set_link a t) = tz_seq t" "tz_newZone (set_link a t) = tz_newZone t"
  by (simp_all add: set_link_def)

lemma set_zone_from_frame [simp, frame_simps]:
  "tz_link (set_zone_from src i t) = tz_link t"
  "tz_newLink (set_zone_from src i t) = tz_newLink t"
  "tz_changing (set_zone_from src i t) = tz_changing t"
  "tz_seq (set_zone_from src i t) = tz_seq t"
  by (simp_all add: set_zone_from_def)

text \<open>The updates a change receives while it is pending, in order of arrival.\<close>

definition apply_updates :: "(addr \<times> zone option) list \<Rightarrow> tzone \<Rightarrow> tzone" where
  "apply_updates us t = fold (\<lambda>(src, i). set_zone_from src i) us t"

lemma apply_updates_frame [simp]:
  "tz_link (apply_updates us t) = tz_link t"
  "tz_newLink (apply_updates us t) = tz_newLink t"
  "tz_changing (apply_updates us t) = tz_changing t"
  by (induction us arbitrary: t) (auto simp: apply_updates_def)

lemma apply_updates_new_only:
  "tz_changing t \<Longrightarrow> tz_newLink t \<noteq> tz_link t \<Longrightarrow> \<forall>(src, i) \<in> set us. src \<noteq> tz_link t \<Longrightarrow>
   tz_zone (apply_updates us t) = tz_zone t"
proof (induction us arbitrary: t)
  case Nil
  then show ?case by (simp add: apply_updates_def)
next
  case (Cons u us)
  obtain src i where u: "u = (src, i)" by (cases u)
  let ?t = "set_zone_from src i t"
  have "tz_zone ?t = tz_zone t" using Cons.prems u by (auto simp: set_zone_from_def)
  moreover have "tz_zone (apply_updates us ?t) = tz_zone ?t"
    by (rule Cons.IH) (use Cons.prems u in auto)
  ultimately show ?case by (simp add: apply_updates_def u)
qed

text \<open>
  Isolation of a pending change of a child: after the link is replaced, whatever zone
  updates arrive from addresses other than the old child, a rollback gives back the old link
  and the old zone, and a commit makes the new link the actual one.
\<close>

theorem pending_change_isolated:
  assumes "\<not> tz_changing t" and "a \<noteq> tz_link t"
    and "\<forall>(src, i) \<in> set us. src \<noteq> tz_link t"
  shows "tz_link (tz_rollback (apply_updates us (set_link a t))) = tz_link t
    \<and> tz_zone (tz_rollback (apply_updates us (set_link a t))) = tz_zone t
    \<and> tz_link (tz_commit (apply_updates us (set_link a t))) = a"
proof -
  have "tz_zone (apply_updates us (set_link a t)) = tz_zone (set_link a t)"
    by (rule apply_updates_new_only) (use assms in auto)
  then show ?thesis by (simp add: tz_commit_def)
qed

theorem pending_change_isolated_witness:
  "let t = tz_default\<lparr>tz_link := Addr 1 1, tz_zone := Some zone_default\<rparr>;
       t' = apply_updates [(Addr 2 1, None)] (set_link (Addr 2 1) t)
   in tz_zone (tz_rollback t') = Some zone_default"
  using pending_change_isolated
    [of "tz_default\<lparr>tz_link := Addr 1 1, tz_zone := Some zone_default\<rparr>" "Addr 2 1" "[(Addr 2 1, None)]"]
  by (simp add: tz_default_def Let_def)

text \<open>The sequence numbers a child entry accepts, in order of arrival.\<close>

fun accepted_seqs :: "64 word list \<Rightarrow> tzone \<Rightarrow> 64 word list" where
  "accepted_seqs [] t = []"
| "accepted_seqs (s # ss) t =
    (let (ok, t') = test_and_set s t
     in (if ok then s # accepted_seqs ss t' else accepted_seqs ss t'))"

lemma accepted_above: "x \<in> set (accepted_seqs ss t) \<Longrightarrow> tz_seq t < x"
  by (induction ss arbitrary: t) (fastforce simp: test_and_set_def split: if_splits)+

text \<open>
  Freshness: whatever order updates arrive in, the accepted sequence numbers are strictly
  increasing and all above the one the entry started with, so no update is applied twice and
  no older update overwrites a newer one.
\<close>

theorem accepted_seqs_increasing:
  "sorted_wrt (<) (tz_seq t # accepted_seqs ss t)"
proof (induction ss arbitrary: t)
  case Nil
  then show ?case by simp
next
  case (Cons s ss)
  show ?case
  proof (cases "tz_seq t < s")
    case True
    have "sorted_wrt (<) (s # accepted_seqs ss (t\<lparr>tz_seq := s\<rparr>))"
      using Cons.IH [of "t\<lparr>tz_seq := s\<rparr>"] by simp
    with True show ?thesis by (fastforce simp: test_and_set_def)
  next
    case False
    with Cons.IH [of t] show ?thesis by (simp add: test_and_set_def)
  qed
qed

end
