(* ===== verification/Stars_Messages.thy ===== *)
theory Stars_Messages
  imports Transactional_Zone
begin

text \<open>
  The messages the services exchange (\<open>include/*Msg.hpp\<close>, \<open>include/*Timer.hpp\<close>, the timer
  classes local to \<open>Scheduler.cpp\<close> and \<open>SubmissionNode.cpp\<close>): one record per class, its fields
  the members a handler reads, its \<open>mk_\<close> definition the constructor. \<open>'i msg\<close> is a pointer to
  \<open>BasicMsg\<close>; its constructor is what \<open>typeid\<close> compares. The type parameter \<open>'i\<close> is the
  availability information of the scheduling policy in use. Packing and unpacking with
  MsgPack, a library, is not modelled.
\<close>

type_synonym txid = "64 word"
type_synonym time = int \<comment> \<open>microseconds, \<open>int64_t\<close>; signed overflow is undefined in the source\<close>

definition null_tx :: txid where
  "null_tx = 0"

section \<open>Overlay messages\<close>

record ack_msg =
  ack_tx :: txid
  ack_forRN :: bool
  ack_fromRN :: bool

definition mk_ack :: "txid \<Rightarrow> ack_msg" where
  "mk_ack t = \<lparr>ack_tx = t, ack_forRN = False, ack_fromRN = False\<rparr>"

record nack_msg =
  nack_tx :: txid
  nack_forRN :: bool

definition mk_nack :: "txid \<Rightarrow> nack_msg" where
  "mk_nack t = \<lparr>nack_tx = t, nack_forRN = False\<rparr>"

record commit_msg =
  commit_tx :: txid
  commit_forRN :: bool

definition mk_commit :: "txid \<Rightarrow> commit_msg" where
  "mk_commit t = \<lparr>commit_tx = t, commit_forRN = False\<rparr>"

record rollback_msg =
  rollback_tx :: txid
  rollback_forRN :: bool

definition mk_rollback :: "txid \<Rightarrow> rollback_msg" where
  "mk_rollback t = \<lparr>rollback_tx = t, rollback_forRN = False\<rparr>"

record insert_msg =
  insert_tx :: txid
  insert_who :: addr
  insert_forRN :: bool

definition mk_insert :: insert_msg where
  "mk_insert = \<lparr>insert_tx = 0, insert_who = null_addr, insert_forRN = False\<rparr>"

record init_msg =
  init_tx :: txid
  init_father :: addr
  init_fatherValid :: bool
  init_children :: "addr list"
  init_level :: "32 word"

definition mk_init :: init_msg where
  "mk_init = \<lparr>init_tx = 0, init_father = null_addr, init_fatherValid = False,
     init_children = [], init_level = 0\<rparr>"

definition init_setFather :: "addr \<Rightarrow> init_msg \<Rightarrow> init_msg" where
  "init_setFather p m = m\<lparr>init_father := p, init_fatherValid := True\<rparr>"

definition init_addChild :: "addr \<Rightarrow> init_msg \<Rightarrow> init_msg" where
  "init_addChild c m = m\<lparr>init_children := init_children m @ [c]\<rparr>"

record newchild_msg =
  nch_tx :: txid
  nch_child :: addr
  nch_seq :: "64 word"
  nch_replace :: bool

definition mk_newchild :: newchild_msg where
  "mk_newchild = \<lparr>nch_tx = 0, nch_child = null_addr, nch_seq = 0, nch_replace = False\<rparr>"

record newfather_msg =
  nf_tx :: txid
  nf_father :: addr
  nf_forRN :: bool

definition mk_newfather :: newfather_msg where
  "mk_newfather = \<lparr>nf_tx = 0, nf_father = null_addr, nf_forRN = False\<rparr>"

record newstr_msg =
  ns_tx :: txid
  ns_whoOffers :: addr

record needed_msg =
  need_tx :: txid
  need_who :: addr

record update_msg =
  upd_tx :: txid
  upd_zone :: zone
  upd_seq :: "64 word"

definition mk_update :: update_msg where
  "mk_update = \<lparr>upd_tx = 0, upd_zone = zone_default, upd_seq = 0\<rparr>"

section \<open>Scheduling messages\<close>

record task_desc =
  td_length :: "64 word"
  td_numTasks :: "32 word"
  td_deadline :: time
  td_maxMemory :: "32 word"
  td_maxDisk :: "32 word"
  td_inputSize :: "32 word"
  td_outputSize :: "32 word"

definition mk_task_desc :: task_desc where
  "mk_task_desc = \<lparr>td_length = 0, td_numTasks = 0, td_deadline = 0, td_maxMemory = 0,
     td_maxDisk = 0, td_inputSize = 0, td_outputSize = 0\<rparr>"

definition td_appLength :: "task_desc \<Rightarrow> 64 word" where
  "td_appLength d = td_length d * ucast (td_numTasks d)"

record taskbag_msg =
  tb_requester :: addr
  tb_requestId :: int
  tb_firstTask :: "32 word"
  tb_lastTask :: "32 word"
  tb_minReq :: task_desc
  tb_forEN :: bool
  tb_fromEN :: bool
  tb_seq :: "32 word"
  tb_slowness :: "ext option"

text \<open>
  \<open>FSPTaskBagMsg\<close> adds an estimated slowness; a plain \<open>TaskBagMsg\<close> has none.
  The implicit constructor leaves the numbers and flags unset; those that are read later are set first.
\<close>

definition mk_taskbag :: taskbag_msg where
  "mk_taskbag = \<lparr>tb_requester = null_addr, tb_requestId = 0, tb_firstTask = 0, tb_lastTask = 0,
     tb_minReq = mk_task_desc, tb_forEN = False, tb_fromEN = False, tb_seq = 0, tb_slowness = None\<rparr>"

definition tb_subRequest :: "32 word \<Rightarrow> 32 word \<Rightarrow> taskbag_msg \<Rightarrow> taskbag_msg" where
  "tb_subRequest first last_t m =
     m\<lparr>tb_firstTask := first, tb_lastTask := last_t, tb_fromEN := False\<rparr>"

record accept_msg =
  acc_requestId :: int
  acc_firstTask :: "32 word"
  acc_lastTask :: "32 word"
  acc_heartbeat :: int

record abort_msg =
  ab_requestId :: int
  ab_tasks :: "32 word list"

text \<open>\<open>TaskMonitorMsg\<close> keeps the tasks and their states in two vectors that grow together.\<close>

record monitor_msg =
  mon_tasks :: "(int \<times> 32 word) list"
  mon_states :: "int list"
  mon_heartbeat :: int

definition mk_monitor :: monitor_msg where
  "mk_monitor = \<lparr>mon_tasks = [], mon_states = [], mon_heartbeat = 0\<rparr>"

definition mon_addTask :: "int \<Rightarrow> 32 word \<Rightarrow> int \<Rightarrow> monitor_msg \<Rightarrow> monitor_msg" where
  "mon_addTask rid tid s m =
     m\<lparr>mon_tasks := mon_tasks m @ [(rid, tid)], mon_states := mon_states m @ [s]\<rparr>"

record statechg_msg =
  sc_taskId :: "32 word"
  sc_oldState :: int
  sc_newState :: int

record dispatchcmd_msg =
  dc_appName :: string
  dc_deadline :: time

section \<open>All messages\<close>

datatype 'i msg =
    MAck ack_msg
  | MNack nack_msg
  | MCommit commit_msg
  | MRollback rollback_msg
  | MInsert insert_msg
  | MInit init_msg
  | MNewChild newchild_msg
  | MNewFather newfather_msg
  | MNewStr newstr_msg
  | MNeeded needed_msg
  | MUpdate update_msg
  | MLeave txid
  | MInsertCommand addr
  | MTaskBag taskbag_msg
  | MAccept accept_msg
  | MAbort abort_msg
  | MMonitor monitor_msg
  | MStateChg statechg_msg
  | MRequestTimeout int
  | MReschedule
  | MMonitorTimer
  | MUpdateTimer
  | MHeartbeatTimeout addr
  | MDispatchCmd dispatchcmd_msg
  | MAvail 'i

lemma init_addChild_fields [simp]:
  "init_children (init_addChild c m) = init_children m @ [c]"
  "init_tx (init_addChild c m) = init_tx m" "init_level (init_addChild c m) = init_level m"
  "init_father (init_addChild c m) = init_father m"
  "init_fatherValid (init_addChild c m) = init_fatherValid m"
  by (simp_all add: init_addChild_def)

lemma init_setFather_fields [simp]:
  "init_children (init_setFather p m) = init_children m"
  "init_tx (init_setFather p m) = init_tx m" "init_level (init_setFather p m) = init_level m"
  "init_father (init_setFather p m) = p" "init_fatherValid (init_setFather p m)"
  by (simp_all add: init_setFather_def)

text \<open>A monitoring message is well formed when its two vectors have the same length.\<close>

definition mon_wf :: "monitor_msg \<Rightarrow> bool" where
  "mon_wf m \<longleftrightarrow> length (mon_tasks m) = length (mon_states m)"

lemma mon_wf_mk [simp]: "mon_wf mk_monitor"
  by (simp add: mon_wf_def mk_monitor_def)

lemma mon_wf_addTask [simp]: "mon_wf (mon_addTask rid tid s m) = mon_wf m"
  by (simp add: mon_wf_def mon_addTask_def)

end
