(* ===== verification/Comm_Layer.thy ===== *)
theory Comm_Layer
  imports Stars_Messages
begin

text \<open>
  \<open>include/CommLayer.hpp\<close>, \<open>src/lib/core/CommLayer.cpp\<close>: the queue of received messages, the
  timers in timeout order, and \<open>sendMessage\<close>, which queues a message for this host and hands
  any other to the \<open>NetworkManager\<close>. The network is outside the model: \<open>c_net\<close> is what was
  handed to it, in order. \<open>c_now\<close> is the clock that \<open>Time::getCurrentTime\<close> reads, \<open>c_rand\<close> the
  sequence that the generator of \<open>createRandomId\<close> yields and \<open>c_drawn\<close> how many were drawn.
  The mutexes serialise the operations below, so each is one step.
\<close>

record 'i timer =
  tm_timeout :: time
  tm_msg :: "'i msg"
  tm_id :: int

record 'i comm =
  c_local :: addr
  c_now :: time
  c_queue :: "(addr \<times> 'i msg) list"
  c_net :: "(addr \<times> 'i msg) list"
  c_timers :: "'i timer list"
  c_timerId :: int
  c_rand :: "nat \<Rightarrow> txid"
  c_drawn :: nat
  c_exit :: bool

definition enqueue_message :: "addr \<Rightarrow> 'i msg \<Rightarrow> 'i comm \<Rightarrow> 'i comm" where
  "enqueue_message src m c = c\<lparr>c_queue := c_queue c @ [(src, m)]\<rparr>"

definition send_message :: "addr \<Rightarrow> 'i msg \<Rightarrow> 'i comm \<Rightarrow> 'i comm" where
  "send_message dst m c =
    (if dst = c_local c then enqueue_message dst m c
     else c\<lparr>c_net := c_net c @ [(dst, m)]\<rparr>)"

definition timer_less :: "'i timer \<Rightarrow> 'i timer \<Rightarrow> bool" where
  "timer_less l r \<longleftrightarrow> tm_timeout l < tm_timeout r"

definition set_timer_impl :: "time \<Rightarrow> 'i msg \<Rightarrow> 'i comm \<Rightarrow> int \<times> 'i comm" where
  "set_timer_impl t m c =
    (let i = c_timerId c + 1;
         tm = \<lparr>tm_timeout = t, tm_msg = m, tm_id = i\<rparr>
     in (i, c\<lparr>c_timerId := i, c_timers := std_sort timer_less (tm # c_timers c)\<rparr>))"

definition set_timer_at :: "time \<Rightarrow> 'i msg \<Rightarrow> 'i comm \<Rightarrow> int \<times> 'i comm" where
  "set_timer_at t m c = (if c_now c \<le> t then set_timer_impl t m c else (0, c))"

definition set_timer_in :: "time \<Rightarrow> 'i msg \<Rightarrow> 'i comm \<Rightarrow> int \<times> 'i comm" where
  "set_timer_in delay m c =
    (if \<not> delay < 0 then set_timer_impl (c_now c + delay) m c else (0, c))"

fun erase_timer :: "int \<Rightarrow> 'i timer list \<Rightarrow> 'i timer list" where
  "erase_timer i [] = []"
| "erase_timer i (t # ts) = (if tm_id t = i then ts else t # erase_timer i ts)"

definition cancel_timer :: "int \<Rightarrow> 'i comm \<Rightarrow> 'i comm" where
  "cancel_timer i c = c\<lparr>c_timers := erase_timer i (c_timers c)\<rparr>"

fun expire_loop :: "time \<Rightarrow> addr \<Rightarrow> 'i timer list \<Rightarrow> (addr \<times> 'i msg) list \<Rightarrow>
    'i timer list \<times> (addr \<times> 'i msg) list" where
  "expire_loop ct loc [] q = ([], q)"
| "expire_loop ct loc (t # ts) q =
    (if tm_timeout t \<le> ct then expire_loop ct loc ts (q @ [(loc, tm_msg t)]) else (t # ts, q))"

definition check_expired :: "'i comm \<Rightarrow> 'i comm" where
  "check_expired c =
    (let (ts, q) = expire_loop (c_now c) (c_local c) (c_timers c) (c_queue c)
     in c\<lparr>c_timers := ts, c_queue := q\<rparr>)"

text \<open>
  \<open>processNextMessage\<close> blocks on an empty queue; that is \<open>None\<close>. Otherwise it takes the oldest
  message, unless the exit was signalled.
\<close>

definition next_message :: "'i comm \<Rightarrow> ((addr \<times> 'i msg) option \<times> 'i comm) option" where
  "next_message c =
    (case c_queue c of
       [] \<Rightarrow> None
     | x # q \<Rightarrow> if c_exit c then Some (None, c) else Some (Some x, c\<lparr>c_queue := q\<rparr>))"

definition stop_event_loop :: "'i comm \<Rightarrow> 'i comm" where
  "stop_event_loop c = c\<lparr>c_exit := True\<rparr>"

text \<open>Every registered service sees the message, in order of registration.\<close>

fun deliver :: "('s \<Rightarrow> addr \<Rightarrow> 'i msg \<Rightarrow> (bool \<times> 's) option) list \<Rightarrow> addr \<Rightarrow> 'i msg \<Rightarrow> 's \<Rightarrow>
    (bool \<times> 's) option" where
  "deliver [] src m s = Some (False, s)"
| "deliver (h # hs) src m s = do {
     (b, s1) \<leftarrow> h s src m;
     (b', s2) \<leftarrow> deliver hs src m s1;
     Some (b \<or> b', s2)
   }"

definition create_random_id :: "'i comm \<Rightarrow> txid \<times> 'i comm" where
  "create_random_id c = (c_rand c (c_drawn c), c\<lparr>c_drawn := Suc (c_drawn c)\<rparr>)"

section \<open>Frames\<close>

lemma enqueue_frame [simp, frame_simps]:
  "c_local (enqueue_message a m c) = c_local c" "c_now (enqueue_message a m c) = c_now c"
  "c_net (enqueue_message a m c) = c_net c" "c_timers (enqueue_message a m c) = c_timers c"
  "c_timerId (enqueue_message a m c) = c_timerId c"
  "c_rand (enqueue_message a m c) = c_rand c" "c_drawn (enqueue_message a m c) = c_drawn c"
  by (simp_all add: enqueue_message_def)

lemma send_frame [simp, frame_simps]:
  "c_local (send_message a m c) = c_local c" "c_now (send_message a m c) = c_now c"
  "c_timers (send_message a m c) = c_timers c" "c_timerId (send_message a m c) = c_timerId c"
  "c_rand (send_message a m c) = c_rand c" "c_drawn (send_message a m c) = c_drawn c"
  by (simp_all add: send_message_def)

lemma cancel_frame [simp, frame_simps]:
  "c_local (cancel_timer i c) = c_local c" "c_now (cancel_timer i c) = c_now c"
  "c_queue (cancel_timer i c) = c_queue c" "c_net (cancel_timer i c) = c_net c"
  "c_timerId (cancel_timer i c) = c_timerId c"
  "c_rand (cancel_timer i c) = c_rand c" "c_drawn (cancel_timer i c) = c_drawn c"
  by (simp_all add: cancel_timer_def)

lemma set_timer_frame [simp, frame_simps]:
  "c_local (snd (set_timer_in d m c)) = c_local c" "c_now (snd (set_timer_in d m c)) = c_now c"
  "c_queue (snd (set_timer_in d m c)) = c_queue c" "c_net (snd (set_timer_in d m c)) = c_net c"
  "c_local (snd (set_timer_at d m c)) = c_local c" "c_now (snd (set_timer_at d m c)) = c_now c"
  "c_queue (snd (set_timer_at d m c)) = c_queue c" "c_net (snd (set_timer_at d m c)) = c_net c"
  by (simp_all add: set_timer_in_def set_timer_at_def set_timer_impl_def Let_def)

lemma create_random_frame [simp, frame_simps]:
  "c_local (snd (create_random_id c)) = c_local c" "c_now (snd (create_random_id c)) = c_now c"
  "c_queue (snd (create_random_id c)) = c_queue c" "c_net (snd (create_random_id c)) = c_net c"
  "c_timers (snd (create_random_id c)) = c_timers c"
  by (simp_all add: create_random_id_def)

text \<open>The whole outgoing traffic of a host: what it queued for itself and what it sent out.\<close>

definition traffic :: "'i comm \<Rightarrow> (addr \<times> 'i msg) multiset" where
  "traffic c = mset (c_queue c) + mset (c_net c)"

lemma traffic_send [simp, sent_simps]: "traffic (send_message a m c) = add_mset (a, m) (traffic c)"
  by (simp add: traffic_def send_message_def enqueue_message_def)

lemma traffic_cancel [simp, sent_simps]: "traffic (cancel_timer i c) = traffic c"
  by (simp add: traffic_def)

lemma traffic_set_timer [simp, sent_simps]:
  "traffic (snd (set_timer_in d m c)) = traffic c" "traffic (snd (set_timer_at d m c)) = traffic c"
  by (simp_all add: traffic_def)

lemma traffic_random [simp, sent_simps]: "traffic (snd (create_random_id c)) = traffic c"
  by (simp add: traffic_def)

section \<open>Timers\<close>

lemma weak_order_timer: "weak_order timer_less"
  unfolding timer_less_def [abs_def] by (rule weak_order_key)

interpretation timer_order: weak_order timer_less
  by (rule weak_order_timer)

text \<open>
  The invariant of the timer list: ordered by timeout, no identifier used twice, every
  identifier positive and already given out.
\<close>

definition timers_ok :: "'i comm \<Rightarrow> bool" where
  "timers_ok c \<longleftrightarrow> sorted_wrt (\<lambda>a b. \<not> timer_less b a) (c_timers c)
     \<and> distinct (map tm_id (c_timers c))
     \<and> (\<forall>t \<in> set (c_timers c). 0 < tm_id t \<and> tm_id t \<le> c_timerId c)
     \<and> 0 \<le> c_timerId c"

definition pending_timers :: "'i comm \<Rightarrow> int \<Rightarrow> (time \<times> 'i msg) option" where
  "pending_timers c = map_of (map (\<lambda>t. (tm_id t, tm_timeout t, tm_msg t)) (c_timers c))"

lemma erase_timer_set:
  "distinct (map tm_id ts) \<Longrightarrow> erase_timer i ts = filter (\<lambda>t. tm_id t \<noteq> i) ts"
proof (induction ts)
  case Nil
  then show ?case by simp
next
  case (Cons t ts)
  show ?case
  proof (cases "tm_id t = i")
    case True
    with Cons.prems have "\<forall>x \<in> set ts. tm_id x \<noteq> i"
      by (metis distinct.simps(2) image_eqI list.simps(9) set_map)
    then have "filter (\<lambda>t. tm_id t \<noteq> i) ts = ts" by (rule filter_True)
    with True show ?thesis by simp
  next
    case False
    with Cons show ?thesis by simp
  qed
qed

lemma set_timer_impl_ok:
  "timers_ok c \<Longrightarrow> timers_ok (snd (set_timer_impl t m c))"
  by (auto simp: timers_ok_def set_timer_impl_def Let_def distinct_std_sort_map
      intro!: timer_order.insert_ordered timer_order.sort_ordered simp del: distinct_map)

lemma cancel_timer_ok: "timers_ok c \<Longrightarrow> timers_ok (cancel_timer i c)"
  by (auto simp: timers_ok_def cancel_timer_def erase_timer_set sorted_wrt_filter
      distinct_map_filter)

lemma set_timer_at_ok: "timers_ok c \<Longrightarrow> timers_ok (snd (set_timer_at t m c))"
  by (simp add: set_timer_at_def set_timer_impl_ok)

lemma set_timer_in_ok: "timers_ok c \<Longrightarrow> timers_ok (snd (set_timer_in t m c))"
  by (simp add: set_timer_in_def set_timer_impl_ok)

lemma expire_loop_eq:
  "expire_loop ct loc ts q =
    (dropWhile (\<lambda>t. tm_timeout t \<le> ct) ts,
     q @ map (\<lambda>t. (loc, tm_msg t)) (takeWhile (\<lambda>t. tm_timeout t \<le> ct) ts))"
  by (induction ts arbitrary: q) auto

lemma sorted_takeWhile_filter:
  "sorted_wrt (\<lambda>a b. \<not> timer_less b a) ts \<Longrightarrow>
   takeWhile (\<lambda>t. tm_timeout t \<le> ct) ts = filter (\<lambda>t. tm_timeout t \<le> ct) ts \<and>
   dropWhile (\<lambda>t. tm_timeout t \<le> ct) ts = filter (\<lambda>t. \<not> tm_timeout t \<le> ct) ts"
proof (induction ts)
  case Nil
  then show ?case by simp
next
  case (Cons t ts)
  show ?case
  proof (cases "tm_timeout t \<le> ct")
    case True
    with Cons show ?thesis by simp
  next
    case False
    with Cons.prems have late: "\<forall>x \<in> set ts. \<not> tm_timeout x \<le> ct"
      by (auto simp: timer_less_def)
    then have "filter (\<lambda>t. tm_timeout t \<le> ct) ts = []"
      and "filter (\<lambda>t. \<not> tm_timeout t \<le> ct) ts = ts"
      by (simp_all add: filter_empty_conv)
    with False show ?thesis by simp
  qed
qed

lemma check_expired_eq:
  assumes "timers_ok c"
  shows "check_expired c =
    c\<lparr>c_timers := filter (\<lambda>t. \<not> tm_timeout t \<le> c_now c) (c_timers c),
      c_queue := c_queue c @ map (\<lambda>t. (c_local c, tm_msg t))
        (filter (\<lambda>t. tm_timeout t \<le> c_now c) (c_timers c))\<rparr>"
  using assms sorted_takeWhile_filter [of "c_timers c" "c_now c"]
  by (simp add: check_expired_def expire_loop_eq timers_ok_def)

lemma check_expired_ok: "timers_ok c \<Longrightarrow> timers_ok (check_expired c)"
  by (simp add: check_expired_eq)
    (auto simp: timers_ok_def sorted_wrt_filter distinct_map_filter)

lemma pending_None_fresh: "timers_ok c \<Longrightarrow> pending_timers c (c_timerId c + 1) = None"
  by (force simp: timers_ok_def pending_timers_def map_of_eq_None_iff)

lemma pending_set_timer_impl:
  assumes "timers_ok c"
  shows "pending_timers (snd (set_timer_impl t m c)) =
    (pending_timers c)(c_timerId c + 1 \<mapsto> (t, m))"
proof -
  let ?tm = "\<lparr>tm_timeout = t, tm_msg = m, tm_id = c_timerId c + 1\<rparr>"
  have "distinct (map tm_id (?tm # c_timers c))"
    using assms by (force simp: timers_ok_def)
  then have "map_of (map (\<lambda>t. (tm_id t, tm_timeout t, tm_msg t)) (std_sort timer_less (?tm # c_timers c)))
      = map_of (map (\<lambda>t. (tm_id t, tm_timeout t, tm_msg t)) (?tm # c_timers c))"
    by (intro map_of_std_sort) simp
  then show ?thesis by (simp add: pending_timers_def set_timer_impl_def Let_def)
qed

lemma map_of_filter_key:
  "map_of (map (\<lambda>t. (f t, g t)) (filter (\<lambda>t. f t \<noteq> i) ts)) = (map_of (map (\<lambda>t. (f t, g t)) ts))(i := None)"
  by (induction ts) auto

lemma pending_cancel_timer:
  "timers_ok c \<Longrightarrow> pending_timers (cancel_timer i c) = (pending_timers c)(i := None)"
  by (simp add: pending_timers_def cancel_timer_def erase_timer_set timers_ok_def
      map_of_filter_key [where g = "\<lambda>t. (tm_timeout t, tm_msg t)"])

subsection \<open>The timer service as its clients see it\<close>

locale timer_service =
  fixes set_t :: "time \<Rightarrow> 'm \<Rightarrow> 'c \<Rightarrow> int \<times> 'c"
    and cancel_t :: "int \<Rightarrow> 'c \<Rightarrow> 'c"
    and pending :: "'c \<Rightarrow> int \<Rightarrow> (time \<times> 'm) option"
    and clock :: "'c \<Rightarrow> time"
    and inv :: "'c \<Rightarrow> bool"
  assumes set_inv: "inv c \<Longrightarrow> inv (snd (set_t t m c))"
    and cancel_inv: "inv c \<Longrightarrow> inv (cancel_t i c)"
    and set_past: "t < clock c \<Longrightarrow> set_t t m c = (0, c)"
    and set_fresh: "inv c \<Longrightarrow> clock c \<le> t \<Longrightarrow>
      fst (set_t t m c) \<noteq> 0 \<and> pending c (fst (set_t t m c)) = None"
    and set_pending: "inv c \<Longrightarrow> clock c \<le> t \<Longrightarrow>
      pending (snd (set_t t m c)) = (pending c)(fst (set_t t m c) \<mapsto> (t, m))"
    and cancel_pending: "inv c \<Longrightarrow> pending (cancel_t i c) = (pending c)(i := None)"
    and cancel_clock: "clock (cancel_t i c) = clock c"
begin

text \<open>
  A client that owns at most one pending timer for the message \<open>m\<close>, with its identifier in a
  variable (0 for none), and replaces it by cancelling and setting, still owns at most one.
\<close>

definition owns :: "'m \<Rightarrow> int \<Rightarrow> 'c \<Rightarrow> bool" where
  "owns m i c \<longleftrightarrow> (\<forall>j t. pending c j = Some (t, m) \<longrightarrow> j = i)"

lemma replace_owns:
  assumes "inv c" and "owns m i c" and "clock c \<le> t"
  shows "owns m (fst (set_t t m (cancel_t i c))) (snd (set_t t m (cancel_t i c)))"
    and "pending (snd (set_t t m (cancel_t i c))) (fst (set_t t m (cancel_t i c))) = Some (t, m)"
proof -
  have inv': "inv (cancel_t i c)" by (rule cancel_inv) fact
  have clk: "clock (cancel_t i c) \<le> t" using assms(3) by (simp add: cancel_clock)
  note p = set_pending [OF inv' clk, of m] cancel_pending [OF assms(1), of i]
  show "owns m (fst (set_t t m (cancel_t i c))) (snd (set_t t m (cancel_t i c)))"
    using assms(2) by (auto simp: owns_def p split: if_splits)
  show "pending (snd (set_t t m (cancel_t i c))) (fst (set_t t m (cancel_t i c))) = Some (t, m)"
    by (simp add: p)
qed

end

interpretation comm_timers: timer_service set_timer_at cancel_timer pending_timers c_now timers_ok
proof unfold_locales
  fix c :: "'i comm" and t i and m :: "'i msg"
  show "timers_ok c \<Longrightarrow> timers_ok (snd (set_timer_at t m c))" by (rule set_timer_at_ok)
  show "timers_ok c \<Longrightarrow> timers_ok (cancel_timer i c)" by (rule cancel_timer_ok)
  show "t < c_now c \<Longrightarrow> set_timer_at t m c = (0, c)" by (simp add: set_timer_at_def)
  show "timers_ok c \<Longrightarrow> c_now c \<le> t \<Longrightarrow>
      fst (set_timer_at t m c) \<noteq> 0 \<and> pending_timers c (fst (set_timer_at t m c)) = None"
    using pending_None_fresh [of c]
    by (auto simp: set_timer_at_def set_timer_impl_def Let_def timers_ok_def)
  show "timers_ok c \<Longrightarrow> c_now c \<le> t \<Longrightarrow> pending_timers (snd (set_timer_at t m c)) =
      (pending_timers c)(fst (set_timer_at t m c) \<mapsto> (t, m))"
    using pending_set_timer_impl [of c t m]
    by (simp add: set_timer_at_def) (simp add: set_timer_impl_def Let_def)
  show "timers_ok c \<Longrightarrow> pending_timers (cancel_timer i c) = (pending_timers c)(i := None)"
    by (rule pending_cancel_timer)
  show "c_now (cancel_timer i c) = c_now c" by simp
qed

text \<open>
  When the clock has advanced, \<open>checkExpired\<close> queues the message of every timer that is
  due, in timeout order, and of no other; the timers that are not due stay, and the invariant
  of the timer list is kept.
\<close>

theorem check_expired_exact:
  assumes "timers_ok c"
  shows "c_timers (check_expired c) = filter (\<lambda>t. c_now c < tm_timeout t) (c_timers c)
    \<and> c_queue (check_expired c) = c_queue c @ map (\<lambda>t. (c_local c, tm_msg t))
        (filter (\<lambda>t. tm_timeout t \<le> c_now c) (c_timers c))
    \<and> timers_ok (check_expired c)"
  using check_expired_ok [OF assms] by (simp add: check_expired_eq [OF assms] not_le)

definition example_comm :: "nat comm" where
  "example_comm = \<lparr>c_local = Addr 1 1, c_now = 10, c_queue = [], c_net = [], c_timers = [],
     c_timerId = 0, c_rand = (\<lambda>n. of_nat n + 7), c_drawn = 0, c_exit = False\<rparr>"

theorem check_expired_exact_witness:
  "let c = (snd (set_timer_in 5 MReschedule (snd (set_timer_in 3 MMonitorTimer example_comm))))
       \<lparr>c_now := 14\<rparr>
   in timers_ok c \<and> c_queue (check_expired c) = [(Addr 1 1, MMonitorTimer)]"
proof -
  let ?c = "(snd (set_timer_in 5 MReschedule (snd (set_timer_in 3 MMonitorTimer example_comm))))
    \<lparr>c_now := 14\<rparr>"
  have ok: "timers_ok ?c"
    by (simp add: timers_ok_def example_comm_def set_timer_in_def set_timer_impl_def timer_less_def)
  show ?thesis using ok check_expired_exact [OF ok]
    by (simp add: example_comm_def set_timer_in_def set_timer_impl_def timer_less_def)
qed

text \<open>
  Cancelling a timer removes that timer and no other, and setting one at or after the
  present moment adds exactly one under an identifier that is not in use; a timer in the past
  is refused with identifier 0 and changes nothing.
\<close>

theorem timer_table_updates:
  assumes "timers_ok c"
  shows "pending_timers (cancel_timer i c) = (pending_timers c)(i := None)
    \<and> (if c_now c \<le> t
       then pending_timers c (fst (set_timer_at t m c)) = None \<and> fst (set_timer_at t m c) \<noteq> 0 \<and>
         pending_timers (snd (set_timer_at t m c)) =
           (pending_timers c)(fst (set_timer_at t m c) \<mapsto> (t, m))
       else set_timer_at t m c = (0, c))"
  using comm_timers.cancel_pending [OF assms] comm_timers.set_fresh [OF assms, of t m]
    comm_timers.set_pending [OF assms, of t m] comm_timers.set_past [of t c m]
  by (auto simp: not_le)

theorem timer_table_updates_witness:
  "timers_ok example_comm \<and>
   pending_timers (snd (set_timer_at 12 MReschedule example_comm)) 1 = Some (12, MReschedule)"
proof -
  have ok: "timers_ok example_comm" by (simp add: timers_ok_def example_comm_def)
  show ?thesis using ok timer_table_updates [OF ok, of 1 12 MReschedule]
    by (simp add: set_timer_at_def example_comm_def set_timer_impl_def)
qed

end
