(* ===== verification/Structure_State.thy ===== *)
theory Structure_State
  imports Comm_Layer
begin

text \<open>
  The state of a structure node (\<open>include/StructureNode.hpp\<close>) and the helpers of
  \<open>src/lib/overlay/StructureNode.cpp\<close> that the handlers share: the order of the children, the
  aggregated zone, the notification of the father, the fanout check. The observers of a node
  are outside this component; \<open>sn_events\<close> is the sequence of calls they receive.
\<close>

datatype sn_status = OFFLINE | START_IN | INIT | ONLINE | ADD_CHILD | CHANGE_FATHER
  | WAIT_STR | SPLITTING | WAIT_OFFERS | MERGING | LEAVING_WSN | LEAVING

datatype sn_event = StartChanges | CommitChanges bool bool bool | AvailabilityChanged bool

type_synonym member = "addr \<times> bool" \<comment> \<open>\<open>AddrService\<close>: an address, and whether it is its ResourceNode\<close>

record 'i snode =
  sn_state :: sn_status
  sn_m :: "32 word"
  sn_level :: "32 word"
  sn_seq :: "64 word"
  sn_timer :: int
  sn_zone :: "zone option"
  sn_notified :: "zone option"
  sn_father :: addr
  sn_newFather :: addr
  sn_subZones :: "tzone list"
  sn_tx :: txid
  sn_txDriver :: addr
  sn_noAck :: "member list"
  sn_ack :: "member list"
  sn_newBrother :: addr
  sn_delayed :: "(addr \<times> 'i msg) list"
  sn_events :: "sn_event list"
  sn_comm :: "'i comm"

definition mk_snode :: "32 word \<Rightarrow> 'i comm \<Rightarrow> 'i snode" where
  "mk_snode fanout c = \<lparr>sn_state = OFFLINE, sn_m = (if fanout < 2 then 2 else fanout),
     sn_level = 0, sn_seq = 1, sn_timer = 0, sn_zone = None, sn_notified = None,
     sn_father = null_addr, sn_newFather = null_addr, sn_subZones = [], sn_tx = null_tx,
     sn_txDriver = null_addr, sn_noAck = [], sn_ack = [], sn_newBrother = null_addr,
     sn_delayed = [], sn_events = [], sn_comm = c\<rparr>"

abbreviation sn_local :: "'i snode \<Rightarrow> addr" where
  "sn_local s \<equiv> c_local (sn_comm s)"

abbreviation has_zone :: "tzone \<Rightarrow> bool" where
  "has_zone t \<equiv> tz_zone t \<noteq> None"

definition sn_send :: "addr \<Rightarrow> 'i msg \<Rightarrow> 'i snode \<Rightarrow> 'i snode" where
  "sn_send a m s = s\<lparr>sn_comm := send_message a m (sn_comm s)\<rparr>"

definition sn_fire :: "sn_event \<Rightarrow> 'i snode \<Rightarrow> 'i snode" where
  "sn_fire e s = s\<lparr>sn_events := sn_events s @ [e]\<rparr>"

definition sn_delay :: "addr \<Rightarrow> 'i msg \<Rightarrow> 'i snode \<Rightarrow> 'i snode" where
  "sn_delay src m s = s\<lparr>sn_delayed := sn_delayed s @ [(src, m)]\<rparr>"

definition sn_cancel :: "'i snode \<Rightarrow> 'i snode" where
  "sn_cancel s = s\<lparr>sn_comm := cancel_timer (sn_timer s) (sn_comm s)\<rparr>"

text \<open>
  Asking for a new structure node, in \<open>checkFanout\<close> and \<open>handle(NewStrNodeMsg)\<close>: the message
  is sent to this host and repeated by a timer after 60 seconds.
\<close>

definition sn_ask_node :: "'i snode \<Rightarrow> 'i snode" where
  "sn_ask_node s =
    (let m = MNeeded \<lparr>need_tx = sn_tx s, need_who = sn_local s\<rparr>;
         s1 = sn_send (sn_local s) m s;
         (i, c) = set_timer_in 60000000 m (sn_comm s1)
     in s1\<lparr>sn_timer := i, sn_comm := c\<rparr>)"

definition compare_zones :: "tzone \<Rightarrow> tzone \<Rightarrow> bool" where
  "compare_zones l r \<longleftrightarrow>
    (case tz_zone l of
       None \<Rightarrow> True
     | Some zl \<Rightarrow> (case tz_zone r of None \<Rightarrow> False | Some zr \<Rightarrow> z_min zl < z_min zr))"

definition sort_zones :: "tzone list \<Rightarrow> tzone list" where
  "sort_zones ts = std_sort compare_zones ts"

fun aggregate_all :: "zone \<Rightarrow> zone list \<Rightarrow> zone option" where
  "aggregate_all z [] = Some z"
| "aggregate_all z (r # rs) = do { z' \<leftarrow> zone_aggregate z r; aggregate_all z' rs }"

text \<open>The loop of \<open>recomputeZone\<close> starts at the first zone, which the result was copied from.\<close>

definition recompute_zone :: "'i snode \<Rightarrow> 'i snode option" where
  "recompute_zone s =
    (if sn_subZones s = [] then Some s
     else (case map the (filter (\<lambda>z. z \<noteq> None) (map tz_zone (sn_subZones s))) of
         [] \<Rightarrow> Some (s\<lparr>sn_zone := None\<rparr>)
       | z # zs \<Rightarrow> do { z' \<leftarrow> aggregate_all z (z # zs); Some (s\<lparr>sn_zone := Some z'\<rparr>) }))"

definition notify_father :: "txid \<Rightarrow> 'i snode \<Rightarrow> 'i snode option" where
  "notify_father tid s =
    (if sn_father s \<noteq> null_addr then
       (case sn_zone s of
          None \<Rightarrow> None
        | Some z \<Rightarrow>
            (if sn_notified s = None \<or> \<not> zone_eq (the (sn_notified s)) z
             then Some (sn_send (sn_father s)
               (MUpdate (mk_update\<lparr>upd_zone := z, upd_seq := sn_seq s, upd_tx := tid\<rparr>))
               (s\<lparr>sn_notified := Some z, sn_seq := sn_seq s + 1\<rparr>))
             else Some s))
     else Some s)"

definition check_fanout :: "'i snode \<Rightarrow> 'i snode option" where
  "check_fanout s =
    (if sn_tx s = null_tx then
       (case sn_subZones s of
          [] \<Rightarrow> None
        | f # _ \<Rightarrow>
            (if has_zone f then
               (if unat (2 * sn_m s) \<le> length (sn_subZones s) then
                  (let (tid, c) = create_random_id (sn_comm s)
                   in Some ((sn_ask_node (s\<lparr>sn_tx := tid, sn_txDriver := c_local c, sn_comm := c\<rparr>))
                        \<lparr>sn_state := WAIT_STR\<rparr>))
                else if sn_father s \<noteq> null_addr \<and> length (sn_subZones s) < unat (sn_m s) then Some s
                else if sn_father s = null_addr \<and> length (sn_subZones s) = 1 \<and> 0 < sn_level s
                  then Some ((sn_send (tz_link f) (MNewFather mk_newfather) s)\<lparr>sn_state := LEAVING\<rparr>)
                else Some s)
             else Some s))
     else Some s)"

section \<open>Frames of the small operations\<close>

lemma sn_send_simps [simp]:
  "sn_state (sn_send a m s) = sn_state s" "sn_m (sn_send a m s) = sn_m s"
  "sn_level (sn_send a m s) = sn_level s" "sn_seq (sn_send a m s) = sn_seq s"
  "sn_timer (sn_send a m s) = sn_timer s" "sn_zone (sn_send a m s) = sn_zone s"
  "sn_notified (sn_send a m s) = sn_notified s" "sn_father (sn_send a m s) = sn_father s"
  "sn_newFather (sn_send a m s) = sn_newFather s" "sn_subZones (sn_send a m s) = sn_subZones s"
  "sn_tx (sn_send a m s) = sn_tx s" "sn_txDriver (sn_send a m s) = sn_txDriver s"
  "sn_noAck (sn_send a m s) = sn_noAck s" "sn_ack (sn_send a m s) = sn_ack s"
  "sn_newBrother (sn_send a m s) = sn_newBrother s" "sn_delayed (sn_send a m s) = sn_delayed s"
  "sn_events (sn_send a m s) = sn_events s"
  "sn_comm (sn_send a m s) = send_message a m (sn_comm s)"
  by (simp_all add: sn_send_def)

lemma sn_fire_simps [simp]:
  "sn_state (sn_fire e s) = sn_state s" "sn_m (sn_fire e s) = sn_m s"
  "sn_level (sn_fire e s) = sn_level s" "sn_seq (sn_fire e s) = sn_seq s"
  "sn_timer (sn_fire e s) = sn_timer s" "sn_zone (sn_fire e s) = sn_zone s"
  "sn_notified (sn_fire e s) = sn_notified s" "sn_father (sn_fire e s) = sn_father s"
  "sn_newFather (sn_fire e s) = sn_newFather s" "sn_subZones (sn_fire e s) = sn_subZones s"
  "sn_tx (sn_fire e s) = sn_tx s" "sn_txDriver (sn_fire e s) = sn_txDriver s"
  "sn_noAck (sn_fire e s) = sn_noAck s" "sn_ack (sn_fire e s) = sn_ack s"
  "sn_newBrother (sn_fire e s) = sn_newBrother s" "sn_delayed (sn_fire e s) = sn_delayed s"
  "sn_events (sn_fire e s) = sn_events s @ [e]" "sn_comm (sn_fire e s) = sn_comm s"
  by (simp_all add: sn_fire_def)

lemma sn_delay_simps [simp]:
  "sn_state (sn_delay a m s) = sn_state s" "sn_m (sn_delay a m s) = sn_m s"
  "sn_level (sn_delay a m s) = sn_level s" "sn_seq (sn_delay a m s) = sn_seq s"
  "sn_timer (sn_delay a m s) = sn_timer s" "sn_zone (sn_delay a m s) = sn_zone s"
  "sn_notified (sn_delay a m s) = sn_notified s" "sn_father (sn_delay a m s) = sn_father s"
  "sn_newFather (sn_delay a m s) = sn_newFather s" "sn_subZones (sn_delay a m s) = sn_subZones s"
  "sn_tx (sn_delay a m s) = sn_tx s" "sn_txDriver (sn_delay a m s) = sn_txDriver s"
  "sn_noAck (sn_delay a m s) = sn_noAck s" "sn_ack (sn_delay a m s) = sn_ack s"
  "sn_newBrother (sn_delay a m s) = sn_newBrother s"
  "sn_delayed (sn_delay a m s) = sn_delayed s @ [(a, m)]"
  "sn_events (sn_delay a m s) = sn_events s" "sn_comm (sn_delay a m s) = sn_comm s"
  by (simp_all add: sn_delay_def)

lemma sn_cancel_simps [simp]:
  "sn_state (sn_cancel s) = sn_state s" "sn_m (sn_cancel s) = sn_m s"
  "sn_level (sn_cancel s) = sn_level s" "sn_seq (sn_cancel s) = sn_seq s"
  "sn_timer (sn_cancel s) = sn_timer s" "sn_zone (sn_cancel s) = sn_zone s"
  "sn_notified (sn_cancel s) = sn_notified s" "sn_father (sn_cancel s) = sn_father s"
  "sn_newFather (sn_cancel s) = sn_newFather s" "sn_subZones (sn_cancel s) = sn_subZones s"
  "sn_tx (sn_cancel s) = sn_tx s" "sn_txDriver (sn_cancel s) = sn_txDriver s"
  "sn_noAck (sn_cancel s) = sn_noAck s" "sn_ack (sn_cancel s) = sn_ack s"
  "sn_newBrother (sn_cancel s) = sn_newBrother s" "sn_delayed (sn_cancel s) = sn_delayed s"
  "sn_events (sn_cancel s) = sn_events s"
  "sn_comm (sn_cancel s) = cancel_timer (sn_timer s) (sn_comm s)"
  by (simp_all add: sn_cancel_def)

lemma sn_ask_node_simps [simp]:
  "sn_state (sn_ask_node s) = sn_state s" "sn_m (sn_ask_node s) = sn_m s"
  "sn_level (sn_ask_node s) = sn_level s" "sn_seq (sn_ask_node s) = sn_seq s"
  "sn_zone (sn_ask_node s) = sn_zone s"
  "sn_notified (sn_ask_node s) = sn_notified s" "sn_father (sn_ask_node s) = sn_father s"
  "sn_newFather (sn_ask_node s) = sn_newFather s" "sn_subZones (sn_ask_node s) = sn_subZones s"
  "sn_tx (sn_ask_node s) = sn_tx s" "sn_txDriver (sn_ask_node s) = sn_txDriver s"
  "sn_noAck (sn_ask_node s) = sn_noAck s" "sn_ack (sn_ask_node s) = sn_ack s"
  "sn_newBrother (sn_ask_node s) = sn_newBrother s" "sn_delayed (sn_ask_node s) = sn_delayed s"
  "sn_events (sn_ask_node s) = sn_events s"
  "c_local (sn_comm (sn_ask_node s)) = c_local (sn_comm s)"
  "c_now (sn_comm (sn_ask_node s)) = c_now (sn_comm s)"
  by (simp_all add: sn_ask_node_def Let_def case_prod_beta)

lemma traffic_ask_node [simp, sent_simps]:
  "traffic (sn_comm (sn_ask_node s)) =
    add_mset (sn_local s, MNeeded \<lparr>need_tx = sn_tx s, need_who = sn_local s\<rparr>) (traffic (sn_comm s))"
  by (simp add: sn_ask_node_def Let_def case_prod_beta)

lemma recompute_zone_frame:
  "recompute_zone s = Some s' \<Longrightarrow> s' = s\<lparr>sn_zone := sn_zone s'\<rparr>"
  by (cases s) (auto simp: recompute_zone_def bind_Some_iff split: if_splits list.splits)

lemma recompute_zone_fields:
  assumes "recompute_zone s = Some s'"
  shows "sn_state s' = sn_state s" "sn_m s' = sn_m s" "sn_level s' = sn_level s"
    "sn_seq s' = sn_seq s" "sn_timer s' = sn_timer s" "sn_notified s' = sn_notified s"
    "sn_father s' = sn_father s" "sn_newFather s' = sn_newFather s"
    "sn_subZones s' = sn_subZones s" "sn_tx s' = sn_tx s" "sn_txDriver s' = sn_txDriver s"
    "sn_noAck s' = sn_noAck s" "sn_ack s' = sn_ack s" "sn_newBrother s' = sn_newBrother s"
    "sn_delayed s' = sn_delayed s" "sn_events s' = sn_events s" "sn_comm s' = sn_comm s"
proof -
  obtain z where "s' = s\<lparr>sn_zone := z\<rparr>" by (rule that [OF recompute_zone_frame [OF assms]])
  then show "sn_state s' = sn_state s" "sn_m s' = sn_m s" "sn_level s' = sn_level s"
    "sn_seq s' = sn_seq s" "sn_timer s' = sn_timer s" "sn_notified s' = sn_notified s"
    "sn_father s' = sn_father s" "sn_newFather s' = sn_newFather s"
    "sn_subZones s' = sn_subZones s" "sn_tx s' = sn_tx s" "sn_txDriver s' = sn_txDriver s"
    "sn_noAck s' = sn_noAck s" "sn_ack s' = sn_ack s" "sn_newBrother s' = sn_newBrother s"
    "sn_delayed s' = sn_delayed s" "sn_events s' = sn_events s" "sn_comm s' = sn_comm s"
    by simp_all
qed

section \<open>The order of the children\<close>

text \<open>Children without zone information come first, the others by their lowest address.\<close>

definition zone_le :: "tzone \<Rightarrow> tzone \<Rightarrow> bool" where
  "zone_le l r \<longleftrightarrow>
    (case tz_zone l of
       None \<Rightarrow> True
     | Some zl \<Rightarrow> (case tz_zone r of None \<Rightarrow> False | Some zr \<Rightarrow> z_min zl \<le> z_min zr))"

interpretation zone_order: sort_order compare_zones zone_le
  by unfold_locales (auto simp: compare_zones_def zone_le_def split: option.splits)

lemma mset_sort_zones [simp, sort_simps]: "mset (sort_zones ts) = mset ts"
  by (simp add: sort_zones_def sort_simps)

lemma set_sort_zones [simp]: "set (sort_zones ts) = set ts"
  by (simp add: sort_zones_def)

lemma length_sort_zones [simp]: "length (sort_zones ts) = length ts"
  by (simp add: sort_zones_def)

lemma sort_zones_ordered: "sorted_wrt zone_le (sort_zones ts)"
  unfolding sort_zones_def by (rule zone_order.sort_ordered)

lemma ordered_front_zone:
  "sorted_wrt zone_le (t # ts) \<Longrightarrow> has_zone t \<Longrightarrow> \<forall>x \<in> set (t # ts). has_zone x"
  by (auto simp: zone_le_def split: option.splits)

lemma ordered_dropWhile_zones:
  "sorted_wrt zone_le ts \<Longrightarrow> \<forall>x \<in> set (dropWhile (\<lambda>t. tz_zone t = None) ts). has_zone x"
proof (induction ts)
  case Nil
  then show ?case by simp
next
  case (Cons t ts)
  show ?case
  proof (cases "has_zone t")
    case True
    then have "dropWhile (\<lambda>t. tz_zone t = None) (t # ts) = t # ts" by auto
    with ordered_front_zone [OF Cons.prems True] show ?thesis by simp
  next
    case False
    with Cons show ?thesis by simp
  qed
qed

text \<open>
  The comparator of the children is not a strict weak order: an entry without zone
  information compares below itself. Sorting with it still puts the entries without
  information first and the others in the order of their lowest address, and keeps the entries.
\<close>

theorem sort_zones_result:
  "sorted_wrt zone_le (sort_zones ts) \<and> mset (sort_zones ts) = mset ts
   \<and> compare_zones tz_default tz_default"
  by (simp add: sort_zones_ordered compare_zones_def tz_default_def)

end
