(* ===== verification/Structure_Split.thy ===== *)
theory Structure_Split
  imports Structure_State
begin

text \<open>
  The division of the children of a structure node into two groups, in
  \<open>StructureNode::handle(NewStrNodeMsg)\<close>: the distance matrix, the search of the most distant
  pair, the insertion sort of the indices by distance to one of that pair, and the array
  \<open>zone\<close> that is filled through \<open>pos\<close>. Entries are named by their position in \<open>subZones\<close>.
\<close>

definition split_distance :: "zone list \<Rightarrow> nat \<Rightarrow> nat \<Rightarrow> rat" where
  "split_distance zs i j =
    (if j < i then zone_distance (zs ! i) (zs ! j)
     else if i < j then zone_distance (zs ! j) (zs ! i)
     else 0)"

fun max_loop :: "(nat \<Rightarrow> nat \<Rightarrow> rat) \<Rightarrow> (nat \<times> nat) list \<Rightarrow> nat \<times> rat \<Rightarrow> nat \<times> rat" where
  "max_loop d [] acc = acc"
| "max_loop d ((i, j) # ps) (maxi, maxDist) =
    (if maxDist < d i j then max_loop d ps (i, d i j) else max_loop d ps (maxi, maxDist))"

definition split_maxi :: "zone list \<Rightarrow> nat" where
  "split_maxi zs = fst (max_loop (split_distance zs)
     (concat (map (\<lambda>i. map (\<lambda>j. (i, j)) [0..<i]) [0..<length zs])) (0, 0))"

text \<open>
  The inner loop of the insertion sort walks \<open>pos\<close> from its end; \<open>ins_back\<close> works on the
  reversed prefix.
\<close>

fun ins_back :: "(nat \<Rightarrow> rat) \<Rightarrow> nat \<Rightarrow> nat list \<Rightarrow> nat list" where
  "ins_back d x [] = [x]"
| "ins_back d x (y # ys) = (if d x < d y then y # ins_back d x ys else x # y # ys)"

definition split_pos :: "zone list \<Rightarrow> nat list" where
  "split_pos zs = rev (fold (ins_back (split_distance zs (split_maxi zs))) [0..<length zs] [])"

text \<open>\<open>zone[pos[i]] = *it\<close> for the \<open>i\<close>-th child: the array of child positions.\<close>

definition split_zone :: "zone list \<Rightarrow> nat list" where
  "split_zone zs = fold (\<lambda>i z. z[split_pos zs ! i := i]) [0..<length zs] (replicate (length zs) 0)"

text \<open>The children that leave: the upper half of the array, in order.\<close>

definition split_moved :: "zone list \<Rightarrow> nat list" where
  "split_moved zs = map (\<lambda>i. split_zone zs ! i) [length zs div 2..<length zs]"

section \<open>The division is a partition\<close>

lemma mset_ins_back: "mset (ins_back d x ys) = add_mset x (mset ys)"
  by (induction ys) auto

lemma mset_fold_ins_back: "mset (fold (ins_back d) xs ys) = mset xs + mset ys"
  by (induction xs arbitrary: ys) (auto simp: mset_ins_back)

lemma mset_split_pos: "mset (split_pos zs) = mset [0..<length zs]"
  by (simp add: split_pos_def mset_fold_ins_back)

lemma split_pos_perm:
  "length (split_pos zs) = length zs" "distinct (split_pos zs)"
  "set (split_pos zs) = {0..<length zs}"
proof -
  show "length (split_pos zs) = length zs"
    using mset_split_pos [of zs] by (metis length_upt minus_nat.diff_0 size_mset)
  show "distinct (split_pos zs)"
    using mset_split_pos [of zs] distinct_upt mset_eq_imp_distinct_iff by blast
  show "set (split_pos zs) = {0..<length zs}"
    using mset_split_pos [of zs] mset_eq_setD by fastforce
qed

lemma fold_update_perm:
  assumes "distinct p" and "set p \<subseteq> {0..<length z}"
  shows "length (fold (\<lambda>i z. z[p ! i := i]) [0..<k] z) = length z \<and>
    (k \<le> length p \<longrightarrow> (\<forall>i < k. fold (\<lambda>i z. z[p ! i := i]) [0..<k] z ! (p ! i) = i))"
proof (induction k)
  case 0
  then show ?case by simp
next
  case (Suc k)
  let ?z = "fold (\<lambda>i z. z[p ! i := i]) [0..<k] z"
  have step: "fold (\<lambda>i z. z[p ! i := i]) [0..<Suc k] z = ?z[p ! k := k]" by simp
  show ?case
  proof (intro conjI impI allI)
    show "length (fold (\<lambda>i z. z[p ! i := i]) [0..<Suc k] z) = length z"
      using Suc.IH by simp
  next
    fix i
    assume k: "Suc k \<le> length p" and i: "i < Suc k"
    show "fold (\<lambda>i z. z[p ! i := i]) [0..<Suc k] z ! (p ! i) = i"
    proof (cases "i = k")
      case True
      have "p ! k < length z" using assms(2) k by (meson Suc_le_lessD atLeastLessThan_iff nth_mem subsetD)
      with True Suc.IH show ?thesis by (simp add: step)
    next
      case False
      with i have "i < k" by simp
      moreover have "p ! i \<noteq> p ! k" using assms(1) k \<open>i < k\<close> by (simp add: nth_eq_iff_index_eq)
      ultimately show ?thesis using Suc.IH k by (simp add: step)
    qed
  qed
qed

lemma split_zone_inverse:
  "length (split_zone zs) = length zs"
  "i < length zs \<Longrightarrow> split_zone zs ! (split_pos zs ! i) = i"
  using fold_update_perm [of "split_pos zs" "replicate (length zs) 0" "length zs"]
    split_pos_perm [of zs] by (auto simp: split_zone_def)

lemma split_zone_perm: "distinct (split_zone zs)" "set (split_zone zs) = {0..<length zs}"
proof -
  have sub: "{0..<length zs} \<subseteq> set (split_zone zs)"
  proof
    fix i assume "i \<in> {0..<length zs}"
    then have i: "i < length zs" by simp
    then have "split_pos zs ! i < length (split_zone zs)"
      using split_pos_perm [of zs] split_zone_inverse(1) [of zs] nth_mem by fastforce
    with split_zone_inverse(2) [OF i] show "i \<in> set (split_zone zs)" by (metis nth_mem)
  qed
  have card: "card {0..<length zs} = length (split_zone zs)"
    by (simp add: split_zone_inverse)
  have "card (set (split_zone zs)) \<le> length (split_zone zs)" by (rule card_length)
  with sub card have eq: "set (split_zone zs) = {0..<length zs}"
    by (metis List.finite_set card_seteq)
  then show "set (split_zone zs) = {0..<length zs}" .
  show "distinct (split_zone zs)" using eq card by (simp add: card_distinct)
qed

lemma split_moved_distinct: "distinct (split_moved zs)"
proof -
  have "inj_on (\<lambda>i. split_zone zs ! i) {length zs div 2..<length zs}"
    using split_zone_perm(1) [of zs] split_zone_inverse(1) [of zs]
    by (auto simp: inj_on_def nth_eq_iff_index_eq)
  then show ?thesis by (simp add: split_moved_def distinct_map)
qed

lemma split_moved_range: "set (split_moved zs) \<subseteq> {0..<length zs}"
proof -
  have "set (split_moved zs) \<subseteq> set (split_zone zs)"
    by (auto simp: split_moved_def split_zone_inverse)
  then show ?thesis by (simp add: split_zone_perm(2))
qed

text \<open>
  The division moves \<open>n - n div 2\<close> of the \<open>n\<close> children, each of them once, and all are
  positions of the list: no child is lost, none is sent twice, and with at least \<open>2 m\<close>
  children both groups have at least \<open>m\<close>.
\<close>

theorem split_moved_partition:
  "distinct (split_moved zs) \<and> set (split_moved zs) \<subseteq> {0..<length zs}
   \<and> length (split_moved zs) = length zs - length zs div 2
   \<and> (2 * m \<le> length zs \<longrightarrow> m \<le> length (split_moved zs) \<and> m \<le> length zs - length (split_moved zs))"
  using split_moved_distinct [of zs] split_moved_range [of zs] by (auto simp: split_moved_def)

theorem split_moved_partition_witness:
  "let zs = map zone_of_addr [Addr 1 0, Addr 9 0, Addr 2 0, Addr 8 0]
   in 2 * 2 \<le> length zs \<and> 2 \<le> length (split_moved zs)"
  using split_moved_partition [of "map zone_of_addr [Addr 1 0, Addr 9 0, Addr 2 0, Addr 8 0]" 2]
  by (simp add: Let_def)

section \<open>Which children stay\<close>

lemma ins_back_sorted:
  "sorted_wrt (\<lambda>a b. d b \<le> d a) ys \<Longrightarrow> sorted_wrt (\<lambda>a b. d b \<le> d a) (ins_back d x ys)"
proof (induction ys)
  case Nil
  then show ?case by simp
next
  case (Cons y ys)
  have "set (ins_back d x ys) = insert x (set ys)"
    by (metis mset_ins_back set_mset_add_mset_insert set_mset_mset)
  with Cons show ?case by (auto intro: order_trans)
qed

lemma fold_ins_back_sorted:
  "sorted_wrt (\<lambda>a b. d b \<le> d a) ys \<Longrightarrow> sorted_wrt (\<lambda>a b. d b \<le> d a) (fold (ins_back d) xs ys)"
  by (induction xs arbitrary: ys) (auto simp: ins_back_sorted)

lemma split_pos_sorted:
  "sorted_wrt (\<lambda>a b. split_distance zs (split_maxi zs) a \<le> split_distance zs (split_maxi zs) b)
    (split_pos zs)"
  by (simp add: split_pos_def sorted_wrt_rev fold_ins_back_sorted)

definition split_kept :: "zone list \<Rightarrow> nat list" where
  "split_kept zs = map (\<lambda>i. split_zone zs ! i) [0..<length zs div 2]"

text \<open>
  \<open>pos[k]\<close> is the position of the \<open>k\<close>-th nearest child, but the array is filled by
  \<open>zone[pos[i]] = i\<close>, with the inverse permutation. The two agree when \<open>pos\<close> is an involution.
\<close>

lemma split_zone_involution:
  assumes "\<forall>i < length zs. split_pos zs ! (split_pos zs ! i) = i"
  shows "split_zone zs = split_pos zs"
proof (rule nth_equalityI)
  show "length (split_zone zs) = length (split_pos zs)"
    by (simp add: split_zone_inverse split_pos_perm)
next
  fix i assume "i < length (split_zone zs)"
  then have i: "i < length zs" by (simp add: split_zone_inverse)
  have "split_pos zs ! i \<in> set (split_pos zs)" using i by (simp only: nth_mem split_pos_perm(1))
  then have "split_pos zs ! i < length zs" by (simp add: split_pos_perm(3))
  then have "split_zone zs ! (split_pos zs ! (split_pos zs ! i)) = split_pos zs ! i"
    by (rule split_zone_inverse(2))
  with assms i show "split_zone zs ! i = split_pos zs ! i" by simp
qed

text \<open>
  When the computed order of the children is its own inverse, the children that stay are
  the nearest half: none of them is farther from the reference child than one that leaves.
\<close>

theorem split_kept_nearest:
  assumes "\<forall>i < length zs. split_pos zs ! (split_pos zs ! i) = i"
    and "a \<in> set (split_kept zs)" and "b \<in> set (split_moved zs)"
  shows "split_distance zs (split_maxi zs) a \<le> split_distance zs (split_maxi zs) b"
proof -
  have eq: "split_zone zs = split_pos zs" by (rule split_zone_involution) fact
  from assms(2,3) obtain i j where "a = split_pos zs ! i" "b = split_pos zs ! j"
    and "i < length zs div 2" "length zs div 2 \<le> j" "j < length zs"
    by (auto simp: split_kept_def split_moved_def eq)
  then show ?thesis
    using sorted_wrt_nth_less [OF split_pos_sorted, of i j zs] by (simp add: split_pos_perm)
qed

definition split_line :: "zone list" where
  "split_line = map (\<lambda>i. zone_of_addr (Addr i 0)) [1, 2, 8, 9]"

lemma split_line_values:
  "length split_line = 4" "split_pos split_line = [3, 2, 1, 0]" "split_kept split_line = [3, 2]"
  "split_moved split_line = [1, 0]"
  by code_simp+

theorem split_kept_nearest_witness:
  "split_distance split_line (split_maxi split_line) 2
   \<le> split_distance split_line (split_maxi split_line) 1"
proof (rule split_kept_nearest)
  show "\<forall>i < length split_line. split_pos split_line ! (split_pos split_line ! i) = i"
    by (simp add: split_line_values All_less_Suc numeral_eq_Suc)
qed (simp_all add: split_line_values)

text \<open>
  In general it is not: for four children whose zones overlap, ordered by address as the
  list is, the group that stays holds a child farther from the reference than one that leaves,
  and so does the other group, so neither is the nearest half that the code means to take.
\<close>

theorem split_not_nearest:
  "let zs = [\<lparr>z_min = Addr 1 0, z_max = Addr 1 0, z_avail = 1\<rparr>,
             \<lparr>z_min = Addr 1 0, z_max = Addr 3 0, z_avail = 1\<rparr>,
             \<lparr>z_min = Addr 2 0, z_max = Addr 2 0, z_avail = 1\<rparr>,
             \<lparr>z_min = Addr 3 0, z_max = Addr 3 0, z_avail = 1\<rparr>];
       d = split_distance zs (split_maxi zs)
   in split_kept zs = [3, 0] \<and> split_moved zs = [2, 1]
      \<and> d 2 < d 0 \<and> d 3 < d 2"
  by code_simp

end
