(* ===== verification/Structure_Node.thy ===== *)
theory Structure_Node
  imports Structure_Split
begin

text \<open>
  The handlers of \<open>src/lib/overlay/StructureNode.cpp\<close>, one definition per message type, the
  two ends of a transaction (\<open>commit\<close>, \<open>rollback\<close>), the delayed messages and the dispatch on
  the type of a message. \<open>None\<close> marks an execution without a defined outcome: an end iterator
  or a null zone pointer is followed, or the rounding loop of a zone never ends.
\<close>

section \<open>Messages that may be delayed\<close>

fun dir_loop :: "addr \<Rightarrow> tzone \<Rightarrow> rat \<Rightarrow> tzone list \<Rightarrow> tzone option" where
  "dir_loop who dir md [] = Some dir"
| "dir_loop who dir md (t # ts) =
    (case tz_zone t of
       None \<Rightarrow> None
     | Some z \<Rightarrow>
        (let d = zone_distance_addr z who
         in if d \<le> md then dir_loop who t d ts else dir_loop who dir md ts))"

definition insert_direction :: "addr \<Rightarrow> tzone list \<Rightarrow> tzone option" where
  "insert_direction who ts =
    (case dropWhile (\<lambda>t. tz_zone t = None) ts of
       [] \<Rightarrow> None
     | t # rest \<Rightarrow>
        (case tz_zone t of
           None \<Rightarrow> None
         | Some z \<Rightarrow> dir_loop who t (zone_distance_addr z who) rest))"

definition ack_to_rn :: "txid \<Rightarrow> ack_msg" where
  "ack_to_rn t = (mk_ack t)\<lparr>ack_forRN := True\<rparr>"

definition handle_insert :: "addr \<Rightarrow> insert_msg \<Rightarrow> bool \<Rightarrow> 'i snode \<Rightarrow> 'i snode option" where
  "handle_insert src msg self s =
    (if insert_forRN msg then Some s
     else if sn_tx s \<noteq> null_tx then Some (sn_delay src (MInsert msg) s)
     else if sn_state s = ONLINE \<and> sn_zone s = None then Some (sn_delay src (MInsert msg) s)
     else if unat (2 * sn_m s) \<le> length (sn_subZones s) then Some (sn_delay src (MInsert msg) s)
     else if sn_state s = ONLINE then
       (case sn_zone s of
          None \<Rightarrow> None
        | Some z \<Rightarrow>
            (if sn_father s \<noteq> null_addr \<and> (src \<noteq> sn_father s \<or> self)
                \<and> \<not> zone_contains z (insert_who msg)
             then Some (sn_send (sn_father s) (MInsert msg) s)
             else if sn_level s \<noteq> 0 then do {
               dir \<leftarrow> insert_direction (insert_who msg) (sn_subZones s);
               zd \<leftarrow> tz_zone dir;
               (if has_zone (hd (sn_subZones s)) \<or> zone_contains zd (insert_who msg)
                then Some (sn_send (tz_link dir) (MInsert msg) s)
                else Some (sn_delay src (MInsert msg) s))
             }
             else
               (let s1 = sn_fire StartChanges
                      (s\<lparr>sn_tx := insert_tx msg, sn_txDriver := insert_who msg\<rparr>);
                    s2 = s1\<lparr>sn_subZones :=
                      sort_zones (set_link (insert_who msg) tz_default # sn_subZones s1)\<rparr>
                in Some ((sn_send (insert_who msg) (MAck (ack_to_rn (sn_tx s2))) s2)
                     \<lparr>sn_state := ADD_CHILD\<rparr>))))
     else if insert_who msg = sn_local s then
       (let s1 = sn_fire StartChanges
              (s\<lparr>sn_tx := insert_tx msg, sn_txDriver := insert_who msg\<rparr>);
            s2 = sn_fire (AvailabilityChanged False)
              (s1\<lparr>sn_subZones := set_link (insert_who msg) tz_default # sn_subZones s1\<rparr>)
        in Some ((sn_send (insert_who msg) (MAck (ack_to_rn (sn_tx s2))) s2)
             \<lparr>sn_state := ADD_CHILD\<rparr>))
     else Some s)"

text \<open>
  The search for the child with most free structure nodes: the position of the best one so
  far and its count, an \<open>int\<close> read from the 32-bit count.
\<close>

fun best_loop :: "tzone list \<Rightarrow> nat \<Rightarrow> nat \<times> int \<Rightarrow> (nat \<times> int) option" where
  "best_loop [] i acc = Some acc"
| "best_loop (t # ts) i (dir, mx) =
    (case tz_zone t of
       None \<Rightarrow> None
     | Some z \<Rightarrow> best_loop ts (Suc i)
         (if mx < sint (z_avail z) then (i, sint (z_avail z)) else (dir, mx)))"

definition dec_avail :: "tzone \<Rightarrow> tzone" where
  "dec_avail t = t\<lparr>tz_zone := map_option (\<lambda>z. z\<lparr>z_avail := z_avail z - 1\<rparr>) (tz_zone t)\<rparr>"

definition handle_needed :: "addr \<Rightarrow> needed_msg \<Rightarrow> bool \<Rightarrow> 'i snode \<Rightarrow> 'i snode option" where
  "handle_needed src msg self s =
    (if sn_state s \<noteq> OFFLINE \<and> sn_state s \<noteq> START_IN then
       (let k = length (takeWhile (\<lambda>t. tz_zone t = None) (sn_subZones s))
        in case drop k (sn_subZones s) of
             [] \<Rightarrow> Some (sn_delay src (MNeeded msg) s)
           | t # rest \<Rightarrow> do {
               zt \<leftarrow> tz_zone t;
               (dir, mx) \<leftarrow> best_loop rest (Suc k) (k, sint (z_avail zt));
               (if 0 < mx then
                  Some (sn_send (tz_link (sn_subZones s ! dir)) (MNeeded msg)
                    (s\<lparr>sn_subZones := (sn_subZones s)[dir := dec_avail (sn_subZones s ! dir)]\<rparr>))
                else if has_zone (hd (sn_subZones s)) \<and> sn_father s \<noteq> null_addr then
                  Some (sn_send (sn_father s) (MNeeded msg) s)
                else Some (sn_delay src (MNeeded msg) s))
             })
     else if sn_state s = OFFLINE then
       (let s1 = sn_fire StartChanges s;
            s2 = sn_fire (AvailabilityChanged False)
              (s1\<lparr>sn_tx := need_tx msg, sn_txDriver := need_who msg\<rparr>)
        in Some ((sn_send (need_who msg)
                (MNewStr \<lparr>ns_tx = sn_tx s2, ns_whoOffers = sn_local s2\<rparr>) s2)
             \<lparr>sn_state := START_IN\<rparr>))
     else Some s)"

section \<open>The end of a transaction without changes\<close>

definition rollback_zones :: "tzone list \<Rightarrow> tzone list" where
  "rollback_zones ts = map (\<lambda>t. if is_deletion t then tz_rollback t else t)
     (filter (\<lambda>t. is_deletion t \<or> \<not> is_addition t) ts)"

fun send_rollbacks :: "txid \<Rightarrow> member list \<Rightarrow> 'i comm \<Rightarrow> 'i comm" where
  "send_rollbacks t [] c = c"
| "send_rollbacks t ((a, rn) # ms) c =
    send_rollbacks t ms (send_message a (MRollback ((mk_rollback t)\<lparr>rollback_forRN := rn\<rparr>)) c)"

definition sn_rollback :: "'i snode \<Rightarrow> 'i snode" where
  "sn_rollback s =
    (let s1 = (if sn_txDriver s = sn_local s
               then s\<lparr>sn_noAck := [], sn_ack := [],
                      sn_comm := send_rollbacks (sn_tx s) (sn_ack s) (sn_comm s)\<rparr>
               else s);
         s2 = s1\<lparr>sn_subZones := rollback_zones (sn_subZones s1), sn_newFather := null_addr\<rparr>;
         s3 = (sn_fire (CommitChanges False True True) s2)\<lparr>sn_tx := null_tx\<rparr>;
         s4 = (if sn_state s3 = WAIT_STR then sn_cancel s3 else s3)
     in if sn_state s4 = START_IN \<or> sn_state s4 = INIT
        then sn_fire (AvailabilityChanged True) (s4\<lparr>sn_state := OFFLINE\<rparr>)
        else s4\<lparr>sn_state := ONLINE\<rparr>)"

definition handle_newfather :: "addr \<Rightarrow> newfather_msg \<Rightarrow> bool \<Rightarrow> 'i snode \<Rightarrow> 'i snode option" where
  "handle_newfather src msg self s =
    (if nf_forRN msg then Some s
     else if sn_state s = OFFLINE then Some s
     else if sn_state s = START_IN \<or> sn_state s = INIT \<or> sn_state s = ADD_CHILD
       then Some (sn_delay src (MNewFather msg) s)
     else if src = sn_father s then
       (let s1 = (if sn_tx s \<noteq> null_tx then sn_rollback s else s);
            s2 = sn_fire StartChanges (s1\<lparr>sn_txDriver := src, sn_newFather := nf_father msg\<rparr>);
            s3 = s2\<lparr>sn_tx := nf_tx msg, sn_state := CHANGE_FATHER\<rparr>
        in Some (sn_send src (MAck (mk_ack (sn_tx s3))) s3))
     else Some (sn_send src (MNack (mk_nack (nf_tx msg))) s))"

text \<open>\<open>update_first P f\<close> changes the first entry that satisfies \<open>P\<close>, the one a loop with an
  early exit reaches.\<close>

fun update_first :: "('a \<Rightarrow> bool) \<Rightarrow> ('a \<Rightarrow> 'a) \<Rightarrow> 'a list \<Rightarrow> 'a list" where
  "update_first P f [] = []"
| "update_first P f (x # xs) = (if P x then f x # xs else x # update_first P f xs)"

definition divide_child :: "64 word \<Rightarrow> tzone \<Rightarrow> tzone" where
  "divide_child q t =
    (let (newer, t') = test_and_set q t
     in if \<not> newer then t' else set_zone None (set_link (tz_link t') t'))"

definition handle_newchild :: "addr \<Rightarrow> newchild_msg \<Rightarrow> bool \<Rightarrow> 'i snode \<Rightarrow> 'i snode option" where
  "handle_newchild src msg self s =
    (if sn_tx s \<noteq> null_tx then Some (sn_delay src (MNewChild msg) s)
     else if \<not> nch_replace msg \<and> unat (2 * sn_m s) \<le> length (sn_subZones s)
       then Some (sn_delay src (MNewChild msg) s)
     else if find (\<lambda>t. src = tz_link t) (sn_subZones s) = None then Some s
     else
       (let s1 = (sn_fire StartChanges s)\<lparr>sn_tx := nch_tx msg, sn_txDriver := src\<rparr>;
            zs = (if nch_replace msg
              then update_first (\<lambda>t. src = tz_link t)
                (\<lambda>t. set_zone None (set_link (nch_child msg) t)) (sn_subZones s1)
              else set_link (nch_child msg) tz_default #
                update_first (\<lambda>t. src = tz_link t) (divide_child (nch_seq msg)) (sn_subZones s1));
            s2 = s1\<lparr>sn_subZones := sort_zones zs\<rparr>
        in Some ((sn_send src (MAck (mk_ack (sn_tx s2))) s2)\<lparr>sn_state := ADD_CHILD\<rparr>)))"

section \<open>Delayed messages\<close>

definition handle_delayed_msg :: "addr \<Rightarrow> 'i msg \<Rightarrow> 'i snode \<Rightarrow> 'i snode option" where
  "handle_delayed_msg src m s =
    (case m of
       MInsert im \<Rightarrow> handle_insert src im True s
     | MNeeded nm \<Rightarrow> handle_needed src nm True s
     | MNewFather fm \<Rightarrow> handle_newfather src fm True s
     | MNewChild cm \<Rightarrow> handle_newchild src cm True s
     | _ \<Rightarrow> Some s)"

fun delayed_loop :: "nat \<Rightarrow> 'i snode \<Rightarrow> 'i snode option" where
  "delayed_loop 0 s = Some s"
| "delayed_loop (Suc n) s =
    (if sn_tx s = null_tx then
       (case sn_delayed s of
          [] \<Rightarrow> None
        | (src, m) # rest \<Rightarrow> do {
            s' \<leftarrow> handle_delayed_msg src m (s\<lparr>sn_delayed := rest\<rparr>);
            delayed_loop n s'
          })
     else Some s)"

definition handle_delayed_msgs :: "'i snode \<Rightarrow> 'i snode option" where
  "handle_delayed_msgs s = delayed_loop (length (sn_delayed s)) s"

section \<open>Commit\<close>

fun send_commits :: "txid \<Rightarrow> member list \<Rightarrow> 'i comm \<Rightarrow> 'i comm" where
  "send_commits t [] c = c"
| "send_commits t ((a, rn) # ms) c =
    send_commits t ms (send_message a (MCommit ((mk_commit t)\<lparr>commit_forRN := rn\<rparr>)) c)"

definition commit_zones :: "tzone list \<Rightarrow> tzone list" where
  "commit_zones ts = sort_zones (map tz_commit (filter (\<lambda>t. \<not> is_deletion t) ts))"

text \<open>The part of \<open>commit\<close> up to the end of the transaction.\<close>

definition commit_changes :: "'i snode \<Rightarrow> 'i snode" where
  "commit_changes s =
    (let s1 = (if sn_txDriver s = sn_local s
               then s\<lparr>sn_ack := [],
                      sn_comm := send_commits (sn_tx s) (remdups_adj (sn_ack s)) (sn_comm s)\<rparr>
               else s);
         s2 = s1\<lparr>sn_subZones := commit_zones (sn_subZones s1)\<rparr>;
         s3 = (if sn_newFather s2 \<noteq> null_addr
               then s2\<lparr>sn_father := sn_newFather s2, sn_seq := 1, sn_newFather := null_addr,
                       sn_notified := None\<rparr>
               else s2);
         s4 = (sn_fire (CommitChanges True True True) s3)\<lparr>sn_ack := [], sn_tx := null_tx\<rparr>
     in if sn_state s4 = WAIT_STR then sn_cancel s4 else s4)"

text \<open>What \<open>commit\<close> and the update handler do once the aggregated zone is known.\<close>

definition after_change :: "txid \<Rightarrow> 'i snode \<Rightarrow> 'i snode option" where
  "after_change tid s =
    (case sn_subZones s of
       [] \<Rightarrow> None
     | f # _ \<Rightarrow> do {
         s1 \<leftarrow> (if has_zone f then notify_father tid s else Some s);
         s2 \<leftarrow> handle_delayed_msgs s1;
         check_fanout s2
       })"

definition sn_commit :: "'i snode \<Rightarrow> 'i snode option" where
  "sn_commit s =
    (let tid = sn_tx s; s1 = commit_changes s
     in if sn_state s1 = LEAVING
        then Some (sn_fire (AvailabilityChanged True) (s1\<lparr>sn_state := OFFLINE\<rparr>))
        else do {
          s2 \<leftarrow> recompute_zone (s1\<lparr>sn_state := ONLINE\<rparr>);
          (if sn_state s2 = ONLINE \<and> sn_zone s2 \<noteq> None then after_change tid s2 else Some s2)
        })"

section \<open>The other handlers\<close>

definition handle_update :: "addr \<Rightarrow> update_msg \<Rightarrow> 'i snode \<Rightarrow> 'i snode option" where
  "handle_update src msg s =
    (case find (\<lambda>t. comes_from t src) (sn_subZones s) of
       None \<Rightarrow> Some s
     | Some t \<Rightarrow>
        (if \<not> fst (test_and_set (upd_seq msg) t) then Some s
         else do {
           s1 \<leftarrow> recompute_zone (s\<lparr>sn_subZones := sort_zones
             (update_first (\<lambda>t. comes_from t src)
               (\<lambda>t. set_zone_from src (Some (upd_zone msg)) (snd (test_and_set (upd_seq msg) t)))
               (sn_subZones s))\<rparr>);
           (if sn_tx s1 = null_tx \<and> sn_zone s1 \<noteq> None then after_change (upd_tx msg) s1
            else Some s1)
         }))"

definition handle_init :: "addr \<Rightarrow> init_msg \<Rightarrow> 'i snode \<Rightarrow> 'i snode option" where
  "handle_init src msg s =
    (if sn_tx s = init_tx msg \<and> sn_state s = START_IN then
       Some ((sn_send src (MAck (mk_ack (sn_tx s)))
         (s\<lparr>sn_newFather := (if init_fatherValid msg then init_father msg else null_addr),
            sn_level := init_level msg,
            sn_subZones := sn_subZones s @ map (\<lambda>c. set_link c tz_default) (init_children msg)\<rparr>))
         \<lparr>sn_state := INIT\<rparr>)
     else Some (sn_send src (MNack (mk_nack (init_tx msg))) s))"

text \<open>
  Sending one child to the new brother, in the two loops of \<open>handle(NewStrNodeMsg)\<close>: its link
  is recorded in the message for the brother, it is marked as a deletion, told its new father
  and awaited as a member of the transaction.
\<close>

definition move_child :: "addr \<Rightarrow> nat \<Rightarrow> init_msg \<times> 'i snode \<Rightarrow> init_msg \<times> 'i snode" where
  "move_child brother k = (\<lambda>(im, s).
    (let t = sn_subZones s ! k;
         nfm = mk_newfather\<lparr>nf_tx := sn_tx s, nf_father := brother, nf_forRN := (sn_level s = 0)\<rparr>
     in (init_addChild (tz_link t) im,
         sn_send (tz_link t) (MNewFather nfm)
           (s\<lparr>sn_subZones := (sn_subZones s)[k := reset_link t],
              sn_noAck := sn_noAck s @ [(tz_link t, nf_forRN nfm)]\<rparr>))))"

definition move_children :: "addr \<Rightarrow> nat list \<Rightarrow> init_msg \<times> 'i snode \<Rightarrow> init_msg \<times> 'i snode" where
  "move_children brother ks x = fold (move_child brother) ks x"

text \<open>The message to the father about the new brother (\<open>replaces\<close> tells which of the two uses).\<close>

definition tell_father :: "addr \<Rightarrow> bool \<Rightarrow> 'i snode \<Rightarrow> 'i snode" where
  "tell_father brother repl s =
    sn_send (sn_father s)
      (MNewChild (mk_newchild\<lparr>nch_tx := sn_tx s, nch_child := brother, nch_seq := sn_seq s,
         nch_replace := repl\<rparr>))
      (s\<lparr>sn_seq := sn_seq s + 1, sn_noAck := sn_noAck s @ [(sn_father s, False)]\<rparr>)"

definition finish_split :: "addr \<Rightarrow> sn_status \<Rightarrow> init_msg \<times> 'i snode \<Rightarrow> 'i snode" where
  "finish_split brother st = (\<lambda>(im, s).
     (sn_send brother (MInit im) (s\<lparr>sn_noAck := sn_noAck s @ [(brother, False)]\<rparr>))
       \<lparr>sn_state := st\<rparr>)"

definition split_with :: "addr \<Rightarrow> 'i snode \<Rightarrow> 'i snode option" where
  "split_with who s =
    (let s1 = s\<lparr>sn_newBrother := who\<rparr>;
         im = mk_init\<lparr>init_tx := sn_tx s1, init_level := sn_level s1\<rparr>;
         x = (if sn_father s1 = null_addr \<and> sn_newFather s1 \<noteq> null_addr
              then (init_setFather (sn_newFather s1) im,
                    sn_send (sn_newFather s1)
                      (MInit ((init_addChild who (init_addChild (sn_local s1)
                         (mk_init\<lparr>init_tx := sn_tx s1\<rparr>)))\<lparr>init_level := sn_level s1 + 1\<rparr>)) s1)
              else (init_setFather (sn_father s1) im, tell_father who False s1))
     in if list_all has_zone (sn_subZones s) \<or> length (sn_subZones s) < 2
        then Some (finish_split who SPLITTING
          (move_children who (split_moved (map (the \<circ> tz_zone) (sn_subZones s))) x))
        else None)"

definition leave_to :: "addr \<Rightarrow> 'i snode \<Rightarrow> 'i snode" where
  "leave_to who s =
    (let s1 = s\<lparr>sn_newBrother := who\<rparr>;
         im = mk_init\<lparr>init_tx := sn_tx s1, init_level := sn_level s1\<rparr>;
         x = (if sn_father s1 \<noteq> null_addr
              then (init_setFather (sn_father s1) im, tell_father who True s1)
              else (im, s1))
     in finish_split who LEAVING (move_children who [0..<length (sn_subZones s)] x))"

definition handle_newstr :: "addr \<Rightarrow> newstr_msg \<Rightarrow> 'i snode \<Rightarrow> 'i snode option" where
  "handle_newstr src msg s =
    (if sn_tx s = ns_tx msg \<and> sn_state s = WAIT_STR then
       (let s1 = sn_fire StartChanges (sn_cancel s)
        in if sn_father s1 = null_addr \<and> sn_newFather s1 = null_addr
           then Some (sn_ask_node (s1\<lparr>sn_newFather := ns_whoOffers msg,
               sn_noAck := sn_noAck s1 @ [(ns_whoOffers msg, False)]\<rparr>))
           else split_with (ns_whoOffers msg) s1)
     else if sn_tx s = ns_tx msg \<and> sn_state s = LEAVING_WSN
       then Some (leave_to (ns_whoOffers msg) (sn_cancel s))
     else Some (sn_send src (MRollback (mk_rollback (ns_tx msg))) s))"

definition ack_member :: "member \<Rightarrow> 'i snode \<Rightarrow> 'i snode" where
  "ack_member mb s =
    (if mb \<in> set (sn_noAck s)
     then s\<lparr>sn_ack := (if mb \<in> set (sn_ack s) then sn_ack s else sn_ack s @ [mb]),
            sn_noAck := remove1 mb (sn_noAck s)\<rparr>
     else s)"

definition handle_ack :: "addr \<Rightarrow> ack_msg \<Rightarrow> 'i snode \<Rightarrow> 'i snode option" where
  "handle_ack src msg s =
    (if ack_forRN msg then Some s
     else if sn_tx s = ack_tx msg \<and> sn_txDriver s = sn_local s then
       (let s1 = ack_member (src, ack_fromRN msg) s
        in if sn_noAck s1 = [] then sn_commit s1 else Some s1)
     else Some (sn_send src
       (MRollback ((mk_rollback (ack_tx msg))\<lparr>rollback_forRN := ack_fromRN msg\<rparr>)) s))"

text \<open>What follows a rollback in the two handlers below.\<close>

definition resume_online :: "'i snode \<Rightarrow> 'i snode option" where
  "resume_online s =
    (if sn_state s = ONLINE \<and> sn_zone s \<noteq> None
     then do { s1 \<leftarrow> handle_delayed_msgs s; check_fanout s1 }
     else Some s)"

definition handle_nack :: "addr \<Rightarrow> nack_msg \<Rightarrow> 'i snode \<Rightarrow> 'i snode option" where
  "handle_nack src msg s =
    (if nack_forRN msg then Some s
     else if sn_tx s = nack_tx msg \<and> sn_txDriver s = sn_local s then resume_online (sn_rollback s)
     else Some s)"

definition handle_commit :: "addr \<Rightarrow> commit_msg \<Rightarrow> 'i snode \<Rightarrow> 'i snode option" where
  "handle_commit src msg s =
    (if commit_forRN msg then Some s
     else if commit_tx msg = sn_tx s then sn_commit s
     else Some s)"

definition handle_rollback :: "addr \<Rightarrow> rollback_msg \<Rightarrow> 'i snode \<Rightarrow> 'i snode option" where
  "handle_rollback src msg s =
    (if rollback_forRN msg then Some s
     else if rollback_tx msg = sn_tx s \<and> sn_txDriver s = src then resume_online (sn_rollback s)
     else Some s)"

definition sn_receive :: "'i snode \<Rightarrow> addr \<Rightarrow> 'i msg \<Rightarrow> (bool \<times> 'i snode) option" where
  "sn_receive s src m =
    (case m of
       MInit im \<Rightarrow> map_option (Pair True) (handle_init src im s)
     | MUpdate um \<Rightarrow> map_option (Pair True) (handle_update src um s)
     | MInsert im \<Rightarrow> map_option (Pair True) (handle_insert src im False s)
     | MNeeded nm \<Rightarrow> map_option (Pair True) (handle_needed src nm False s)
     | MNewStr nm \<Rightarrow> map_option (Pair True) (handle_newstr src nm s)
     | MNewFather fm \<Rightarrow> map_option (Pair True) (handle_newfather src fm False s)
     | MNewChild cm \<Rightarrow> map_option (Pair True) (handle_newchild src cm False s)
     | MAck am \<Rightarrow> map_option (Pair True) (handle_ack src am s)
     | MCommit cm \<Rightarrow> map_option (Pair True) (handle_commit src cm s)
     | MNack nm \<Rightarrow> map_option (Pair True) (handle_nack src nm s)
     | MRollback rm \<Rightarrow> map_option (Pair True) (handle_rollback src rm s)
     | _ \<Rightarrow> Some (False, s))"

end
