(* ===== verification/Structure_Frames.thy ===== *)
theory Structure_Frames
  imports Structure_Node
begin

text \<open>
  What no handler of a structure node changes outside the end of a transaction: the committed
  links of the children and the father, the minimum fanout and the address of the host; and
  the traffic of commit messages, which only \<open>commit\<close> adds to.
\<close>

section \<open>Generic helpers\<close>

lemma find_Some_set: "find P xs = Some x \<Longrightarrow> x \<in> set xs \<and> P x"
  by (auto simp: find_Some_iff)

lemma map_update_first:
  "(\<And>x. P x \<Longrightarrow> g (f x) = g x) \<Longrightarrow> map g (update_first P f xs) = map g xs"
  by (induction xs) auto

lemma length_update_first [simp]: "length (update_first P f xs) = length xs"
  by (induction xs) auto

lemma opt_post_map [simp]: "opt_post P (map_option f r) = opt_post (\<lambda>x. P (f x)) r"
  by (cases r) (simp_all add: opt_post_def)

section \<open>Committed links\<close>

definition committed_links :: "tzone list \<Rightarrow> addr multiset" where
  "committed_links ts = filter_mset (\<lambda>a. a \<noteq> null_addr) (image_mset tz_link (mset ts))"

lemma committed_links_simps [simp]:
  "committed_links [] = {#}"
  "committed_links (t # ts) =
    (if tz_link t = null_addr then committed_links ts else add_mset (tz_link t) (committed_links ts))"
  "committed_links (ts @ us) = committed_links ts + committed_links us"
  "committed_links (sort_zones ts) = committed_links ts"
  by (simp_all add: committed_links_def)

lemma committed_links_map:
  "map tz_link ts = map tz_link us \<Longrightarrow> committed_links ts = committed_links us"
  by (metis committed_links_def mset_map)

lemma committed_links_update_first:
  "(\<And>t. P t \<Longrightarrow> tz_link (f t) = tz_link t) \<Longrightarrow>
   committed_links (update_first P f ts) = committed_links ts"
  by (rule committed_links_map) (rule map_update_first)

lemma committed_links_list_update:
  "tz_link t = tz_link (ts ! k) \<Longrightarrow> committed_links (ts[k := t]) = committed_links ts"
  by (rule committed_links_map) (metis list_update_id map_update)

lemma committed_links_rollback [simp]: "committed_links (rollback_zones ts) = committed_links ts"
  by (induction ts) (auto simp: rollback_zones_def is_addition_def)

lemma committed_links_additions [simp]:
  "committed_links (map (\<lambda>c. set_link c tz_default) cs) = {#}"
  by (induction cs) (auto simp: tz_default_def)

lemma tz_link_divide [simp]: "tz_link (divide_child q t) = tz_link t"
  by (simp add: divide_child_def test_and_set_def set_zone_def Let_def)

lemma tz_link_small [simp]:
  "tz_link (set_zone i t) = tz_link t" "tz_link (dec_avail t) = tz_link t"
  "tz_link (reset_link t) = tz_link t" "tz_link (snd (test_and_set q t)) = tz_link t"
  by (simp_all add: set_zone_def dec_avail_def reset_link_def test_and_set_def Let_def)

section \<open>Commit messages\<close>

definition is_commit :: "'i msg \<Rightarrow> bool" where
  "is_commit m = (case m of MCommit _ \<Rightarrow> True | _ \<Rightarrow> False)"

lemma is_commit_simps [simp]:
  "is_commit (MCommit cm)" "\<not> is_commit (MAck am)" "\<not> is_commit (MNack nm)"
  "\<not> is_commit (MRollback rm)" "\<not> is_commit (MInsert im)" "\<not> is_commit (MInit itm)"
  "\<not> is_commit (MNewChild nc)" "\<not> is_commit (MNewFather nf)" "\<not> is_commit (MNeeded ne)"
  "\<not> is_commit (MNewStr ns)" "\<not> is_commit (MUpdate um)"
  by (simp_all add: is_commit_def)

text \<open>The commit messages among the traffic of a host.\<close>

definition commit_traffic :: "'i comm \<Rightarrow> (addr \<times> 'i msg) multiset" where
  "commit_traffic c = filter_mset (\<lambda>x. is_commit (snd x)) (traffic c)"

lemma commit_traffic_simps [simp]:
  "commit_traffic (send_message a m c) =
    (if is_commit m then add_mset (a, m) (commit_traffic c) else commit_traffic c)"
  "commit_traffic (cancel_timer i c) = commit_traffic c"
  "commit_traffic (snd (create_random_id c)) = commit_traffic c"
  "commit_traffic (c\<lparr>c_drawn := n\<rparr>) = commit_traffic c"
  by (simp_all add: commit_traffic_def traffic_def create_random_id_def)
    (simp_all add: send_message_def enqueue_message_def cancel_timer_def)

lemma commit_traffic_ask [simp]:
  "commit_traffic (sn_comm (sn_ask_node s)) = commit_traffic (sn_comm s)"
  by (simp add: commit_traffic_def)

text \<open>What the steps below keep: committed links, father, host, fanout, commit messages.\<close>

definition same_place :: "'i snode \<Rightarrow> 'i snode \<Rightarrow> bool" where
  "same_place s s' \<longleftrightarrow> committed_links (sn_subZones s') = committed_links (sn_subZones s)
     \<and> sn_father s' = sn_father s \<and> sn_local s' = sn_local s \<and> sn_m s' = sn_m s
     \<and> commit_traffic (sn_comm s') = commit_traffic (sn_comm s)"

lemma same_place_refl [simp]: "same_place s s"
  by (simp add: same_place_def)

lemma same_place_trans: "same_place s t \<Longrightarrow> same_place t u \<Longrightarrow> same_place s u"
  by (simp add: same_place_def)

lemma send_rollbacks_frame [simp]:
  "c_local (send_rollbacks t ms c) = c_local c" "c_now (send_rollbacks t ms c) = c_now c"
  "commit_traffic (send_rollbacks t ms c) = commit_traffic c"
  by (induction t ms c rule: send_rollbacks.induct) simp_all

lemma send_commits_frame [simp]:
  "c_local (send_commits t ms c) = c_local c" "c_now (send_commits t ms c) = c_now c"
  "commit_traffic (send_commits t ms c) = commit_traffic c +
    mset (map (\<lambda>(a, rn). (a, MCommit ((mk_commit t)\<lparr>commit_forRN := rn\<rparr>))) ms)"
  by (induction t ms c rule: send_commits.induct) simp_all

lemma same_place_insert: "opt_post (same_place s) (handle_insert src m self s)"
  unfolding handle_insert_def Let_def
  by (intro opt_intro) (simp_all add: same_place_def tz_default_def)

lemma same_place_needed: "opt_post (same_place s) (handle_needed src m self s)"
  unfolding handle_needed_def Let_def
  by (intro opt_intro) (simp_all add: same_place_def committed_links_list_update)

lemma same_place_sn_rollback: "same_place s (sn_rollback s)"
  by (simp add: sn_rollback_def same_place_def Let_def)

lemma same_place_newfather: "opt_post (same_place s) (handle_newfather src m self s)"
  using same_place_sn_rollback [of s]
  unfolding handle_newfather_def Let_def by (intro opt_intro) (simp_all add: same_place_def)

lemma same_place_newchild: "opt_post (same_place s) (handle_newchild src m self s)"
  unfolding handle_newchild_def Let_def
  by (intro opt_intro) (simp_all add: same_place_def tz_default_def committed_links_update_first)

lemma same_place_delayed_msg: "opt_post (same_place s) (handle_delayed_msg src m s)"
  by (auto simp: handle_delayed_msg_def same_place_insert same_place_needed
      same_place_newfather same_place_newchild opt_some split: msg.split)

lemma same_place_drop [simp]: "same_place (s\<lparr>sn_delayed := d\<rparr>) t = same_place s t"
  by (simp add: same_place_def)

lemma same_place_delayed_loop: "opt_post (same_place s) (delayed_loop n s)"
proof (induction n arbitrary: s)
  case 0
  then show ?case by (simp add: opt_some)
next
  case (Suc n)
  have step: "opt_post (same_place s) (delayed_loop n s')"
    if "handle_delayed_msg src m (s\<lparr>sn_delayed := rest\<rparr>) = Some s'" for src m rest s'
  proof -
    have "same_place s s'" using opt_postD [OF same_place_delayed_msg that] by simp
    then show ?thesis by (rule opt_mono [OF Suc same_place_trans])
  qed
  show ?case
    by (simp only: delayed_loop.simps) (intro opt_intro same_place_refl step; assumption)
qed

lemma same_place_check_fanout: "opt_post (same_place s) (check_fanout s)"
  unfolding check_fanout_def Let_def
  by (intro opt_intro) (simp_all add: same_place_def create_random_id_def)

lemma same_place_notify: "opt_post (same_place s) (notify_father t s)"
  unfolding notify_father_def by (intro opt_intro) (simp_all add: same_place_def)

lemma opt_post_trans:
  assumes "opt_post (same_place s) r"
    and "\<And>t. same_place s t \<Longrightarrow> opt_post (same_place t) (f t)"
  shows "opt_post (same_place s) (Option.bind r f)"
proof (rule opt_bind)
  fix t assume "r = Some t"
  then have st: "same_place s t" by (rule opt_postD [OF assms(1)])
  show "opt_post (same_place s) (f t)"
    by (rule opt_mono [OF assms(2) [OF st] same_place_trans [OF st]])
qed

lemma same_place_after_change: "opt_post (same_place s) (after_change t s)"
  unfolding after_change_def handle_delayed_msgs_def
  by (intro opt_case_list opt_none opt_post_trans same_place_delayed_loop same_place_check_fanout
      opt_if same_place_notify opt_some same_place_refl)

lemma same_place_recompute: "opt_post (same_place s) (recompute_zone s)"
  by (rule opt_postI) (simp add: same_place_def recompute_zone_fields)

lemma same_place_update: "opt_post (same_place s) (handle_update src m s)"
proof -
  have moved: "opt_post (same_place s) r \<longleftrightarrow> opt_post (same_place (s\<lparr>sn_subZones :=
      sort_zones (update_first (\<lambda>t. comes_from t src) (\<lambda>t. set_zone_from src (Some (upd_zone m))
        (snd (test_and_set (upd_seq m) t))) (sn_subZones s))\<rparr>)) r" for r
    by (simp add: opt_post_def same_place_def committed_links_update_first split: option.splits)
  show ?thesis
    unfolding handle_update_def
    by (intro opt_case_option opt_if opt_some same_place_refl)
      (subst moved, intro opt_post_trans same_place_recompute opt_if same_place_after_change
        opt_some same_place_refl)
qed

lemma same_place_init: "opt_post (same_place s) (handle_init src m s)"
  unfolding handle_init_def by (intro opt_intro) (simp_all add: same_place_def)

lemma same_place_move_children: "same_place s (snd (move_children b ks (im, s)))"
proof (induction ks arbitrary: im s)
  case Nil
  then show ?case by (simp add: move_children_def)
next
  case (Cons k ks)
  have "same_place s (snd (move_child b k (im, s)))"
    by (simp add: move_child_def same_place_def Let_def committed_links_list_update)
  then show ?case
    using Cons [of "snd (move_child b k (im, s))" "fst (move_child b k (im, s))"]
    by (simp add: move_children_def) (rule same_place_trans)
qed

lemma same_place_finish: "same_place s (finish_split b st (im, s))"
  by (simp add: finish_split_def same_place_def)

lemma same_place_finish_move:
  "same_place s t \<Longrightarrow> same_place s (finish_split b st (move_children b ks (im, t)))"
  using same_place_move_children [of t b ks im]
    same_place_finish [of "snd (move_children b ks (im, t))" b st "fst (move_children b ks (im, t))"]
  by (metis prod.collapse same_place_trans)

lemma same_place_split_with: "opt_post (same_place s) (split_with who s)"
proof -
  let ?s1 = "s\<lparr>sn_newBrother := who\<rparr>"
  have "same_place s (sn_send a (MInit im) ?s1)" "same_place s (tell_father who False ?s1)" for a im
    by (simp_all add: same_place_def tell_father_def)
  then show ?thesis
    unfolding split_with_def Let_def
    by (intro opt_if opt_some opt_none) (simp add: same_place_finish_move split: if_split)
qed

lemma same_place_leave_to: "same_place s (leave_to who s)"
proof -
  have "same_place s (s\<lparr>sn_newBrother := who\<rparr>)"
    "same_place s (tell_father who True (s\<lparr>sn_newBrother := who\<rparr>))"
    by (simp_all add: same_place_def tell_father_def)
  then show ?thesis
    unfolding leave_to_def Let_def by (simp add: same_place_finish_move)
qed

lemma same_place_begin [simp]:
  "same_place (sn_fire e s) t = same_place s t" "same_place (sn_cancel s) t = same_place s t"
  by (simp_all add: same_place_def)

lemma opt_post_same_place:
  "opt_post (same_place (sn_fire e s)) r = opt_post (same_place s) r"
  "opt_post (same_place (sn_cancel s)) r = opt_post (same_place s) r"
  by (cases r; simp add: opt_post_def)+

lemma same_place_newstr: "opt_post (same_place s) (handle_newstr src m s)"
  using same_place_split_with [of "sn_fire StartChanges (sn_cancel s)" "ns_whoOffers m"]
    same_place_leave_to [of "sn_cancel s" "ns_whoOffers m"]
  unfolding handle_newstr_def Let_def
  by (intro opt_if opt_some) (simp_all add: opt_post_same_place, simp_all add: same_place_def)

lemma same_place_resume: "opt_post (same_place s) (resume_online s)"
  unfolding resume_online_def handle_delayed_msgs_def
  by (intro opt_if opt_post_trans same_place_delayed_loop same_place_check_fanout opt_some
      same_place_refl)

lemma same_place_resume_rollback: "opt_post (same_place s) (resume_online (sn_rollback s))"
  using opt_mono [OF same_place_resume] same_place_sn_rollback same_place_trans by metis

text \<open>The message that ends a transaction by a commit.\<close>

definition commits_now :: "addr \<Rightarrow> 'i msg \<Rightarrow> 'i snode \<Rightarrow> bool" where
  "commits_now src m s \<longleftrightarrow>
    (case m of
       MCommit cm \<Rightarrow> \<not> commit_forRN cm \<and> commit_tx cm = sn_tx s
     | MAck am \<Rightarrow> \<not> ack_forRN am \<and> ack_tx am = sn_tx s \<and> sn_txDriver s = sn_local s
         \<and> remove1 (src, ack_fromRN am) (sn_noAck s) = []
     | _ \<Rightarrow> False)"

lemma ack_member_simps [simp]:
  "sn_noAck (ack_member mb s) = remove1 mb (sn_noAck s)"
  "sn_subZones (ack_member mb s) = sn_subZones s" "sn_father (ack_member mb s) = sn_father s"
  "sn_comm (ack_member mb s) = sn_comm s" "sn_m (ack_member mb s) = sn_m s"
  "sn_tx (ack_member mb s) = sn_tx s" "sn_txDriver (ack_member mb s) = sn_txDriver s"
  "sn_delayed (ack_member mb s) = sn_delayed s" "sn_state (ack_member mb s) = sn_state s"
  "sn_newFather (ack_member mb s) = sn_newFather s"
  by (auto simp: ack_member_def remove1_idem)

lemma same_place_ack:
  assumes "\<not> commits_now src (MAck m :: 'i msg) s"
  shows "opt_post (same_place (s :: 'i snode)) (handle_ack src m s)"
  using assms unfolding handle_ack_def Let_def commits_now_def
  by (intro opt_intro) (simp_all add: same_place_def)

lemma quiet_unless_commit:
  assumes "sn_receive s src m = Some (b, s')" and "\<not> commits_now src m s"
  shows "same_place s s'"
proof -
  have "opt_post (\<lambda>x. same_place s (snd x)) (sn_receive s src m)"
    using assms(2) unfolding sn_receive_def handle_commit_def handle_nack_def handle_rollback_def
    by (cases m) (auto simp: same_place_insert same_place_needed same_place_newfather
        same_place_newchild same_place_update same_place_init same_place_newstr
        same_place_resume_rollback same_place_ack commits_now_def [of _ "MCommit _"]
        intro: opt_some opt_none)
  from opt_postD [OF this assms(1)] show ?thesis by simp
qed

text \<open>
  C2. Isolation of transactions: whatever message arrives, in whatever state, the committed
  links of the children and the father of the node change only when the message makes the node
  commit; every other message, delayed ones included, leaves them as they were.
\<close>

theorem receive_isolated:
  assumes "sn_receive s src m = Some (b, s')" and "\<not> commits_now src m s"
  shows "committed_links (sn_subZones s') = committed_links (sn_subZones s)
    \<and> sn_father s' = sn_father s"
  using quiet_unless_commit [OF assms] by (simp add: same_place_def)

text \<open>A node with two children, its father at address 9, in no transaction.\<close>

definition example_child :: "32 word \<Rightarrow> 32 word \<Rightarrow> 32 word \<Rightarrow> tzone" where
  "example_child lo hi free = \<lparr>tz_changing = False, tz_link = Addr lo 2, tz_seq = 0,
     tz_newLink = Addr lo 2,
     tz_zone = Some \<lparr>z_min = Addr lo 1, z_max = Addr hi 1, z_avail = free\<rparr>,
     tz_newZone = None\<rparr>"

definition example_node :: "nat snode" where
  "example_node = (mk_snode 2 example_comm)
     \<lparr>sn_state := ONLINE, sn_father := Addr 9 1, sn_level := 1,
      sn_zone := Some \<lparr>z_min = Addr 1 1, z_max = Addr 6 1, z_avail = 3\<rparr>,
      sn_subZones := [example_child 1 2 1, example_child 5 6 2]\<rparr>"

theorem receive_isolated_witness:
  "sn_father (snd (the (sn_receive example_node (Addr 9 1)
     (MNewFather (mk_newfather\<lparr>nf_tx := 4, nf_father := Addr 8 1\<rparr>))))) = Addr 9 1"
proof -
  let ?m = "MNewFather (mk_newfather\<lparr>nf_tx := 4, nf_father := Addr 8 1\<rparr>) :: nat msg"
  have ok: "sn_receive example_node (Addr 9 1) ?m \<noteq> None"
    by code_simp
  then obtain b s' where r: "sn_receive example_node (Addr 9 1) ?m = Some (b, s')" by auto
  have "\<not> commits_now (Addr 9 1) ?m example_node" by (simp add: commits_now_def)
  from receive_isolated [OF r this] show ?thesis by (simp add: r) (simp add: example_node_def)
qed

end
