(* ===== verification/Structure_Commit.thy ===== *)
theory Structure_Commit
  imports Structure_Frames
begin

text \<open>
  The end of a transaction of a structure node: who is told to commit and when, what a commit
  does to the children and the father, what a rollback gives back, and what it does not.
\<close>

section \<open>Who is told to commit\<close>

text \<open>The members a commit of this node tells: none unless the node drives the transaction.\<close>

definition commit_members :: "addr \<Rightarrow> 'i msg \<Rightarrow> 'i snode \<Rightarrow> member list" where
  "commit_members src m s =
    (if \<not> commits_now src m s \<or> sn_txDriver s \<noteq> sn_local s then []
     else (case m of MAck am \<Rightarrow> remdups_adj (sn_ack (ack_member (src, ack_fromRN am) s))
           | _ \<Rightarrow> remdups_adj (sn_ack s)))"

definition commit_to :: "txid \<Rightarrow> member \<Rightarrow> addr \<times> 'i msg" where
  "commit_to t = (\<lambda>(a, rn). (a, MCommit ((mk_commit t)\<lparr>commit_forRN := rn\<rparr>)))"

lemma commit_changes_traffic:
  "commit_traffic (sn_comm (commit_changes s)) = commit_traffic (sn_comm s) +
    (if sn_txDriver s = sn_local s then mset (map (commit_to (sn_tx s)) (remdups_adj (sn_ack s)))
     else {#})"
  by (simp add: commit_changes_def Let_def commit_to_def)

lemma same_place_traffic: "same_place s t \<Longrightarrow> commit_traffic (sn_comm t) = commit_traffic (sn_comm s)"
  by (simp add: same_place_def)

lemma sn_commit_after:
  "opt_post (same_place (commit_changes s)) (sn_commit s)"
proof -
  have online: "opt_post (same_place (commit_changes s)) r =
    opt_post (same_place ((commit_changes s)\<lparr>sn_state := st\<rparr>)) r" for r st
    by (cases r) (simp_all add: opt_post_def same_place_def)
  show ?thesis
    unfolding sn_commit_def Let_def
    by (intro opt_if opt_some, simp add: same_place_def)
      (subst online [where st = ONLINE], intro opt_post_trans same_place_recompute opt_if same_place_after_change
        opt_some same_place_refl)
qed

lemma sn_commit_traffic:
  "opt_post (\<lambda>s'. commit_traffic (sn_comm s') = commit_traffic (sn_comm s) +
    (if sn_txDriver s = sn_local s then mset (map (commit_to (sn_tx s)) (remdups_adj (sn_ack s)))
     else {#})) (sn_commit s)"
  by (rule opt_mono [OF sn_commit_after])
    (simp add: same_place_traffic commit_changes_traffic)



section \<open>What a commit does\<close>

definition committed_zone :: "tzone \<Rightarrow> addr \<times> zone option" where
  "committed_zone t = (if tz_changing t then (tz_newLink t, tz_newZone t) else (tz_link t, tz_zone t))"

lemma commit_changes_fields [simp]:
  "sn_subZones (commit_changes s) = commit_zones (sn_subZones s)"
  "sn_tx (commit_changes s) = null_tx" "sn_newFather (commit_changes s) = null_addr"
  "sn_father (commit_changes s) =
    (if sn_newFather s = null_addr then sn_father s else sn_newFather s)"
  "sn_state (commit_changes s) = sn_state s" "sn_delayed (commit_changes s) = sn_delayed s"
  by (simp_all add: commit_changes_def Let_def)

text \<open>
  C6. A commit applies every pending change of the children at once: entries marked for deletion
  go, every other changing entry takes its new link and zone, the rest keep theirs, no entry
  is left changing, the children are in order again; the pending father, if there is one,
  becomes the father.
\<close>

theorem commit_applies:
  "let s' = commit_changes s
   in image_mset (\<lambda>t. (tz_link t, tz_zone t)) (mset (sn_subZones s')) =
        image_mset committed_zone (filter_mset (\<lambda>t. \<not> is_deletion t) (mset (sn_subZones s)))
      \<and> list_all (\<lambda>t. \<not> tz_changing t) (sn_subZones s')
      \<and> sorted_wrt zone_le (sn_subZones s')
      \<and> sn_father s' = (if sn_newFather s = null_addr then sn_father s else sn_newFather s)
      \<and> sn_tx s' = null_tx"
proof -
  have "(tz_link (tz_commit t), tz_zone (tz_commit t)) = committed_zone t" for t
    by (simp add: tz_commit_def committed_zone_def)
  then have "image_mset (\<lambda>t. (tz_link t, tz_zone t)) (mset (commit_zones ts)) =
      image_mset committed_zone (filter_mset (\<lambda>t. \<not> is_deletion t) (mset ts))" for ts
    by (simp add: commit_zones_def multiset.map_comp comp_def)
  moreover have "list_all (\<lambda>t. \<not> tz_changing t) (commit_zones ts)" for ts
    by (simp add: commit_zones_def list_all_iff)
  moreover have "sorted_wrt zone_le (commit_zones ts)" for ts
    by (simp add: commit_zones_def sort_zones_ordered)
  ultimately show ?thesis by (simp add: Let_def)
qed

section \<open>What a rollback gives back\<close>

lemma rollback_zones_undo:
  "list_all (\<lambda>t. tz_changing t \<longrightarrow> is_addition t \<or> is_deletion t) ts \<Longrightarrow>
   map (\<lambda>t. (tz_link t, tz_zone t)) (rollback_zones ts) =
     map (\<lambda>t. (tz_link t, tz_zone t)) (filter (\<lambda>t. \<not> is_addition t) ts)
   \<and> list_all (\<lambda>t. \<not> tz_changing t) (rollback_zones ts)"
  by (induction ts) (auto simp: rollback_zones_def is_addition_def is_deletion_def)

lemma sn_rollback_fields [simp]:
  "sn_subZones (sn_rollback s) = rollback_zones (sn_subZones s)"
  "sn_tx (sn_rollback s) = null_tx" "sn_newFather (sn_rollback s) = null_addr"
  "sn_father (sn_rollback s) = sn_father s" "sn_delayed (sn_rollback s) = sn_delayed s"
  "sn_m (sn_rollback s) = sn_m s" "sn_local (sn_rollback s) = sn_local s"
  "sn_txDriver (sn_rollback s) = sn_txDriver s"
  "sn_zone (sn_rollback s) = sn_zone s"
  "sn_state (sn_rollback s) = (if sn_state s = START_IN \<or> sn_state s = INIT then OFFLINE else ONLINE)"
  by (simp_all add: sn_rollback_def Let_def)

text \<open>
  C7. A rollback undoes a transaction that only added and removed children: the children that
  were there are back, in their order, with their links and zones; the additions are gone,
  nothing is left changing, and neither a transaction nor a new father is pending.
\<close>

theorem rollback_undoes:
  assumes "list_all (\<lambda>t. tz_changing t \<longrightarrow> is_addition t \<or> is_deletion t) (sn_subZones s)"
  shows "map (\<lambda>t. (tz_link t, tz_zone t)) (sn_subZones (sn_rollback s)) =
      map (\<lambda>t. (tz_link t, tz_zone t)) (filter (\<lambda>t. \<not> is_addition t) (sn_subZones s))
    \<and> list_all (\<lambda>t. \<not> tz_changing t) (sn_subZones (sn_rollback s))
    \<and> sn_father (sn_rollback s) = sn_father s
    \<and> sn_newFather (sn_rollback s) = null_addr \<and> sn_tx (sn_rollback s) = null_tx"
  using rollback_zones_undo [OF assms] by simp

theorem rollback_undoes_witness:
  "let s = example_node\<lparr>sn_tx := 4, sn_subZones :=
         [set_link (Addr 7 2) tz_default, reset_link (example_child 1 2 1), example_child 5 6 2]\<rparr>
   in map tz_link (sn_subZones (sn_rollback s)) = [Addr 1 2, Addr 5 2]
      \<and> list_all (\<lambda>t. \<not> tz_changing t) (sn_subZones (sn_rollback s))"
proof -
  let ?s = "example_node\<lparr>sn_tx := 4, sn_subZones :=
         [set_link (Addr 7 2) tz_default, reset_link (example_child 1 2 1), example_child 5 6 2]\<rparr>"
  have ok: "list_all (\<lambda>t. tz_changing t \<longrightarrow> is_addition t \<or> is_deletion t) (sn_subZones ?s)"
    by code_simp
  have rest: "map (\<lambda>t. (tz_link t, tz_zone t)) (filter (\<lambda>t. \<not> is_addition t) (sn_subZones ?s)) =
      map (\<lambda>t. (tz_link t, tz_zone t)) [reset_link (example_child 1 2 1), example_child 5 6 2]"
    by code_simp
  have "map tz_link (sn_subZones (sn_rollback ?s)) =
      map fst (map (\<lambda>t. (tz_link t, tz_zone t)) (sn_subZones (sn_rollback ?s)))"
    by (simp only: map_map comp_def fst_conv)
  also have "\<dots> =
      map fst (map (\<lambda>t. (tz_link t, tz_zone t)) [reset_link (example_child 1 2 1), example_child 5 6 2])"
    using rollback_undoes [OF ok] rest by (simp only:)
  finally have "map tz_link (sn_subZones (sn_rollback ?s)) = [Addr 1 2, Addr 5 2]"
    by (simp add: example_child_def)
  with rollback_undoes [OF ok] show ?thesis by (simp only: Let_def)
qed

text \<open>
  The node is told by its child that a new brother replaces it, then that the transaction is
  undone; afterwards an unrelated node is inserted, acknowledged and committed.
\<close>

definition replace_then_undo :: "nat snode option" where
  "replace_then_undo = do {
     (b1, s1) \<leftarrow> sn_receive (example_node\<lparr>sn_level := 0\<rparr>) (Addr 1 2) (MNewChild (mk_newchild
       \<lparr>nch_tx := 4, nch_child := Addr 7 2, nch_replace := True\<rparr>));
     (b2, s2) \<leftarrow> sn_receive s1 (Addr 1 2) (MRollback (mk_rollback 4));
     Some s2
   }"

definition insert_then_commit :: "nat snode \<Rightarrow> nat snode option" where
  "insert_then_commit s = do {
     (b1, s1) \<leftarrow> sn_receive s (Addr 3 1) (MInsert (mk_insert
       \<lparr>insert_tx := 5, insert_who := Addr 3 1\<rparr>));
     (b2, s2) \<leftarrow> sn_receive s1 (Addr 3 1) (MCommit (mk_commit 5));
     Some s2
   }"

text \<open>
  A replaced child is not rolled back: the entry stays changing after the rollback, and the
  commit of the next, unrelated transaction puts the refused brother in the place of the child.
\<close>

theorem rollback_forgets_replacement:
  "map_option (\<lambda>s. (sn_state s, sn_tx s, map tz_link (sn_subZones s), map tz_changing (sn_subZones s)))
     replace_then_undo = Some (ONLINE, 0, [Addr 1 2, Addr 5 2], [True, False])
   \<and> map_option (\<lambda>s. (Addr 7 2 \<in> tz_link ` set (sn_subZones s), Addr 1 2 \<in> tz_link ` set (sn_subZones s)))
     (Option.bind replace_then_undo insert_then_commit) = Some (True, False)"
  by code_simp

text \<open>
  A node left without children: the first insertion of a resource node at its own host turns
  an offline node into \<open>ADD_CHILD\<close> and tells the observers that it is not available any more;
  when that transaction is rolled back the node is left online, with no child and no zone,
  and is never announced as available again.
\<close>

theorem first_insert_rollback:
  assumes "sn_state s = OFFLINE" and "sn_tx s = null_tx" and "sn_subZones s = []"
    and "insert_who im = sn_local s" and "sn_local s \<noteq> null_addr" and "insert_tx im \<noteq> null_tx" and "\<not> insert_forRN im"
    and "sn_zone s = None"
    and "rollback_tx rm = insert_tx im" and "\<not> rollback_forRN rm" and "0 < unat (2 * sn_m s)"
  shows "\<exists>s'. Option.bind (sn_receive s src (MInsert im))
      (\<lambda>(b, s1). sn_receive s1 (sn_local s) (MRollback rm)) = Some (True, s')
    \<and> sn_state s' = ONLINE \<and> sn_subZones s' = [] \<and> sn_zone s' = None
    \<and> sn_events s' = sn_events s @
        [StartChanges, AvailabilityChanged False, CommitChanges False True True]"
proof -
  let ?s = "(sn_send (insert_who im) (MAck (ack_to_rn (insert_tx im)))
    (sn_fire (AvailabilityChanged False)
      (sn_fire StartChanges (s\<lparr>sn_tx := insert_tx im, sn_txDriver := insert_who im\<rparr>)
        \<lparr>sn_subZones := [set_link (insert_who im) tz_default]\<rparr>)))\<lparr>sn_state := ADD_CHILD\<rparr>"
  have ins: "sn_receive s src (MInsert im) = Some (True, ?s)"
    using assms by (simp add: sn_receive_def handle_insert_def Let_def)
  have rb: "rollback_zones [set_link (sn_local s) tz_default] = []"
    using assms(5) by (simp add: rollback_zones_def tz_default_def is_addition_def is_deletion_def)
  have "sn_receive ?s (sn_local s) (MRollback rm) = Some (True, sn_rollback ?s)"
    using assms by (simp add: sn_receive_def handle_rollback_def resume_online_def)
  moreover have "sn_events (sn_rollback ?s) = sn_events s @
      [StartChanges, AvailabilityChanged False, CommitChanges False True True]"
    by (simp add: sn_rollback_def Let_def)
  ultimately show ?thesis
    unfolding ins using assms rb by simp
qed

theorem first_insert_rollback_witness:
  "let s = mk_snode 2 example_comm;
       im = mk_insert\<lparr>insert_tx := 5, insert_who := Addr 1 1\<rparr>
   in \<exists>s'. Option.bind (sn_receive s (Addr 1 1) (MInsert im))
        (\<lambda>(b, s1). sn_receive s1 (Addr 1 1) (MRollback (mk_rollback 5))) = Some (True, s')
      \<and> sn_state s' = ONLINE \<and> sn_subZones s' = []"
  using first_insert_rollback [of "mk_snode 2 example_comm"
      "mk_insert\<lparr>insert_tx := 5, insert_who := Addr 1 1\<rparr>" "mk_rollback 5" "Addr 1 1"]
  by (simp add: mk_snode_def example_comm_def mk_insert_def mk_rollback_def null_tx_def
      null_addr_def Let_def) blast

end
