(* ===== verification/Structure_Reach.thy ===== *)
theory Structure_Reach
  imports Structure_Commit
begin

text \<open>
  A structure node as a transition system: it starts as the constructor leaves it, handles any
  message from any source in any order, and meanwhile the other services of its host use the
  communication layer and the clock as they like. The invariant of the reachable states is
  kept by every handler, whatever the messages contain.
\<close>

inductive sn_reach :: "32 word \<Rightarrow> addr \<Rightarrow> 'i snode \<Rightarrow> bool" where
  start: "c_local c = a \<Longrightarrow> sn_reach n a (mk_snode n c)"
| receive: "sn_reach n a s \<Longrightarrow> sn_receive s src m = Some (b, s') \<Longrightarrow> sn_reach n a s'"
| others: "sn_reach n a s \<Longrightarrow> c_local c = a \<Longrightarrow> sn_reach n a (s\<lparr>sn_comm := c\<rparr>)"

definition delayable :: "'i msg \<Rightarrow> bool" where
  "delayable m = (case m of MInsert _ \<Rightarrow> True | MNeeded _ \<Rightarrow> True | MNewFather _ \<Rightarrow> True
     | MNewChild _ \<Rightarrow> True | _ \<Rightarrow> False)"

lemma delayable_simps [simp]:
  "delayable (MInsert im)" "delayable (MNeeded nm)" "delayable (MNewFather nf)"
  "delayable (MNewChild nc)"
  by (simp_all add: delayable_def)

definition sn_inv :: "'i snode \<Rightarrow> bool" where
  "sn_inv s \<longleftrightarrow> sn_state s \<notin> {WAIT_OFFERS, MERGING, LEAVING_WSN}
     \<and> (sn_state s \<in> {OFFLINE, ONLINE, LEAVING} \<longrightarrow> sn_tx s = null_tx)
     \<and> (sn_state s \<in> {OFFLINE, ONLINE} \<longrightarrow> sn_newFather s = null_addr)
     \<and> (sn_state s \<in> {WAIT_STR, SPLITTING} \<longrightarrow> sn_txDriver s = sn_local s)
     \<and> 2 \<le> sn_m s
     \<and> (\<forall>x \<in> set (sn_delayed s). delayable (snd x))"

lemma inv_insert: "sn_inv s \<Longrightarrow> opt_post sn_inv (handle_insert src m self s)"
  unfolding handle_insert_def Let_def by (intro opt_intro) (auto simp: sn_inv_def)

lemma inv_needed: "sn_inv s \<Longrightarrow> opt_post sn_inv (handle_needed src m self s)"
  unfolding handle_needed_def Let_def by (intro opt_intro) (auto simp: sn_inv_def)

lemma inv_rollback: "sn_inv s \<Longrightarrow> sn_inv (sn_rollback s)"
  by (auto simp: sn_inv_def)

lemma inv_newfather: "sn_inv s \<Longrightarrow> opt_post sn_inv (handle_newfather src m self s)"
  using inv_rollback [of s] unfolding handle_newfather_def Let_def
  by (intro opt_intro) (auto simp: sn_inv_def)

lemma inv_newchild: "sn_inv s \<Longrightarrow> opt_post sn_inv (handle_newchild src m self s)"
  unfolding handle_newchild_def Let_def by (intro opt_intro) (auto simp: sn_inv_def)

lemma inv_delayed_msg: "sn_inv s \<Longrightarrow> opt_post sn_inv (handle_delayed_msg src m s)"
  by (auto simp: handle_delayed_msg_def inv_insert inv_needed inv_newfather inv_newchild
      intro: opt_some split: msg.split)

lemma inv_delayed_loop: "sn_inv s \<Longrightarrow> opt_post sn_inv (delayed_loop n s)"
proof (induction n arbitrary: s)
  case 0
  then show ?case by (simp add: opt_some)
next
  case (Suc n)
  have step: "opt_post sn_inv (delayed_loop n s')"
    if "handle_delayed_msg src m (s\<lparr>sn_delayed := rest\<rparr>) = Some s'" "sn_delayed s = (src, m) # rest"
    for src m rest s'
  proof -
    have "sn_inv (s\<lparr>sn_delayed := rest\<rparr>)" using Suc.prems that(2) by (simp add: sn_inv_def)
    then show ?thesis using opt_postD [OF inv_delayed_msg that(1)] Suc.IH by simp
  qed
  show ?case
    by (simp only: delayed_loop.simps) (intro opt_intro Suc.prems step; assumption?; simp)
qed

lemma inv_check_fanout: "sn_inv s \<Longrightarrow> opt_post sn_inv (check_fanout s)"
  unfolding check_fanout_def Let_def
  by (intro opt_intro) (auto simp: sn_inv_def create_random_id_def)

lemma inv_notify: "sn_inv s \<Longrightarrow> opt_post sn_inv (notify_father t s)"
  unfolding notify_father_def by (intro opt_intro) (auto simp: sn_inv_def)

lemma opt_inv_bind:
  "opt_post sn_inv r \<Longrightarrow> (\<And>t. sn_inv t \<Longrightarrow> opt_post sn_inv (f t)) \<Longrightarrow> opt_post sn_inv (Option.bind r f)"
  by (rule opt_bind) (simp add: opt_postD)

lemma inv_after_change: "sn_inv s \<Longrightarrow> opt_post sn_inv (after_change t s)"
  unfolding after_change_def handle_delayed_msgs_def
  by (intro opt_case_list opt_none opt_inv_bind inv_delayed_loop inv_check_fanout opt_if
      inv_notify opt_some)

lemma inv_recompute: "sn_inv s \<Longrightarrow> opt_post sn_inv (recompute_zone s)"
  by (rule opt_postI) (simp add: sn_inv_def recompute_zone_fields)

lemma inv_commit_changes: "sn_inv s \<Longrightarrow> sn_inv ((commit_changes s)\<lparr>sn_state := ONLINE\<rparr>)"
  by (auto simp: sn_inv_def commit_changes_def Let_def)

lemma inv_commit: "sn_inv s \<Longrightarrow> opt_post sn_inv (sn_commit s)"
  using inv_commit_changes [of s] unfolding sn_commit_def Let_def
  by (intro opt_if opt_inv_bind inv_recompute inv_after_change opt_some) (auto simp: sn_inv_def)

lemma inv_update: "sn_inv s \<Longrightarrow> opt_post sn_inv (handle_update src m s)"
  unfolding handle_update_def
  by (intro opt_case_option opt_if opt_inv_bind inv_recompute inv_after_change opt_some)
    (auto simp: sn_inv_def)

lemma inv_init: "sn_inv s \<Longrightarrow> opt_post sn_inv (handle_init src m s)"
  unfolding handle_init_def by (intro opt_intro) (auto simp: sn_inv_def)

lemma move_children_fields [simp]:
  "sn_state (snd (move_children b ks x)) = sn_state (snd x)"
  "sn_tx (snd (move_children b ks x)) = sn_tx (snd x)"
  "sn_newFather (snd (move_children b ks x)) = sn_newFather (snd x)"
  "sn_txDriver (snd (move_children b ks x)) = sn_txDriver (snd x)"
  "sn_local (snd (move_children b ks x)) = sn_local (snd x)"
  "sn_m (snd (move_children b ks x)) = sn_m (snd x)"
  "sn_delayed (snd (move_children b ks x)) = sn_delayed (snd x)"
  by (induction ks arbitrary: x) (simp_all add: move_children_def move_child_def case_prod_beta Let_def)

lemma inv_split_with:
  "sn_inv s \<Longrightarrow> sn_state s = WAIT_STR \<Longrightarrow> opt_post sn_inv (split_with who s)"
  unfolding split_with_def Let_def finish_split_def tell_father_def
  by (intro opt_intro) (auto simp: sn_inv_def case_prod_beta)

lemma inv_newstr: "sn_inv s \<Longrightarrow> opt_post sn_inv (handle_newstr src m s)"
  using inv_split_with [of "sn_fire StartChanges (sn_cancel s)" "ns_whoOffers m"]
  unfolding handle_newstr_def Let_def by (intro opt_if opt_some) (auto simp: sn_inv_def)

lemma inv_ack: "sn_inv s \<Longrightarrow> opt_post sn_inv (handle_ack src m s)"
  unfolding handle_ack_def Let_def
  by (intro opt_if opt_some inv_commit) (auto simp: sn_inv_def)

lemma inv_resume: "sn_inv s \<Longrightarrow> opt_post sn_inv (resume_online s)"
  unfolding resume_online_def handle_delayed_msgs_def
  by (intro opt_if opt_inv_bind inv_delayed_loop inv_check_fanout opt_some)

lemma inv_receive: "sn_inv s \<Longrightarrow> sn_receive s src m = Some (b, s') \<Longrightarrow> sn_inv s'"
proof -
  assume "sn_inv s"
  then have "opt_post (\<lambda>x. sn_inv (snd x)) (sn_receive s src m)"
    unfolding sn_receive_def handle_commit_def handle_nack_def handle_rollback_def
    by (cases m) (auto simp: inv_insert inv_needed inv_newfather inv_newchild inv_update inv_init
        inv_newstr inv_ack inv_commit inv_resume inv_rollback intro: opt_some)
  then show "sn_receive s src m = Some (b, s') \<Longrightarrow> sn_inv s'" by (auto dest: opt_postD)
qed

lemma inv_start: "sn_inv (mk_snode n c)"
  by (auto simp: sn_inv_def mk_snode_def not_less)

lemma local_receive:
  assumes "sn_receive s src m = Some (b, s')"
  shows "sn_local s' = sn_local s"
proof (cases "commits_now src m s")
  case False
  with quiet_unless_commit [OF assms] show ?thesis by (simp add: same_place_def)
next
  case True
  have committed: "sn_local s' = sn_local t" if "sn_commit t = Some s'" for t
    using opt_postD [OF sn_commit_after that]
    by (simp add: same_place_def commit_changes_def Let_def)
  show ?thesis
    using assms True committed [of s] committed [of "ack_member (src, ack_fromRN am) s" for am]
    by (cases m) (auto simp: sn_receive_def handle_commit_def handle_ack_def commits_now_def Let_def)
qed

lemma reach_inv: "sn_reach n a s \<Longrightarrow> sn_inv s \<and> sn_local s = a"
proof (induction rule: sn_reach.induct)
  case (start c a n)
  then show ?case by (simp add: inv_start) (simp add: mk_snode_def)
next
  case (receive n a s src m b s')
  then show ?case using inv_receive [of s src m b s'] local_receive [of s src m b s'] by simp
next
  case (others n a s c)
  then show ?case by (auto simp: sn_inv_def)
qed



section \<open>Leaving without a transaction\<close>

text \<open>
  A root that has one child left tells it to leave with a message that carries no
  transaction identifier. The child accepts it from its father: it changes its father with no
  transaction identifier set, so that every test for a running transaction fails, and after a
  commit the father it wanted to leave is still its father.
\<close>

theorem leaving_has_no_transaction:
  assumes "sn_tx s = null_tx" and "sn_father s = null_addr" and "0 < sn_level s"
    and "sn_subZones s = [f]" and "tz_zone f \<noteq> None" and "2 \<le> unat (2 * sn_m s)"
    and "sn_state child = ONLINE" and "sn_tx child = null_tx" and "sn_father child = sn_local s"
  shows "\<exists>s' c'. check_fanout s = Some s' \<and> sn_state s' = LEAVING
    \<and> traffic (sn_comm s') = add_mset (tz_link f, MNewFather mk_newfather) (traffic (sn_comm s))
    \<and> handle_newfather (sn_local s) mk_newfather False child = Some c'
    \<and> sn_state c' = CHANGE_FATHER \<and> sn_tx c' = null_tx
    \<and> sn_father (commit_changes c') = sn_local s"
proof -
  have "check_fanout s = Some ((sn_send (tz_link f) (MNewFather mk_newfather) s)\<lparr>sn_state := LEAVING\<rparr>)"
    using assms by (simp add: check_fanout_def)
  moreover obtain c' where "handle_newfather (sn_local s) mk_newfather False child = Some c'"
    "sn_state c' = CHANGE_FATHER" "sn_tx c' = null_tx" "sn_father c' = sn_local s"
    "sn_newFather c' = null_addr"
    using assms by (simp add: handle_newfather_def mk_newfather_def null_tx_def Let_def)
  ultimately show ?thesis by simp
qed

theorem leaving_has_no_transaction_witness:
  "let s = example_node\<lparr>sn_father := null_addr, sn_subZones := [example_child 1 2 1]\<rparr>;
       child = example_node\<lparr>sn_father := Addr 1 1\<rparr>
   in \<exists>s' c'. check_fanout s = Some s' \<and> sn_state s' = LEAVING
     \<and> handle_newfather (Addr 1 1) mk_newfather False child = Some c'
     \<and> sn_state c' = CHANGE_FATHER \<and> sn_tx c' = null_tx"
  using leaving_has_no_transaction
    [of "example_node\<lparr>sn_father := null_addr, sn_subZones := [example_child 1 2 1]\<rparr>"
      "example_child 1 2 1" "example_node\<lparr>sn_father := Addr 1 1\<rparr>"]
  by (fastforce simp: example_node_def example_child_def example_comm_def mk_snode_def null_tx_def
      Let_def)

end
