(* ===== verification/Structure_Routing.thy ===== *)
theory Structure_Routing
  imports Structure_Reach
begin

text \<open>
  Where an insertion goes, what the zone of a node says of its children, and how a division
  hands over half of the children to the new brother.
\<close>

section \<open>The direction of an insertion\<close>

lemma dir_loop_nearest:
  assumes "\<forall>t \<in> set (dir # ts). has_zone t" and "md = zone_distance_addr (the (tz_zone dir)) who"
  shows "\<exists>r. dir_loop who dir md ts = Some r \<and> r \<in> set (dir # ts)
    \<and> (\<forall>u \<in> set (dir # ts). zone_distance_addr (the (tz_zone r)) who
        \<le> zone_distance_addr (the (tz_zone u)) who)"
  using assms
proof (induction ts arbitrary: dir md)
  case Nil
  then show ?case by simp
next
  case (Cons t ts)
  obtain z where z: "tz_zone t = Some z" using Cons.prems(1) by auto
  show ?case
  proof (cases "zone_distance_addr z who \<le> md")
    case True
    from Cons.IH [of t "zone_distance_addr z who"] Cons.prems z obtain r where
      "dir_loop who t (zone_distance_addr z who) ts = Some r" "r \<in> set (t # ts)"
      "\<forall>u \<in> set (t # ts). zone_distance_addr (the (tz_zone r)) who
        \<le> zone_distance_addr (the (tz_zone u)) who" by auto
    with True z Cons.prems(2) show ?thesis by (fastforce simp: Let_def)
  next
    case False
    from Cons.IH [of dir md] Cons.prems obtain r where
      "dir_loop who dir md ts = Some r" "r \<in> set (dir # ts)"
      "\<forall>u \<in> set (dir # ts). zone_distance_addr (the (tz_zone r)) who
        \<le> zone_distance_addr (the (tz_zone u)) who" by auto
    with False z Cons.prems(2) show ?thesis by (fastforce simp: Let_def)
  qed
qed

text \<open>
  C9. An insertion goes to the nearest child: when the children are in order and at least one has
  a zone, the choice is defined, and no child with a zone is nearer to the new address than
  the one chosen; if the address lies in the zone of some child, the chosen one contains it.
\<close>

theorem insert_goes_to_nearest:
  assumes "sorted_wrt zone_le ts" and "\<exists>t \<in> set ts. has_zone t"
  shows "\<exists>t z. insert_direction who ts = Some t \<and> t \<in> set ts \<and> tz_zone t = Some z
    \<and> (\<forall>u \<in> set ts. \<forall>zu. tz_zone u = Some zu \<longrightarrow>
        zone_distance_addr z who \<le> zone_distance_addr zu who \<and>
        (zone_contains zu who \<longrightarrow> zone_contains z who))"
proof -
  let ?ds = "dropWhile (\<lambda>t. tz_zone t = None) ts"
  have zoned: "\<forall>x \<in> set ?ds. has_zone x" by (rule ordered_dropWhile_zones) fact
  have all: "u \<in> set ?ds" if "u \<in> set ts" "has_zone u" for u
    using that by (metis Un_iff set_append set_takeWhileD takeWhile_dropWhile_id)
  obtain x where "x \<in> set ts" "has_zone x" using assms(2) by blast
  then have "x \<in> set ?ds" by (rule all)
  then obtain d rest where ds: "?ds = d # rest" by (cases ?ds) simp_all
  have zoned': "\<forall>t \<in> set (d # rest). has_zone t" using zoned by (simp only: ds)
  then obtain zd where zd: "tz_zone d = Some zd" by auto
  from dir_loop_nearest [OF zoned', of "zone_distance_addr zd who" who] zd obtain r where
    r: "dir_loop who d (zone_distance_addr zd who) rest = Some r" "r \<in> set (d # rest)"
    and near: "\<forall>u \<in> set (d # rest). zone_distance_addr (the (tz_zone r)) who
        \<le> zone_distance_addr (the (tz_zone u)) who" by auto
  have "r \<in> set ts" using r(2) by (metis ds set_dropWhileD)
  moreover obtain z where z: "tz_zone r = Some z" using r(2) zoned' by blast
  moreover have "insert_direction who ts = Some r"
    by (simp add: insert_direction_def ds zd r(1))
  moreover have closest: "zone_distance_addr z who \<le> zone_distance_addr zu who"
    if "u \<in> set ts" "tz_zone u = Some zu" for u zu
    using near all [of u] that z by (auto simp: ds)
  moreover have "zone_contains z who"
    if "u \<in> set ts" "tz_zone u = Some zu" "zone_contains zu who" for u zu
    using closest [OF that(1,2)] that(3) zone_distance_addr_nonneg [of z who]
      zone_distance_addr_zero_iff [of zu who] zone_distance_addr_zero_iff [of z who] by simp
  ultimately show ?thesis by blast
qed

theorem insert_goes_to_nearest_witness:
  "\<exists>t z. insert_direction (Addr 4 1) [tz_default, example_child 1 2 1, example_child 5 6 2] = Some t
    \<and> tz_zone t = Some z \<and> zone_distance_addr z (Addr 4 1) \<le>
      zone_distance_addr \<lparr>z_min = Addr 5 1, z_max = Addr 6 1, z_avail = 2\<rparr> (Addr 4 1)"
proof -
  have ordered: "sorted_wrt zone_le [tz_default, example_child 1 2 1, example_child 5 6 2]"
    by code_simp
  have zoned: "\<exists>t \<in> set [tz_default, example_child 1 2 1, example_child 5 6 2]. has_zone t"
    by (simp add: example_child_def)
  from insert_goes_to_nearest [OF ordered zoned, of "Addr 4 1"] show ?thesis
    by (force simp: example_child_def)
qed

section \<open>The zone of a node\<close>

lemma aggregate_all_hull:
  "aggregate_all z rs = Some z' \<Longrightarrow>
   z_min z' = Min (z_min ` set (z # rs)) \<and> z_max z' = Max (z_max ` set (z # rs))"
proof (induction rs arbitrary: z)
  case Nil
  then show ?case by simp
next
  case (Cons r rs)
  then obtain za where za: "zone_aggregate z r = Some za" "aggregate_all za rs = Some z'"
    by (auto simp: bind_Some_iff)
  have a: "z_min za = min (z_min z) (z_min r)" "z_max za = max (z_max z) (z_max r)"
    using zone_aggregate_Some_min zone_aggregate_Some_max za(1) by blast+
  from Cons.IH [OF za(2)] a show ?case
    by (cases "rs = []") (simp_all add: Min_insert2 min.assoc max.assoc)
qed

definition child_zones :: "tzone list \<Rightarrow> zone list" where
  "child_zones ts = map the (filter (\<lambda>z. z \<noteq> None) (map tz_zone ts))"

text \<open>
  C10. The address interval of a node is exactly the hull of the intervals of the children that
  have reported: its bounds are the least and the greatest of theirs; it is unknown exactly
  when no child has reported.
\<close>

theorem zone_is_hull:
  assumes "recompute_zone s = Some s'" and "sn_subZones s \<noteq> []"
  shows "(case sn_zone s' of
      None \<Rightarrow> child_zones (sn_subZones s) = []
    | Some z \<Rightarrow> child_zones (sn_subZones s) \<noteq> []
        \<and> z_min z = Min (z_min ` set (child_zones (sn_subZones s)))
        \<and> z_max z = Max (z_max ` set (child_zones (sn_subZones s))))"
proof (cases "child_zones (sn_subZones s)")
  case Nil
  with assms show ?thesis by (auto simp: recompute_zone_def child_zones_def)
next
  case (Cons z zs)
  with assms obtain z' where z': "aggregate_all z (z # zs) = Some z'" "sn_zone s' = Some z'"
    by (auto simp: recompute_zone_def child_zones_def bind_Some_iff)
  from aggregate_all_hull [OF z'(1)] show ?thesis by (simp add: z'(2) Cons)
qed

theorem zone_is_hull_witness:
  "case sn_zone (the (recompute_zone example_node)) of None \<Rightarrow> False
   | Some z \<Rightarrow> z_min z = Min (z_min ` set (child_zones (sn_subZones example_node)))"
proof -
  have "recompute_zone example_node \<noteq> None" by code_simp
  then obtain s' where r: "recompute_zone example_node = Some s'" by auto
  have "child_zones (sn_subZones example_node) \<noteq> []" "sn_subZones example_node \<noteq> []"
    by code_simp+
  with zone_is_hull [OF r] show ?thesis by (simp add: r split: option.splits)
qed

text \<open>
  The first child is counted twice: the loop aggregates into a copy of the first zone all the
  zones, the first one included. A node whose only child has one free structure node reports
  two, and the error doubles at each level of the tree.
\<close>

theorem first_child_counted_twice:
  "map_option sn_zone (recompute_zone (example_node\<lparr>sn_subZones := [example_child 1 2 1]\<rparr>)) =
     Some (Some \<lparr>z_min = Addr 1 1, z_max = Addr 2 1, z_avail = 2\<rparr>)"
  by code_simp

end
