(* ===== verification/Structure_Handover.thy ===== *)
theory Structure_Handover
  imports Structure_Routing
begin

text \<open>
  A division end to end: what the brother is told, who is awaited, how the acknowledgements
  end it, and where every child is afterwards.
\<close>

section \<open>Moving children\<close>

abbreviation moved_member :: "'i snode \<Rightarrow> nat \<Rightarrow> member" where
  "moved_member s k \<equiv> (tz_link (sn_subZones s ! k), sn_level s = 0)"

definition move_msg :: "addr \<Rightarrow> 'i snode \<Rightarrow> nat \<Rightarrow> addr \<times> 'i msg" where
  "move_msg b s k = (tz_link (sn_subZones s ! k),
     MNewFather (mk_newfather\<lparr>nf_tx := sn_tx s, nf_father := b, nf_forRN := (sn_level s = 0)\<rparr>))"

lemma move_child_step:
  "move_child b k (im, s) = (init_addChild (tz_link (sn_subZones s ! k)) im,
     sn_send (fst (move_msg b s k)) (snd (move_msg b s k))
       (s\<lparr>sn_subZones := (sn_subZones s)[k := reset_link (sn_subZones s ! k)],
          sn_noAck := sn_noAck s @ [moved_member s k]\<rparr>))"
  by (simp add: move_child_def move_msg_def Let_def mk_newfather_def)

lemma tz_link_reset_nth [simp]:
  "tz_link (ts[k := reset_link (ts ! k)] ! j) = tz_link (ts ! j)"
  by (cases "k = j"; cases "j < length ts") (simp_all add: list_update_beyond)

lemma reset_link_reset_nth [simp]:
  "j < length ts \<Longrightarrow> reset_link (ts[k := reset_link (ts ! k)] ! j) = reset_link (ts ! j)"
  by (cases "k = j") (simp_all add: reset_link_def)

lemma reset_link_twice: "reset_link (reset_link t) = reset_link t"
  by (simp add: reset_link_def)

lemma move_children_spec:
  "move_children b ks (im, s) = (im', s') \<Longrightarrow>
     im' = im\<lparr>init_children := init_children im @ map (\<lambda>k. tz_link (sn_subZones s ! k)) ks\<rparr>
   \<and> traffic (sn_comm s') = traffic (sn_comm s) + mset (map (move_msg b s) ks)
   \<and> sn_noAck s' = sn_noAck s @ map (moved_member s) ks
   \<and> length (sn_subZones s') = length (sn_subZones s)
   \<and> (\<forall>j < length (sn_subZones s). sn_subZones s' ! j =
       (if j \<in> set ks then reset_link (sn_subZones s ! j) else sn_subZones s ! j))
   \<and> sn_father s' = sn_father s \<and> sn_ack s' = sn_ack s \<and> sn_level s' = sn_level s"
proof (induction ks arbitrary: im s)
  case Nil
  then show ?case by (simp add: move_children_def)
next
  case (Cons k ks)
  define s1 where "s1 = snd (move_child b k (im, s))"
  define im1 where "im1 = fst (move_child b k (im, s))"
  have zones: "sn_subZones s1 = (sn_subZones s)[k := reset_link (sn_subZones s ! k)]"
    and more: "sn_tx s1 = sn_tx s" "sn_level s1 = sn_level s" "sn_father s1 = sn_father s"
      "sn_ack s1 = sn_ack s" "sn_noAck s1 = sn_noAck s @ [moved_member s k]"
      "traffic (sn_comm s1) = add_mset (move_msg b s k) (traffic (sn_comm s))"
      "im1 = init_addChild (tz_link (sn_subZones s ! k)) im"
    by (simp_all add: s1_def im1_def move_child_step)
  have msgs: "move_msg b s1 = move_msg b s" "moved_member s1 j = moved_member s j" for j
    by (simp_all add: fun_eq_iff move_msg_def zones more)
  have "move_children b ks (im1, s1) = (im', s')"
    using Cons.prems by (simp add: move_children_def s1_def im1_def)
  from Cons.IH [OF this] show ?case
    by (auto simp: zones more msgs init_addChild_def nth_list_update reset_link_twice)
qed

section \<open>The division\<close>

definition split_ks :: "'i snode \<Rightarrow> nat list" where
  "split_ks s = split_moved (map (the \<circ> tz_zone) (sn_subZones s))"

lemma split_ks_range: "distinct (split_ks s)" "\<forall>k \<in> set (split_ks s). k < length (sn_subZones s)"
  using split_moved_distinct split_moved_range [of "map (the \<circ> tz_zone) (sn_subZones s)"]
  by (auto simp: split_ks_def)

text \<open>
  What \<open>split_with\<close> prepares before it moves the children: the message for the brother, and the
  one for the father, old or newly created.
\<close>

definition split_start :: "addr \<Rightarrow> 'i snode \<Rightarrow> init_msg \<times> 'i snode" where
  "split_start who s =
    (let s1 = s\<lparr>sn_newBrother := who\<rparr>;
         im = mk_init\<lparr>init_tx := sn_tx s1, init_level := sn_level s1\<rparr>
     in (if sn_father s1 = null_addr \<and> sn_newFather s1 \<noteq> null_addr
         then (init_setFather (sn_newFather s1) im,
               sn_send (sn_newFather s1)
                 (MInit ((init_addChild who (init_addChild (sn_local s1)
                    (mk_init\<lparr>init_tx := sn_tx s1\<rparr>)))\<lparr>init_level := sn_level s1 + 1\<rparr>)) s1)
         else (init_setFather (sn_father s1) im, tell_father who False s1)))"

lemma split_with_start:
  "split_with who s = Some s' \<Longrightarrow>
   s' = finish_split who SPLITTING (move_children who (split_ks s) (split_start who s))"
  unfolding split_with_def split_start_def split_ks_def Let_def
  by (auto split: if_split_asm)

lemma split_start_fields [simp]:
  "sn_subZones (snd (split_start who s)) = sn_subZones s"
  "init_children (fst (split_start who s)) = []"
  "sn_level (snd (split_start who s)) = sn_level s" "sn_tx (snd (split_start who s)) = sn_tx s"
  by (simp_all add: split_start_def tell_father_def mk_init_def Let_def)

definition top_father :: "'i snode \<Rightarrow> addr" where
  "top_father s = (if sn_father s = null_addr \<and> sn_newFather s \<noteq> null_addr then sn_newFather s
     else sn_father s)"

text \<open>The \<open>InitStructNodeMsg\<close> the brother receives.\<close>

definition brother_init :: "'i snode \<Rightarrow> init_msg" where
  "brother_init s = (init_setFather (top_father s)
     (mk_init\<lparr>init_tx := sn_tx s, init_level := sn_level s\<rparr>))
       \<lparr>init_children := map (\<lambda>k. tz_link (sn_subZones s ! k)) (split_ks s)\<rparr>"

lemma split_start_init:
  "fst (split_start who s) = init_setFather (top_father s)
     (mk_init\<lparr>init_tx := sn_tx s, init_level := sn_level s\<rparr>)"
  by (simp add: split_start_def top_father_def Let_def)

lemma split_result:
  assumes "split_with who s = Some s'"
  shows "traffic (sn_comm s') = traffic (sn_comm (snd (split_start who s)))
      + mset (map (move_msg who s) (split_ks s)) + {#(who, MInit (brother_init s))#}"
    and "sn_noAck s' = sn_noAck (snd (split_start who s)) @ map (moved_member s) (split_ks s)
      @ [(who, False)]"
    and "length (sn_subZones s') = length (sn_subZones s)"
    and "\<forall>j < length (sn_subZones s). sn_subZones s' ! j =
      (if j \<in> set (split_ks s) then reset_link (sn_subZones s ! j) else sn_subZones s ! j)"
proof -
  obtain im0 s0 where start: "split_start who s = (im0, s0)" by (cases "split_start who s")
  obtain im1 s1 where moved: "move_children who (split_ks s) (im0, s0) = (im1, s1)"
    by (cases "move_children who (split_ks s) (im0, s0)")
  have same: "sn_subZones s0 = sn_subZones s" "sn_tx s0 = sn_tx s" "sn_level s0 = sn_level s"
    using split_start_fields [of who s] by (simp_all add: start)
  have msgs: "move_msg who s0 = move_msg who s" "moved_member s0 j = moved_member s j" for j
    by (simp_all add: fun_eq_iff move_msg_def same)
  have "im0\<lparr>init_children := map (\<lambda>k. tz_link (sn_subZones s ! k)) (split_ks s)\<rparr> = brother_init s"
    using split_start_init [of who s] by (simp add: start brother_init_def)
  moreover have "init_children im0 = []" using split_start_fields(2) [of who s] by (simp add: start)
  ultimately have im1: "im1 = brother_init s"
    using move_children_spec [OF moved] by (simp add: same)
  show "traffic (sn_comm s') = traffic (sn_comm (snd (split_start who s)))
      + mset (map (move_msg who s) (split_ks s)) + {#(who, MInit (brother_init s))#}"
    and "sn_noAck s' = sn_noAck (snd (split_start who s)) @ map (moved_member s) (split_ks s)
      @ [(who, False)]"
    and "length (sn_subZones s') = length (sn_subZones s)"
    and "\<forall>j < length (sn_subZones s). sn_subZones s' ! j =
      (if j \<in> set (split_ks s) then reset_link (sn_subZones s ! j) else sn_subZones s ! j)"
    using split_with_start [OF assms] move_children_spec [OF moved]
    by (simp_all add: start moved finish_split_def im1 same msgs)
qed

text \<open>
  A division tells everyone concerned: the new brother gets one message with the links of all
  the children that move, each of those children is told its new father in this transaction,
  and exactly these members, the brother and (when it has one) the father are awaited.
\<close>

theorem division_messages:
  assumes "split_with who s = Some s'"
  shows "traffic (sn_comm s') = traffic (sn_comm (snd (split_start who s)))
      + mset (map (move_msg who s) (split_ks s)) + {#(who, MInit (brother_init s))#}
    \<and> init_children (brother_init s) = map (\<lambda>k. tz_link (sn_subZones s ! k)) (split_ks s)
    \<and> sn_noAck s' = sn_noAck s
        @ (if sn_father s = null_addr \<and> sn_newFather s \<noteq> null_addr then [] else [(sn_father s, False)])
        @ map (moved_member s) (split_ks s) @ [(who, False)]"
proof -
  have "sn_noAck (snd (split_start who s)) = sn_noAck s
      @ (if sn_father s = null_addr \<and> sn_newFather s \<noteq> null_addr then [] else [(sn_father s, False)])"
    by (simp add: split_start_def tell_father_def Let_def)
  then show ?thesis
    using split_result [OF assms] by (simp add: brother_init_def)
qed

definition dividing_node :: "nat snode" where
  "dividing_node = example_node\<lparr>sn_state := WAIT_STR, sn_tx := 4, sn_txDriver := Addr 1 1,
     sn_subZones := [example_child 1 2 1, example_child 5 6 2, example_child 11 12 1,
       example_child 15 16 2]\<rparr>"

theorem division_messages_witness:
  "let s' = the (split_with (Addr 20 2) dividing_node)
   in init_children (brother_init dividing_node) = [Addr 5 2, Addr 1 2]
    \<and> sn_noAck s' = [(Addr 9 1, False), (Addr 5 2, False), (Addr 1 2, False), (Addr 20 2, False)]"
proof -
  have "split_with (Addr 20 2) dividing_node \<noteq> None"
    by (simp add: split_with_def dividing_node_def example_child_def Let_def)
  then obtain s' where r: "split_with (Addr 20 2) dividing_node = Some s'" by auto
  have ks: "map (\<lambda>k. tz_link (sn_subZones dividing_node ! k)) (split_ks dividing_node) = [Addr 5 2, Addr 1 2]"
    "map (moved_member dividing_node) (split_ks dividing_node) = [(Addr 5 2, False), (Addr 1 2, False)]"
    by code_simp+
  have fa: "sn_father dividing_node = Addr 9 1" "sn_noAck dividing_node = []" "Addr 9 1 \<noteq> null_addr"
    by code_simp+
  from division_messages [OF r] show ?thesis by (simp add: r ks fa)
qed

section \<open>Where the children are afterwards\<close>

lemma filter_nth_upt:
  "filter P xs = map (\<lambda>j. xs ! j) (filter (\<lambda>j. P (xs ! j)) [0..<length xs])"
  by (metis (mono_tags, lifting) filter_cong filter_map map_nth comp_def)

lemma split_range:
  assumes "distinct ks" and "\<forall>k \<in> set ks. k < n"
  shows "mset (filter (\<lambda>j. j \<notin> set ks) [0..<n]) + mset ks = mset [0..<n]"
proof -
  have "mset (filter (\<lambda>j. j \<in> set ks) [0..<n]) = mset ks"
    using assms by (intro set_eq_iff_mset_eq_distinct [THEN iffD1]) auto
  then show ?thesis
    using multiset_partition [of "mset [0..<n]" "\<lambda>j. j \<in> set ks"] by (simp add: add.commute)
qed



section \<open>The acknowledgements\<close>

text \<open>A run of acknowledgements of the current transaction, one per member.\<close>

fun receive_acks :: "member list \<Rightarrow> 'i snode \<Rightarrow> 'i snode option" where
  "receive_acks [] s = Some s"
| "receive_acks ((a, rn) # ms) s = do {
     (b, s') \<leftarrow> sn_receive s a (MAck \<lparr>ack_tx = sn_tx s, ack_forRN = False, ack_fromRN = rn\<rparr>);
     receive_acks ms s'
   }"

lemma ack_member_frame:
  "same_place s (ack_member mb s)" "sn_ack (ack_member mb s) \<in> {sn_ack s, sn_ack s @ [mb]}"
  by (auto simp: same_place_def ack_member_def)

lemma receive_acks_pending:
  assumes "sn_txDriver s = sn_local s" and "mset (xs @ ys) = mset (sn_noAck s)" and "ys \<noteq> []"
  shows "receive_acks xs s = Some (fold ack_member xs s)
    \<and> mset (sn_noAck (fold ack_member xs s)) = mset ys
    \<and> set (sn_ack (fold ack_member xs s)) = set (sn_ack s) \<union> set xs
    \<and> same_place s (fold ack_member xs s)
    \<and> sn_txDriver (fold ack_member xs s) = sn_txDriver s \<and> sn_tx (fold ack_member xs s) = sn_tx s"
  using assms
proof (induction xs arbitrary: s)
  case Nil
  then show ?case by simp
next
  case (Cons x xs)
  obtain a rn where x: "x = (a, rn)" by (cases x)
  let ?s = "ack_member x s"
  have mem: "x \<in> set (sn_noAck s)" using Cons.prems(2) by (metis append_Cons list.set_intros(1) mset_eq_setD)
  have "add_mset x (mset (xs @ ys)) = mset (sn_noAck s)" using Cons.prems(2) by simp
  then have rest: "mset (xs @ ys) = mset (sn_noAck ?s)"
    by (metis ack_member_simps(1) add_mset_remove_trivial mset_remove1)
  then have "sn_noAck ?s \<noteq> []" using Cons.prems(3) by (metis append_is_Nil_conv mset_zero_iff mset.simps(1))
  then have step: "sn_receive s a (MAck \<lparr>ack_tx = sn_tx s, ack_forRN = False, ack_fromRN = rn\<rparr>) =
      Some (True, ?s)"
    using Cons.prems(1) by (simp add: sn_receive_def handle_ack_def x Let_def)
  have acked: "set (sn_ack ?s) = insert x (set (sn_ack s))"
    using mem by (auto simp: ack_member_def)
  have driver: "sn_txDriver ?s = sn_local ?s" using Cons.prems(1) by simp
  note run = Cons.IH [OF driver rest Cons.prems(3)]
  have "same_place s (fold ack_member xs ?s)"
    using same_place_trans [OF ack_member_frame(1)] run by blast
  then show ?case using run step acked by (auto simp: x)
qed



end
