(* ===== verification/Resource_Node.thy ===== *)
theory Resource_Node
  imports Comm_Layer
begin

text \<open>
  \<open>include/ResourceNode.hpp\<close>, \<open>src/lib/overlay/ResourceNode.cpp\<close>: the leaf of the tree that
  manages a resource. It joins the network and changes its father in transactions that a
  structure node drives. The calls its \<open>OverlayLeafObserver\<close>s receive are \<open>rn_events\<close>.
\<close>

datatype leaf_event = FatherChanging | FatherChanged bool

record 'i rnode =
  rn_father :: addr
  rn_seq :: "64 word"
  rn_tx :: txid
  rn_newFather :: addr
  rn_avail :: bool
  rn_delayed :: "(addr \<times> 'i msg) list"
  rn_events :: "leaf_event list"
  rn_comm :: "'i comm"

definition mk_rnode :: "'i comm \<Rightarrow> 'i rnode" where
  "mk_rnode c = \<lparr>rn_father = null_addr, rn_seq = 1, rn_tx = null_tx, rn_newFather = null_addr,
     rn_avail = True, rn_delayed = [], rn_events = [], rn_comm = c\<rparr>"

abbreviation rn_local :: "'i rnode \<Rightarrow> addr" where
  "rn_local s \<equiv> c_local (rn_comm s)"

definition rn_status :: "'i rnode \<Rightarrow> string" where
  "rn_status s =
    (if rn_father s = null_addr \<and> rn_newFather s = null_addr \<and> rn_tx s = null_tx then ''OFFLINE''
     else if rn_father s \<noteq> null_addr \<and> rn_newFather s = null_addr \<and> rn_tx s = null_tx then ''ONLINE''
     else if rn_father s = null_addr \<and> rn_newFather s = null_addr \<and> rn_tx s \<noteq> null_tx then ''START_IN''
     else if rn_father s \<noteq> null_addr \<and> rn_newFather s = null_addr \<and> rn_tx s \<noteq> null_tx then ''START_OUT''
     else if rn_father s = null_addr \<and> rn_newFather s \<noteq> null_addr then ''INIT_FATHER''
     else if rn_father s \<noteq> null_addr \<and> rn_newFather s \<noteq> null_addr then ''CHANGE_FATHER''
     else ''UNKNOWN'')"

definition rn_send :: "addr \<Rightarrow> 'i msg \<Rightarrow> 'i rnode \<Rightarrow> 'i rnode" where
  "rn_send a m s = s\<lparr>rn_comm := send_message a m (rn_comm s)\<rparr>"

definition rn_fire :: "leaf_event \<Rightarrow> 'i rnode \<Rightarrow> 'i rnode" where
  "rn_fire e s = s\<lparr>rn_events := rn_events s @ [e]\<rparr>"

definition rn_delay :: "addr \<Rightarrow> 'i msg \<Rightarrow> 'i rnode \<Rightarrow> 'i rnode" where
  "rn_delay src m s = s\<lparr>rn_delayed := rn_delayed s @ [(src, m)]\<rparr>"

definition own_zone :: "'i rnode \<Rightarrow> zone" where
  "own_zone s = zone_default\<lparr>z_avail := (if rn_avail s then 1 else 0),
     z_max := rn_local s, z_min := rn_local s\<rparr>"

definition rn_notify_father :: "'i rnode \<Rightarrow> 'i rnode" where
  "rn_notify_father s =
    (if rn_father s \<noteq> null_addr
     then rn_send (rn_father s) (MUpdate (mk_update\<lparr>upd_zone := own_zone s, upd_seq := rn_seq s\<rparr>))
            (s\<lparr>rn_seq := rn_seq s + 1\<rparr>)
     else s)"

definition availability_changed :: "bool \<Rightarrow> 'i rnode \<Rightarrow> 'i rnode" where
  "availability_changed available s =
    (let s1 = s\<lparr>rn_avail := available\<rparr>
     in if rn_tx s1 = null_tx then rn_notify_father s1 else s1)"

section \<open>Handlers of messages that may be delayed\<close>

definition rn_newfather :: "addr \<Rightarrow> newfather_msg \<Rightarrow> 'i rnode \<Rightarrow> 'i rnode" where
  "rn_newfather src msg s =
    (if \<not> nf_forRN msg then s
     else if rn_tx s \<noteq> null_tx then rn_delay src (MNewFather msg) s
     else if rn_father s = src then
       (let s1 = (rn_fire FatherChanging s)\<lparr>rn_newFather := nf_father msg, rn_tx := nf_tx msg\<rparr>
        in rn_send src (MAck ((mk_ack (rn_tx s1))\<lparr>ack_fromRN := True\<rparr>)) s1)
     else s)"

definition rn_insert :: "addr \<Rightarrow> insert_msg \<Rightarrow> 'i rnode \<Rightarrow> 'i rnode" where
  "rn_insert src msg s =
    (if \<not> insert_forRN msg then s
     else if rn_tx s \<noteq> null_tx then rn_delay src (MInsert msg) s
     else if rn_father s \<noteq> null_addr
       then rn_send (rn_father s) (MInsert (msg\<lparr>insert_forRN := False\<rparr>)) s
     else s)"

definition rn_delayed_msg :: "addr \<Rightarrow> 'i msg \<Rightarrow> 'i rnode \<Rightarrow> 'i rnode" where
  "rn_delayed_msg src m s =
    (case m of MInsert im \<Rightarrow> rn_insert src im s | MNewFather fm \<Rightarrow> rn_newfather src fm s | _ \<Rightarrow> s)"

text \<open>
  The loop of \<open>handleDelayedMsgs\<close>. A message is only taken when no transaction runs, and then
  neither handler puts it back, so each turn shortens the queue.
\<close>

lemma rn_delayed_shrinks:
  "rn_tx s = null_tx \<Longrightarrow> rn_delayed (rn_delayed_msg src m s) = rn_delayed s"
  by (auto simp: rn_delayed_msg_def rn_insert_def rn_newfather_def rn_send_def rn_fire_def Let_def
      split: msg.split)

function rn_handle_delayed :: "'i rnode \<Rightarrow> 'i rnode" where
  "rn_handle_delayed s =
    (if rn_delayed s \<noteq> [] \<and> rn_tx s = null_tx
     then rn_handle_delayed (rn_delayed_msg (fst (hd (rn_delayed s))) (snd (hd (rn_delayed s)))
       (s\<lparr>rn_delayed := tl (rn_delayed s)\<rparr>))
     else s)"
  by auto
termination
  by (relation "measure (\<lambda>s. length (rn_delayed s))") (auto simp: rn_delayed_shrinks)

declare rn_handle_delayed.simps [simp del]

section \<open>The end of a transaction\<close>

definition rn_commit :: "'i rnode \<Rightarrow> 'i rnode" where
  "rn_commit s =
    (let s1 = s\<lparr>rn_tx := null_tx\<rparr>;
         s2 = (if rn_father s1 = null_addr \<or> rn_father s1 \<noteq> rn_newFather s1
               then rn_fire (FatherChanged True) (rn_notify_father
                 (s1\<lparr>rn_father := rn_newFather s1, rn_newFather := null_addr, rn_seq := 1\<rparr>))
               else s1)
     in rn_handle_delayed s2)"

definition rn_rollback :: "'i rnode \<Rightarrow> 'i rnode" where
  "rn_rollback s =
    rn_handle_delayed (rn_fire (FatherChanged False)
      (s\<lparr>rn_tx := null_tx, rn_newFather := null_addr\<rparr>))"

definition rn_ack :: "addr \<Rightarrow> ack_msg \<Rightarrow> 'i rnode \<Rightarrow> 'i rnode" where
  "rn_ack src msg s =
    (if \<not> ack_forRN msg then s
     else if ack_tx msg = rn_tx s
       then rn_send src (MCommit (mk_commit (ack_tx msg))) (rn_commit (s\<lparr>rn_newFather := src\<rparr>))
     else s)"

definition rn_nack :: "nack_msg \<Rightarrow> 'i rnode \<Rightarrow> 'i rnode" where
  "rn_nack msg s =
    (if \<not> nack_forRN msg then s else if nack_tx msg = rn_tx s then rn_rollback s else s)"

definition rn_rollback_msg :: "rollback_msg \<Rightarrow> 'i rnode \<Rightarrow> 'i rnode" where
  "rn_rollback_msg msg s =
    (if \<not> rollback_forRN msg then s else if rollback_tx msg = rn_tx s then rn_rollback s else s)"

definition rn_commit_msg :: "commit_msg \<Rightarrow> 'i rnode \<Rightarrow> 'i rnode" where
  "rn_commit_msg msg s =
    (if \<not> commit_forRN msg then s else if commit_tx msg = rn_tx s then rn_commit s else s)"

definition rn_insert_command :: "addr \<Rightarrow> 'i rnode \<Rightarrow> 'i rnode" where
  "rn_insert_command wh s =
    (if rn_father s = null_addr then
       (let s1 = rn_fire FatherChanging s;
            (tid, c) = create_random_id (rn_comm s1);
            s2 = s1\<lparr>rn_tx := tid, rn_comm := c\<rparr>
        in rn_send wh (MInsert (mk_insert\<lparr>insert_who := rn_local s1, insert_tx := rn_tx s2,
             insert_forRN := (wh \<noteq> rn_local s2)\<rparr>)) s2)
     else s)"

definition rn_receive :: "'i rnode \<Rightarrow> addr \<Rightarrow> 'i msg \<Rightarrow> bool \<times> 'i rnode" where
  "rn_receive s src m =
    (case m of
       MNewFather fm \<Rightarrow> (True, rn_newfather src fm s)
     | MAck am \<Rightarrow> (True, rn_ack src am s)
     | MNack nm \<Rightarrow> (True, rn_nack nm s)
     | MCommit cm \<Rightarrow> (True, rn_commit_msg cm s)
     | MRollback rm \<Rightarrow> (True, rn_rollback_msg rm s)
     | MInsert im \<Rightarrow> (True, rn_insert src im s)
     | MInsertCommand wh \<Rightarrow> (True, rn_insert_command wh s)
     | _ \<Rightarrow> (False, s))"

section \<open>Frames\<close>

lemma rn_send_simps [simp]:
  "rn_father (rn_send a m s) = rn_father s" "rn_seq (rn_send a m s) = rn_seq s"
  "rn_tx (rn_send a m s) = rn_tx s" "rn_newFather (rn_send a m s) = rn_newFather s"
  "rn_avail (rn_send a m s) = rn_avail s" "rn_delayed (rn_send a m s) = rn_delayed s"
  "rn_events (rn_send a m s) = rn_events s"
  "rn_comm (rn_send a m s) = send_message a m (rn_comm s)"
  by (simp_all add: rn_send_def)

lemma rn_fire_simps [simp]:
  "rn_father (rn_fire e s) = rn_father s" "rn_seq (rn_fire e s) = rn_seq s"
  "rn_tx (rn_fire e s) = rn_tx s" "rn_newFather (rn_fire e s) = rn_newFather s"
  "rn_avail (rn_fire e s) = rn_avail s" "rn_delayed (rn_fire e s) = rn_delayed s"
  "rn_events (rn_fire e s) = rn_events s @ [e]" "rn_comm (rn_fire e s) = rn_comm s"
  by (simp_all add: rn_fire_def)

lemma rn_delay_simps [simp]:
  "rn_father (rn_delay a m s) = rn_father s" "rn_seq (rn_delay a m s) = rn_seq s"
  "rn_tx (rn_delay a m s) = rn_tx s" "rn_newFather (rn_delay a m s) = rn_newFather s"
  "rn_avail (rn_delay a m s) = rn_avail s"
  "rn_delayed (rn_delay a m s) = rn_delayed s @ [(a, m)]"
  "rn_events (rn_delay a m s) = rn_events s" "rn_comm (rn_delay a m s) = rn_comm s"
  by (simp_all add: rn_delay_def)

lemma rn_notify_simps [simp]:
  "rn_father (rn_notify_father s) = rn_father s" "rn_tx (rn_notify_father s) = rn_tx s"
  "rn_newFather (rn_notify_father s) = rn_newFather s" "rn_avail (rn_notify_father s) = rn_avail s"
  "rn_delayed (rn_notify_father s) = rn_delayed s" "rn_events (rn_notify_father s) = rn_events s"
  "rn_local (rn_notify_father s) = rn_local s"
  by (simp_all add: rn_notify_father_def)

lemma rn_handle_delayed_none [simp]: "rn_delayed s = [] \<Longrightarrow> rn_handle_delayed s = s"
  by (simp add: rn_handle_delayed.simps)

lemma rn_delayed_msg_father [simp]:
  "rn_father (rn_delayed_msg src m s) = rn_father s" "rn_local (rn_delayed_msg src m s) = rn_local s"
  by (auto simp: rn_delayed_msg_def rn_insert_def rn_newfather_def Let_def split: msg.split)

lemma rn_handle_delayed_frame [simp]:
  "rn_father (rn_handle_delayed s) = rn_father s \<and> rn_local (rn_handle_delayed s) = rn_local s"
proof (induction s rule: rn_handle_delayed.induct)
  case (1 s)
  then show ?case by (subst (1 2) rn_handle_delayed.simps) simp
qed

lemma rn_handle_delayed_idle: "rn_tx (rn_handle_delayed s) = null_tx \<Longrightarrow> rn_delayed (rn_handle_delayed s) = []"
proof (induction s rule: rn_handle_delayed.induct)
  case (1 s)
  show ?case
  proof (cases "rn_delayed s \<noteq> [] \<and> rn_tx s = null_tx")
    case True
    with 1 show ?thesis by (subst rn_handle_delayed.simps) (simp add: rn_handle_delayed.simps [of s])
  next
    case False
    with 1 show ?thesis by (auto simp: rn_handle_delayed.simps [of s])
  qed
qed

end
