(* ===== verification/Join_Protocol.thy ===== *)
theory Join_Protocol
  imports Structure_Handover Resource_Node
begin

text \<open>
  What a resource node guarantees by itself, and the handshake by which it joins the network,
  followed through the handlers of both sides.
\<close>

section \<open>Reachable states of a resource node\<close>

text \<open>
  A resource node handles any message, as long as the next identifier it may draw is not the
  null one; it hears of the availability of the structure node of its host, and the other
  services use the communication layer.
\<close>

inductive rn_reach :: "'i rnode \<Rightarrow> bool" where
  start: "rn_reach (mk_rnode c)"
| receive: "rn_reach s \<Longrightarrow> fst (create_random_id (rn_comm s)) \<noteq> null_tx \<Longrightarrow>
    rn_reach (snd (rn_receive s src m))"
| available: "rn_reach s \<Longrightarrow> rn_reach (availability_changed b s)"
| others: "rn_reach s \<Longrightarrow> rn_reach (s\<lparr>rn_comm := c\<rparr>)"

definition rn_inv :: "'i rnode \<Rightarrow> bool" where
  "rn_inv s \<longleftrightarrow> (rn_tx s = null_tx \<longrightarrow> rn_delayed s = [])"

lemma rn_inv_handle_delayed: "rn_inv (rn_handle_delayed s)"
  by (simp add: rn_inv_def rn_handle_delayed_idle)

lemma rn_inv_receive:
  assumes "rn_inv s" and "fst (create_random_id (rn_comm s)) \<noteq> null_tx"
  shows "rn_inv (snd (rn_receive s src m))"
proof -
  have sent: "rn_inv (rn_send a m t) = rn_inv t" for a m and t :: "'a rnode"
    by (simp add: rn_inv_def)
  show ?thesis
  proof (cases m)
    case (MNewFather fm)
    with assms show ?thesis by (simp add: rn_receive_def rn_newfather_def rn_inv_def Let_def)
  next
    case (MInsert im)
    with assms show ?thesis by (simp add: rn_receive_def rn_insert_def rn_inv_def)
  next
    case (MInsertCommand wh)
    with assms show ?thesis
      by (simp add: rn_receive_def rn_insert_command_def rn_inv_def case_prod_beta Let_def)
  qed (use assms in \<open>simp_all add: rn_receive_def rn_ack_def rn_nack_def rn_commit_msg_def
      rn_rollback_msg_def rn_commit_def rn_rollback_def sent rn_inv_handle_delayed Let_def\<close>)
qed

lemma rn_reach_inv: "rn_reach s \<Longrightarrow> rn_inv s"
proof (induction rule: rn_reach.induct)
  case (start c)
  then show ?case by (simp add: rn_inv_def mk_rnode_def)
next
  case (receive s src m)
  then show ?case by (simp add: rn_inv_receive)
next
  case (available s b)
  then show ?case by (simp add: rn_inv_def availability_changed_def Let_def)
next
  case (others s c)
  then show ?case by (simp add: rn_inv_def)
qed

text \<open>
  A message waits only while a transaction runs: in every reachable state, a resource node
  that is in no transaction has no delayed message, so none is left waiting for ever after
  the transaction that delayed it.
\<close>

theorem rn_nothing_waits:
  assumes "rn_reach s" and "rn_tx s = null_tx"
  shows "rn_delayed s = []"
  using rn_reach_inv [OF assms(1)] assms(2) by (simp add: rn_inv_def)

theorem rn_nothing_waits_witness:
  "rn_delayed (snd (rn_receive (mk_rnode example_comm) (Addr 5 1) (MInsertCommand (Addr 5 1)))) = []
   \<and> rn_delayed (mk_rnode example_comm) = []"
proof
  show "rn_delayed (mk_rnode example_comm) = []"
    by (rule rn_nothing_waits [OF rn_reach.start]) (simp add: mk_rnode_def)
qed (simp add: rn_receive_def rn_insert_command_def mk_rnode_def case_prod_beta Let_def)

text \<open>
  The father of a resource node changes only by an acknowledgement of its own insertion,
  whose sender it becomes, or by the commit of a change of father, by which the announced
  father takes over; both must carry the identifier of the current transaction. Every other
  message, and either one with another identifier, leaves the father as it was.
\<close>

theorem rn_father_changes:
  "rn_father (snd (rn_receive s src m)) =
    (case m of
       MAck am \<Rightarrow> if ack_forRN am \<and> ack_tx am = rn_tx s then src else rn_father s
     | MCommit cm \<Rightarrow> if commit_forRN cm \<and> commit_tx cm = rn_tx s then rn_newFather s else rn_father s
     | _ \<Rightarrow> rn_father s)"
  by (cases m) (auto simp: rn_receive_def rn_newfather_def rn_insert_def rn_ack_def rn_nack_def
      rn_commit_msg_def rn_rollback_msg_def rn_commit_def rn_rollback_def rn_insert_command_def
      case_prod_beta Let_def)

text \<open>
  The null identifier is not refused: a resource node that is online and in no transaction
  drops its father when a commit message with the null transaction identifier arrives, because
  the comparison with its own identifier succeeds.
\<close>

theorem null_commit_drops_father:
  assumes "rn_tx s = null_tx" and "rn_newFather s = null_addr" and "rn_father s \<noteq> null_addr"
    and "rn_delayed s = []"
  shows "let s' = snd (rn_receive s src (MCommit ((mk_commit null_tx)\<lparr>commit_forRN := True\<rparr>)))
    in rn_status s = ''ONLINE'' \<and> rn_status s' = ''OFFLINE'' \<and> rn_father s' = null_addr"
  using assms by (simp add: rn_receive_def rn_commit_msg_def rn_commit_def rn_status_def
      rn_notify_father_def mk_commit_def Let_def)

theorem null_commit_drops_father_witness:
  "let s = (mk_rnode example_comm)\<lparr>rn_father := Addr 5 1\<rparr>
   in rn_status (snd (rn_receive s (Addr 9 9) (MCommit ((mk_commit null_tx)\<lparr>commit_forRN := True\<rparr>))))
      = ''OFFLINE''"
  using null_commit_drops_father [of "(mk_rnode example_comm)\<lparr>rn_father := Addr 5 1\<rparr>" "Addr 9 9"]
  by (simp add: mk_rnode_def null_addr_def Let_def)

section \<open>The handshake\<close>

lemma mset_update_first_unique:
  assumes "mset xs = add_mset e (mset ts)" and "P e" and "\<forall>t \<in> set ts. \<not> P t"
  shows "mset (update_first P f xs) = add_mset (f e) (mset ts)"
  using assms
proof (induction xs arbitrary: ts)
  case Nil
  then show ?case by simp
next
  case (Cons x xs)
  show ?case
  proof (cases "P x")
    case True
    have "x \<in> set ts \<or> x = e" using Cons.prems(1) by (metis insert_iff list.set_intros(1)
        set_mset_add_mset_insert set_mset_mset)
    with True Cons.prems(3) have "x = e" by auto
    with True Cons.prems(1) show ?thesis by simp
  next
    case False
    then have ne: "x \<noteq> e" using Cons.prems(2) by auto
    then have "x \<in># mset ts" using Cons.prems(1) by (metis insert_iff list.set_intros(1)
        set_mset_add_mset_insert set_mset_mset)
    then obtain us where us: "mset ts = add_mset x (mset us)"
      by (metis insert_DiffM mset_remove1)
    have "mset xs = add_mset e (mset us)"
      using Cons.prems(1) us by simp
    moreover have "set us \<subseteq> set ts" using us by (metis set_mset_mset set_mset_add_mset_insert subset_insertI)
    ultimately have "mset (update_first P f xs) = add_mset (f e) (mset us)"
      using Cons.IH [of us] Cons.prems(2,3) by blast
    with False us show ?thesis by simp
  qed
qed

lemma find_first_unique:
  assumes "mset xs = add_mset e (mset ts)" and "P e" and "\<forall>t \<in> set ts. \<not> P t"
  shows "find P xs = Some e"
proof -
  have e: "e \<in> set xs" "\<forall>x \<in> set xs. P x \<longrightarrow> x = e"
    using assms by (metis union_single_eq_member set_mset_mset, metis insert_iff
        set_mset_add_mset_insert set_mset_mset)
  then obtain x where "find P xs = Some x" using assms(2) by (metis find_None_iff option.exhaust)
  with e show ?thesis by (metis find_Some_set)
qed

text \<open>The node adds the new child and acknowledges it to the resource node.\<close>

lemma insert_accepted:
  assumes "sn_state s = ONLINE" and "sn_tx s = null_tx" and "sn_zone s = Some z"
    and "sn_level s = 0" and "length (sn_subZones s) < unat (2 * sn_m s)"
    and "sn_father s = null_addr \<or> zone_contains z (insert_who im)" and "\<not> insert_forRN im"
  obtains s1 where "sn_receive s src (MInsert im) = Some (True, s1)"
    "sn_subZones s1 = sort_zones (set_link (insert_who im) tz_default # sn_subZones s)"
    "sn_tx s1 = insert_tx im" "sn_local s1 = sn_local s"
    "traffic (sn_comm s1) = add_mset (insert_who im, MAck (ack_to_rn (insert_tx im))) (traffic (sn_comm s))"
  using that assms by (auto simp: sn_receive_def handle_insert_def Let_def)

text \<open>The resource node accepts the acknowledgement: it reports to its new father and commits.\<close>

definition first_update :: "'i rnode \<Rightarrow> update_msg" where
  "first_update r = mk_update\<lparr>upd_zone := own_zone r, upd_seq := 1\<rparr>"

lemma ack_accepted:
  assumes "rn_tx r = t" and "rn_father r = null_addr" and "rn_delayed r = []" and "a \<noteq> null_addr"
  shows "let r1 = snd (rn_receive r a (MAck (ack_to_rn t)))
    in rn_father r1 = a \<and> rn_tx r1 = null_tx \<and> rn_newFather r1 = null_addr
      \<and> traffic (rn_comm r1) = traffic (rn_comm r)
          + {#(a, MUpdate (first_update r)), (a, MCommit (mk_commit t))#}
      \<and> rn_events r1 = rn_events r @ [FatherChanged True]"
  using assms by (simp add: rn_receive_def rn_ack_def rn_commit_def rn_notify_father_def
      ack_to_rn_def mk_ack_def first_update_def own_zone_def Let_def)

lemma pending_child_updated:
  assumes "sn_subZones s1 = sort_zones (set_link a tz_default # ts)" and "sn_tx s1 \<noteq> null_tx"
    and "\<forall>t \<in> set ts. \<not> comes_from t a" and "a \<noteq> null_addr" and "0 < upd_seq u"
    and "sn_receive s1 a (MUpdate u) = Some (b, s2)"
  shows "mset (sn_subZones s2) =
      add_mset (set_zone_from a (Some (upd_zone u)) (set_link a tz_default\<lparr>tz_seq := upd_seq u\<rparr>)) (mset ts)
    \<and> sn_tx s2 = sn_tx s1"
proof -
  let ?e = "set_link a tz_default" and ?xs = "sn_subZones s1"
  let ?f = "\<lambda>t. set_zone_from a (Some (upd_zone u)) (snd (test_and_set (upd_seq u) t))"
  have xs: "mset ?xs = add_mset ?e (mset ts)" by (simp add: assms(1))
  have e: "comes_from ?e a" by (simp add: comes_from_def)
  have newer: "test_and_set (upd_seq u) ?e = (True, ?e\<lparr>tz_seq := upd_seq u\<rparr>)"
    using assms(5) by (simp add: test_and_set_def tz_default_def)
  have "find (\<lambda>t. comes_from t a) ?xs = Some ?e"
    using xs e assms(3) by (rule find_first_unique)
  with assms(6) newer obtain r where
    r: "recompute_zone (s1\<lparr>sn_subZones := sort_zones (update_first (\<lambda>t. comes_from t a) ?f ?xs)\<rparr>) = Some r"
    and r2: "(if sn_tx r = null_tx \<and> sn_zone r \<noteq> None then after_change (upd_tx u) r else Some r) = Some s2"
    by (auto simp: sn_receive_def handle_update_def bind_Some_iff)
  from r2 recompute_zone_fields(10) [OF r] assms(2) have "r = s2" by simp
  with r have "recompute_zone (s1\<lparr>sn_subZones := sort_zones (update_first (\<lambda>t. comes_from t a) ?f ?xs)\<rparr>) = Some s2"
    by simp
  from recompute_zone_fields(9,10) [OF this]
  have "sn_subZones s2 = sort_zones (update_first (\<lambda>t. comes_from t a) ?f ?xs)" "sn_tx s2 = sn_tx s1"
    by simp_all
  then show ?thesis
    using mset_update_first_unique [OF xs, of "\<lambda>t. comes_from t a" ?f] e assms(3) newer by simp
qed


definition joining :: "nat rnode" where
  "joining = (mk_rnode (example_comm\<lparr>c_local := Addr 3 1\<rparr>))\<lparr>rn_tx := 7\<rparr>"


end
