(* ===== verification/Scheduler.thy ===== *)
theory Scheduler
  imports Comm_Layer
begin

text \<open>
  \<open>include/Scheduler.hpp\<close>, \<open>src/lib/scheduling/Scheduler.cpp\<close>, \<open>include/Task.hpp\<close>: the
  execution service. The virtual methods of \<open>Task\<close> and \<open>ExecutionEnvironment\<close> are the fields
  of a \<open>backend\<close>, those of the policy subclasses the fields of a \<open>policy\<close>; the handlers below
  take both. \<open>sc_father\<close> is what \<open>leaf.getFatherAddress()\<close> returns. The three statistics
  events have empty bodies in this library. The state is an extensible record: a policy adds
  its own members to it.
\<close>

abbreviation (input) t_inactive :: int where "t_inactive \<equiv> 0"
abbreviation (input) t_prepared :: int where "t_prepared \<equiv> 1"
abbreviation (input) t_running :: int where "t_running \<equiv> 2"
abbreviation (input) t_finished :: int where "t_finished \<equiv> 3"
abbreviation (input) t_aborted :: int where "t_aborted \<equiv> 4"

record 'x task =
  tk_id :: "32 word"
  tk_owner :: addr
  tk_request :: int
  tk_client :: "32 word"
  tk_desc :: task_desc
  tk_created :: time
  tk_body :: 'x

text \<open>\<open>tk_body\<close> is the state a subclass of \<open>Task\<close> adds; starting, pausing and aborting a task
  change it and may set or cancel timers.\<close>

record ('x, 'i) backend =
  be_power :: rat
  be_memory :: "64 word"
  be_disk :: "64 word"
  be_create :: "task_desc \<Rightarrow> 'x"
  be_status :: "time \<Rightarrow> 'x \<Rightarrow> int"
  be_run :: "'x task \<Rightarrow> 'i comm \<Rightarrow> 'x \<times> 'i comm"
  be_pause :: "'x task \<Rightarrow> 'i comm \<Rightarrow> 'x \<times> 'i comm"
  be_abort :: "'x task \<Rightarrow> 'i comm \<Rightarrow> 'x \<times> 'i comm"
  be_paused :: "'x \<Rightarrow> bool"
  be_estimate :: "time \<Rightarrow> 'x task \<Rightarrow> int"

record ('x, 'i) sched =
  sc_father :: addr
  sc_tasks :: "'x task list"
  sc_seq :: "32 word"
  sc_inChange :: bool
  sc_dirty :: bool
  sc_reschTimer :: int
  sc_monTimer :: int
  sc_executed :: "64 word"
  sc_maxQueue :: "32 word"
  sc_maxPaused :: "32 word"
  sc_nextId :: "32 word"
  sc_erased :: "'x task list"
  sc_comm :: "'i comm"

record ('x, 'i, 'p) policy =
  pl_acceptable :: "('x, 'i, 'p) sched_scheme \<Rightarrow> taskbag_msg \<Rightarrow> 32 word option"
  pl_reschedule :: "('x, 'i, 'p) sched_scheme \<Rightarrow> ('x, 'i, 'p) sched_scheme"
  pl_availability :: "('x, 'i, 'p) sched_scheme \<Rightarrow> 'i option"
  pl_setSeq :: "32 word \<Rightarrow> 'i \<Rightarrow> 'i"
  pl_accepted :: "'x task \<Rightarrow> ('x, 'i, 'p) sched_scheme \<Rightarrow> ('x, 'i, 'p) sched_scheme"
  pl_removed :: "'x task \<Rightarrow> ('x, 'i, 'p) sched_scheme \<Rightarrow> ('x, 'i, 'p) sched_scheme"

text \<open>The settings the schedulers read from the \<open>ConfigurationManager\<close>.\<close>

record sched_config =
  cfg_heartbeat :: int
  cfg_reschedule :: time
  cfg_requestTimeout :: time
  cfg_submitRetries :: int

definition mk_sched :: "'i comm \<Rightarrow> ('x, 'i) sched" where
  "mk_sched c = \<lparr>sc_father = null_addr, sc_tasks = [], sc_seq = 0, sc_inChange = False,
     sc_dirty = False, sc_reschTimer = 0, sc_monTimer = 0, sc_executed = 0, sc_maxQueue = 0,
     sc_maxPaused = 0, sc_nextId = 0, sc_erased = [], sc_comm = c\<rparr>"

abbreviation sc_now :: "('x, 'i, 'p) sched_scheme \<Rightarrow> time" where
  "sc_now s \<equiv> c_now (sc_comm s)"

definition sc_send :: "addr \<Rightarrow> 'i msg \<Rightarrow> ('x, 'i, 'p) sched_scheme \<Rightarrow> ('x, 'i, 'p) sched_scheme" where
  "sc_send a m s = s\<lparr>sc_comm := send_message a m (sc_comm s)\<rparr>"

section \<open>Timers and notification\<close>

definition reschedule_at :: "time \<Rightarrow> ('x, 'i, 'p) sched_scheme \<Rightarrow> ('x, 'i, 'p) sched_scheme" where
  "reschedule_at r s =
    (let c1 = (if sc_reschTimer s \<noteq> 0 then cancel_timer (sc_reschTimer s) (sc_comm s) else sc_comm s);
         (i, c2) = set_timer_at r MReschedule c1
     in s\<lparr>sc_reschTimer := i, sc_comm := c2\<rparr>)"

definition set_monitor_timer :: "sched_config \<Rightarrow> ('x, 'i, 'p) sched_scheme \<Rightarrow> ('x, 'i, 'p) sched_scheme" where
  "set_monitor_timer K s =
    (let (i, c) = set_timer_in (1000000 * cfg_heartbeat K) MMonitorTimer (sc_comm s)
     in s\<lparr>sc_monTimer := i, sc_comm := c\<rparr>)"

definition notify_schedule :: "('x, 'i, 'p) policy \<Rightarrow> ('x, 'i, 'p) sched_scheme \<Rightarrow> ('x, 'i, 'p) sched_scheme" where
  "notify_schedule P s =
    (if \<not> sc_inChange s \<and> sc_father s \<noteq> null_addr then
       (case pl_availability P s of
          None \<Rightarrow> s
        | Some a \<Rightarrow>
            (let s1 = s\<lparr>sc_seq := sc_seq s + 1\<rparr>
             in (sc_send (sc_father s1) (MAvail (pl_setSeq P (sc_seq s1) a)) s1)\<lparr>sc_dirty := False\<rparr>))
     else s\<lparr>sc_dirty := True\<rparr>)"

definition father_changing :: "('x, 'i, 'p) sched_scheme \<Rightarrow> ('x, 'i, 'p) sched_scheme" where
  "father_changing s = s\<lparr>sc_inChange := True\<rparr>"

definition father_changed :: "('x, 'i, 'p) policy \<Rightarrow> bool \<Rightarrow> ('x, 'i, 'p) sched_scheme \<Rightarrow> ('x, 'i, 'p) sched_scheme" where
  "father_changed P changed s =
    (let s1 = s\<lparr>sc_inChange := False\<rparr>;
         s2 = (if changed then s1\<lparr>sc_seq := 0, sc_dirty := True\<rparr> else s1)
     in if sc_dirty s2 then notify_schedule P s2 else s2)"

section \<open>The task queue\<close>

fun pause_all :: "('x, 'i) backend \<Rightarrow> 'x task list \<Rightarrow> 'i comm \<Rightarrow> 'x task list \<times> 'i comm" where
  "pause_all B [] c = ([], c)"
| "pause_all B (t # ts) c =
    (let (b, c1) = be_pause B t c;
         (ts', c2) = pause_all B ts c1
     in (t\<lparr>tk_body := b\<rparr> # ts', c2))"

definition count_paused :: "('x, 'i) backend \<Rightarrow> ('x, 'i, 'p) sched_scheme \<Rightarrow> ('x, 'i, 'p) sched_scheme" where
  "count_paused B s =
    (let n = of_nat (length (filter (\<lambda>t. be_paused B (tk_body t)) (sc_tasks s)))
     in if sc_maxPaused s < n then s\<lparr>sc_maxPaused := n\<rparr> else s)"

definition run_front :: "('x, 'i) backend \<Rightarrow> ('x, 'i, 'p) sched_scheme \<Rightarrow> ('x, 'i, 'p) sched_scheme" where
  "run_front B s =
    (case sc_tasks s of
       [] \<Rightarrow> s
     | t # ts \<Rightarrow>
        (let (ts', c1) = pause_all B ts (sc_comm s)
         in if be_status B (c_now c1) (tk_body t) = t_prepared
            then (let (b, c2) = be_run B t c1
                  in s\<lparr>sc_tasks := t\<lparr>tk_body := b\<rparr> # ts', sc_comm := c2\<rparr>)
            else s\<lparr>sc_tasks := t # ts', sc_comm := c1\<rparr>))"

definition switch_context :: "('x, 'i) backend \<Rightarrow> ('x, 'i, 'p) policy \<Rightarrow> ('x, 'i, 'p) sched_scheme \<Rightarrow> ('x, 'i, 'p) sched_scheme" where
  "switch_context B P s = count_paused B (run_front B (pl_reschedule P s))"

definition get_task :: "32 word \<Rightarrow> ('x, 'i, 'p) sched_scheme \<Rightarrow> 'x task option" where
  "get_task i s = find (\<lambda>t. tk_id t = i) (sc_tasks s)"

fun erase_first :: "('a \<Rightarrow> bool) \<Rightarrow> 'a list \<Rightarrow> 'a list" where
  "erase_first P [] = []"
| "erase_first P (x # xs) = (if P x then xs else x # erase_first P xs)"

definition remove_from_queue :: "('x, 'i, 'p) policy \<Rightarrow> 32 word \<Rightarrow> ('x, 'i, 'p) sched_scheme \<Rightarrow>
    'x task option \<times> ('x, 'i, 'p) sched_scheme" where
  "remove_from_queue P i s =
    (case get_task i s of
       None \<Rightarrow> (None, s)
     | Some t \<Rightarrow>
        (let s1 = pl_removed P t s
         in (Some t, s1\<lparr>sc_tasks := erase_first (\<lambda>t. tk_id t = i) (sc_tasks s1)\<rparr>)))"

definition create_task :: "('x, 'i) backend \<Rightarrow> taskbag_msg \<Rightarrow> 32 word \<Rightarrow> ('x, 'i, 'p) sched_scheme \<Rightarrow> 'x task" where
  "create_task B m i s = \<lparr>tk_id = sc_nextId s, tk_owner = tb_requester m, tk_request = tb_requestId m,
     tk_client = tb_firstTask m + i, tk_desc = tb_minReq m, tk_created = sc_now s,
     tk_body = be_create B (tb_minReq m)\<rparr>"

fun add_tasks :: "('x, 'i) backend \<Rightarrow> ('x, 'i, 'p) policy \<Rightarrow> taskbag_msg \<Rightarrow> 32 word \<Rightarrow> nat \<Rightarrow>
    ('x, 'i, 'p) sched_scheme \<Rightarrow> ('x, 'i, 'p) sched_scheme" where
  "add_tasks B P m i 0 s = s"
| "add_tasks B P m i (Suc n) s =
    (let t = create_task B m i s
     in add_tasks B P m (i + 1) n
       (pl_accepted P t (s\<lparr>sc_tasks := sc_tasks s @ [t], sc_nextId := sc_nextId s + 1\<rparr>)))"

definition accept_tasks :: "('x, 'i) backend \<Rightarrow> ('x, 'i, 'p) policy \<Rightarrow> taskbag_msg \<Rightarrow> ('x, 'i, 'p) sched_scheme \<Rightarrow>
    (32 word \<times> ('x, 'i, 'p) sched_scheme) option" where
  "accept_tasks B P m s = do {
     n \<leftarrow> pl_acceptable P s m;
     let s1 = add_tasks B P m 0 (unat n) s;
     let s2 = (if unat (sc_maxQueue s1) < length (sc_tasks s1)
               then s1\<lparr>sc_maxQueue := of_nat (length (sc_tasks s1))\<rparr> else s1);
     Some (n, if n \<noteq> 0 then switch_context B P s2 else s2)
   }"

section \<open>Handlers\<close>

definition sc_handle_state :: "('x, 'i) backend \<Rightarrow> ('x, 'i, 'p) policy \<Rightarrow> sched_config \<Rightarrow> addr \<Rightarrow>
    statechg_msg \<Rightarrow> ('x, 'i, 'p) sched_scheme \<Rightarrow> ('x, 'i, 'p) sched_scheme" where
  "sc_handle_state B P K src m s =
    (if src = c_local (sc_comm s) then
       (let s2 =
          (if sc_newState m = t_finished \<or> sc_newState m = t_aborted then
             (let s1 = (if sc_newState m = t_finished then s\<lparr>sc_executed := sc_executed s + 1\<rparr> else s)
              in case remove_from_queue P (sc_taskId m) s1 of
                   (None, s1) \<Rightarrow> s1
                 | (Some t, s1) \<Rightarrow> sc_send (tk_owner t)
                     (MMonitor ((mon_addTask (tk_request t) (tk_client t) (sc_newState m) mk_monitor)
                       \<lparr>mon_heartbeat := cfg_heartbeat K\<rparr>)) s1)
           else s)
        in notify_schedule P (switch_context B P s2))
     else s)"

definition check_static :: "('x, 'i) backend \<Rightarrow> task_desc \<Rightarrow> bool" where
  "check_static B d \<longleftrightarrow>
    \<not> be_memory B < ucast (td_maxMemory d) \<and> \<not> be_disk B < ucast (td_maxDisk d)"

definition sc_handle_bag :: "('x, 'i) backend \<Rightarrow> ('x, 'i, 'p) policy \<Rightarrow> sched_config \<Rightarrow> addr \<Rightarrow>
    taskbag_msg \<Rightarrow> ('x, 'i, 'p) sched_scheme \<Rightarrow> ('x, 'i, 'p) sched_scheme option" where
  "sc_handle_bag B P K src m s =
    (if tb_forEN m \<and> check_static B (tb_minReq m) then do {
       (n, s1) \<leftarrow> accept_tasks B P m s;
       (if n \<noteq> 0 then
          (let s2 = sc_send (tb_requester m)
                 (MAccept \<lparr>acc_requestId = tb_requestId m, acc_firstTask = tb_firstTask m,
                    acc_lastTask = tb_firstTask m + n - 1, acc_heartbeat = cfg_heartbeat K\<rparr>)
                 (notify_schedule P s1)
           in Some (if sc_monTimer s2 = 0 then set_monitor_timer K s2 else s2))
        else Some s1)
     } else Some s)"

definition sc_handle_reschedule :: "('x, 'i) backend \<Rightarrow> ('x, 'i, 'p) policy \<Rightarrow> ('x, 'i, 'p) sched_scheme \<Rightarrow>
    ('x, 'i, 'p) sched_scheme" where
  "sc_handle_reschedule B P s = notify_schedule P (switch_context B P (s\<lparr>sc_reschTimer := 0\<rparr>))"

definition is_client_task :: "int \<Rightarrow> 32 word \<Rightarrow> 'x task \<Rightarrow> bool" where
  "is_client_task r i t \<longleftrightarrow> tk_request t = r \<and> tk_client t = i"

text \<open>
  The queue holds shared pointers to the tasks, and a policy may hold others to the same tasks.
  \<open>sc_erased\<close> keeps the tasks that were aborted and erased from the queue as the abort left
  them; they are destroyed unless a policy still points at them.
\<close>

definition abort_one :: "('x, 'i) backend \<Rightarrow> int \<Rightarrow> 32 word \<Rightarrow> ('x, 'i, 'p) sched_scheme \<Rightarrow> ('x, 'i, 'p) sched_scheme" where
  "abort_one B r i s =
    (case find (is_client_task r i) (sc_tasks s) of
       None \<Rightarrow> s
     | Some t \<Rightarrow>
        (let (b, c) = be_abort B t (sc_comm s)
         in s\<lparr>sc_comm := c, sc_tasks := erase_first (is_client_task r i) (sc_tasks s),
              sc_erased := sc_erased s @ [t\<lparr>tk_body := b\<rparr>]\<rparr>))"

definition sc_handle_abort :: "('x, 'i) backend \<Rightarrow> ('x, 'i, 'p) policy \<Rightarrow> abort_msg \<Rightarrow>
    ('x, 'i, 'p) sched_scheme \<Rightarrow> ('x, 'i, 'p) sched_scheme" where
  "sc_handle_abort B P m s =
    notify_schedule P (switch_context B P (fold (abort_one B (ab_requestId m)) (ab_tasks m) s))"

text \<open>
  The reminders: one message per owner, in the order of the map (by address), holding the
  tasks of that owner in the order of the queue.
\<close>

definition reminder :: "('x, 'i) backend \<Rightarrow> sched_config \<Rightarrow> ('x, 'i, 'p) sched_scheme \<Rightarrow> addr \<Rightarrow> monitor_msg" where
  "reminder B K s a =
    (fold (\<lambda>t. mon_addTask (tk_request t) (tk_client t) (be_status B (sc_now s) (tk_body t)))
       (filter (\<lambda>t. tk_owner t = a) (sc_tasks s)) mk_monitor)\<lparr>mon_heartbeat := cfg_heartbeat K\<rparr>"

definition task_owners :: "'x task list \<Rightarrow> addr list" where
  "task_owners ts = sorted_list_of_set (set (map tk_owner ts))"

definition sc_handle_monitor :: "('x, 'i) backend \<Rightarrow> sched_config \<Rightarrow> ('x, 'i, 'p) sched_scheme \<Rightarrow>
    ('x, 'i, 'p) sched_scheme" where
  "sc_handle_monitor B K s =
    (if sc_tasks s \<noteq> [] then
       set_monitor_timer K
         (fold (\<lambda>a s'. sc_send a (MMonitor (reminder B K s a)) s') (task_owners (sc_tasks s)) s)
     else s\<lparr>sc_monTimer := 0\<rparr>)"

definition sc_receive :: "('x, 'i) backend \<Rightarrow> ('x, 'i, 'p) policy \<Rightarrow> sched_config \<Rightarrow>
    ('x, 'i, 'p) sched_scheme \<Rightarrow> addr \<Rightarrow> 'i msg \<Rightarrow> (bool \<times> ('x, 'i, 'p) sched_scheme) option" where
  "sc_receive B P K s src m =
    (case m of
       MTaskBag tm \<Rightarrow> map_option (Pair True) (sc_handle_bag B P K src tm s)
     | MStateChg sm \<Rightarrow> Some (True, sc_handle_state B P K src sm s)
     | MReschedule \<Rightarrow> Some (True, sc_handle_reschedule B P s)
     | MAbort am \<Rightarrow> Some (True, sc_handle_abort B P am s)
     | MMonitorTimer \<Rightarrow> Some (True, sc_handle_monitor B K s)
     | _ \<Rightarrow> Some (False, s))"

end
