(* ===== verification/Ibp_Info.thy ===== *)
theory Ibp_Info
  imports Comm_Layer
begin

unbundle bit_operations_syntax

text \<open>
  \<open>include/Interval.hpp\<close>, \<open>include/ScalarParameter.hpp\<close>, \<open>include/AvailabilityInformation.hpp\<close>
  and \<open>include/IBPAvailabilityInformation.hpp\<close>: the summary of free nodes that the policy
  without deadlines sends up the tree. The templates are at their instance \<open>int32_t\<close>, with
  64-bit sums; signed overflow, undefined in the source, wraps. \<open>ClusteringList::cluster\<close>,
  which joins clusters of a long summary, is the argument \<open>clust\<close> of \<open>reduce\<close>: it is given the
  two ranges that the distances are relative to.
\<close>

section \<open>Intervals\<close>

record interval =
  iv_min :: "32 word"
  iv_max :: "32 word"

definition iv_default :: interval where
  "iv_default = \<lparr>iv_min = 0, iv_max = 0\<rparr>"

definition iv_point :: "32 word \<Rightarrow> interval" where
  "iv_point i = \<lparr>iv_min = i, iv_max = i\<rparr>"

definition iv_setLimits :: "32 word \<Rightarrow> interval \<Rightarrow> interval" where
  "iv_setLimits v r = r\<lparr>iv_min := v, iv_max := v\<rparr>"

definition iv_setMinimum :: "32 word \<Rightarrow> interval \<Rightarrow> interval" where
  "iv_setMinimum v r = (let r1 = r\<lparr>iv_min := v\<rparr> in if iv_max r1 <s v then r1\<lparr>iv_max := v\<rparr> else r1)"

definition iv_setMaximum :: "32 word \<Rightarrow> interval \<Rightarrow> interval" where
  "iv_setMaximum v r = (let r1 = r\<lparr>iv_max := v\<rparr> in if v <s iv_min r1 then r1\<lparr>iv_min := v\<rparr> else r1)"

definition iv_extent :: "interval \<Rightarrow> 32 word" where
  "iv_extent r = iv_max r - iv_min r"

definition iv_empty :: "interval \<Rightarrow> bool" where
  "iv_empty r \<longleftrightarrow> iv_min r = iv_max r"

definition iv_extend :: "interval \<Rightarrow> interval \<Rightarrow> interval" where
  "iv_extend r o' = r\<lparr>iv_min := (if iv_min o' <s iv_min r then iv_min o' else iv_min r),
     iv_max := (if iv_max r <s iv_max o' then iv_max o' else iv_max r)\<rparr>"

definition iv_extend_value :: "32 word \<Rightarrow> interval \<Rightarrow> interval" where
  "iv_extend_value v r = r\<lparr>iv_min := (if v <s iv_min r then v else iv_min r),
     iv_max := (if iv_max r <s v then v else iv_max r)\<rparr>"

section \<open>Minimum parameters\<close>

record min_param =
  mp_parameter :: "32 word"
  mp_mse :: "64 word"
  mp_linear :: "64 word"

definition mk_param :: "32 word \<Rightarrow> min_param" where
  "mk_param p = \<lparr>mp_parameter = p, mp_mse = 0, mp_linear = 0\<rparr>"

definition mp_reduce :: "32 word \<Rightarrow> 32 word \<Rightarrow> 32 word" where
  "mp_reduce p r = (if p <s r then p else r)"

definition mp_aggregate :: "64 word \<Rightarrow> min_param \<Rightarrow> 64 word \<Rightarrow> min_param \<Rightarrow> min_param" where
  "mp_aggregate n r k p =
    (let q = mp_reduce (mp_parameter p) (mp_parameter r);
         d = scast (q - mp_parameter p) :: 64 word;
         e = scast (q - mp_parameter r) :: 64 word
     in p\<lparr>mp_mse := mp_mse p + (n * d * d + 2 * d * mp_linear p + mp_mse r + k * e * e
            + 2 * e * mp_linear r),
          mp_linear := mp_linear p + (n * d + mp_linear r + k * e),
          mp_parameter := q\<rparr>)"

section \<open>Clusters of nodes\<close>

record md_cluster =
  md_value :: "32 word"
  md_minM :: min_param
  md_minD :: min_param

definition mk_cluster :: "32 word \<Rightarrow> 32 word \<Rightarrow> md_cluster" where
  "mk_cluster m d = \<lparr>md_value = 1, md_minM = mk_param m, md_minD = mk_param d\<rparr>"

definition md_eq :: "md_cluster \<Rightarrow> md_cluster \<Rightarrow> bool" where
  "md_eq c r \<longleftrightarrow> md_minM c = md_minM r \<and> md_minD c = md_minD r \<and> md_value c = md_value r"

definition md_aggregate :: "md_cluster \<Rightarrow> md_cluster \<Rightarrow> md_cluster" where
  "md_aggregate c r = c\<lparr>
     md_minM := mp_aggregate (ucast (md_value c)) (md_minM r) (ucast (md_value r)) (md_minM c),
     md_minD := mp_aggregate (ucast (md_value c)) (md_minD r) (ucast (md_value r)) (md_minD c),
     md_value := md_value c + md_value r\<rparr>"

definition md_remainingMemory :: "32 word \<Rightarrow> md_cluster \<Rightarrow> 32 word" where
  "md_remainingMemory m c = mp_parameter (md_minM c) - m"

definition md_remainingDisk :: "32 word \<Rightarrow> md_cluster \<Rightarrow> 32 word" where
  "md_remainingDisk d c = mp_parameter (md_minD c) - d"

text \<open>The comparison of an \<open>int32_t\<close> with a \<open>uint32_t\<close> is unsigned.\<close>

definition md_fulfills :: "task_desc \<Rightarrow> md_cluster \<Rightarrow> bool" where
  "md_fulfills req c \<longleftrightarrow> td_maxMemory req \<le> mp_parameter (md_minM c)
     \<and> td_maxDisk req \<le> mp_parameter (md_minD c)"

definition md_takeUpToNodes :: "32 word \<Rightarrow> md_cluster \<Rightarrow> 32 word \<times> md_cluster" where
  "md_takeUpToNodes n c =
    (if md_value c < n then (n - md_value c, c\<lparr>md_value := 0\<rparr>)
     else (0, c\<lparr>md_value := md_value c - n\<rparr>))"

section \<open>Availability information\<close>

record ibp_info =
  ii_seq :: "32 word"
  ii_fromSch :: bool
  ii_summary :: "md_cluster list"
  ii_memory :: interval
  ii_disk :: interval

definition mk_ibp :: ibp_info where
  "mk_ibp = \<lparr>ii_seq = 0, ii_fromSch = True, ii_summary = [], ii_memory = iv_default,
     ii_disk = iv_default\<rparr>"

definition ii_setSeq :: "32 word \<Rightarrow> ibp_info \<Rightarrow> ibp_info" where
  "ii_setSeq n i = i\<lparr>ii_seq := n\<rparr>"

definition ii_setFromSch :: "bool \<Rightarrow> ibp_info \<Rightarrow> ibp_info" where
  "ii_setFromSch f i = i\<lparr>ii_fromSch := f\<rparr>"

definition ii_reset :: "ibp_info \<Rightarrow> ibp_info" where
  "ii_reset i = i\<lparr>ii_summary := [], ii_memory := iv_setLimits 0 (ii_memory i),
     ii_disk := iv_setLimits 0 (ii_disk i)\<rparr>"

definition ii_join :: "ibp_info \<Rightarrow> ibp_info \<Rightarrow> ibp_info" where
  "ii_join r i =
    (if ii_summary r \<noteq> [] then
       (let i1 = (if ii_summary i = [] then i\<lparr>ii_memory := ii_memory r, ii_disk := ii_disk r\<rparr>
                  else i\<lparr>ii_memory := iv_extend (ii_memory i) (ii_memory r),
                         ii_disk := iv_extend (ii_disk i) (ii_disk r)\<rparr>)
        in i1\<lparr>ii_summary := ii_summary i1 @ ii_summary r\<rparr>)
     else i)"

type_synonym clustering = "interval \<Rightarrow> interval \<Rightarrow> md_cluster list \<Rightarrow> md_cluster list"

definition ii_reduce :: "clustering \<Rightarrow> ibp_info \<Rightarrow> ibp_info" where
  "ii_reduce clust i = i\<lparr>ii_summary := clust (ii_memory i) (ii_disk i) (ii_summary i)\<rparr>"

definition ii_eq :: "ibp_info \<Rightarrow> ibp_info \<Rightarrow> bool" where
  "ii_eq i r \<longleftrightarrow> list_all2 md_eq (ii_summary r) (ii_summary i)"

text \<open>\<open>getAvailability\<close> returns pointers into the summary: positions.\<close>

definition ii_getAvailability :: "task_desc \<Rightarrow> ibp_info \<Rightarrow> nat list" where
  "ii_getAvailability req i =
     filter (\<lambda>k. md_fulfills req (ii_summary i ! k)) [0..<length (ii_summary i)]"

definition ii_updated :: "ibp_info \<Rightarrow> ibp_info" where
  "ii_updated i = i\<lparr>ii_summary := filter (\<lambda>c. md_value c \<noteq> 0) (ii_summary i)\<rparr>"

definition ii_addNode :: "32 word \<Rightarrow> 32 word \<Rightarrow> ibp_info \<Rightarrow> ibp_info" where
  "ii_addNode mem disk i =
    (let i1 = (if ii_summary i = []
               then i\<lparr>ii_memory := iv_setLimits mem (ii_memory i),
                      ii_disk := iv_setLimits disk (ii_disk i)\<rparr>
               else i\<lparr>ii_memory := iv_extend_value mem (ii_memory i),
                      ii_disk := iv_extend_value disk (ii_disk i)\<rparr>)
     in i1\<lparr>ii_summary := ii_summary i1 @ [mk_cluster mem disk]\<rparr>)"

section \<open>Facts\<close>

text \<open>The ranges of a summary cover the parameters of all its clusters, in signed order.\<close>

definition iv_in :: "32 word \<Rightarrow> interval \<Rightarrow> bool" where
  "iv_in v r \<longleftrightarrow> iv_min r \<le>s v \<and> v \<le>s iv_max r"

definition ii_covered :: "ibp_info \<Rightarrow> bool" where
  "ii_covered i \<longleftrightarrow> list_all (\<lambda>c. iv_in (mp_parameter (md_minM c)) (ii_memory i)
     \<and> iv_in (mp_parameter (md_minD c)) (ii_disk i)) (ii_summary i)"

lemma iv_extend_in: "iv_in v r \<or> iv_in v q \<Longrightarrow> iv_in v (iv_extend r q)"
  by (auto simp: iv_in_def iv_extend_def word_sless_alt word_sle_eq)

lemma iv_extend_value_in: "v = w \<or> iv_in v r \<Longrightarrow> iv_min r \<le>s iv_max r \<Longrightarrow> iv_in v (iv_extend_value w r)"
  by (auto simp: iv_in_def iv_extend_value_def word_sless_alt word_sle_eq)

lemma ii_covered_join: "ii_covered r \<Longrightarrow> ii_covered i \<Longrightarrow> ii_covered (ii_join r i)"
  by (auto simp: ii_covered_def ii_join_def list_all_iff iv_extend_in Let_def)

lemma md_eq_iff [simp]: "md_eq c r \<longleftrightarrow> c = r"
  by (auto simp: md_eq_def)

lemma ii_eq_iff: "ii_eq i r \<longleftrightarrow> ii_summary i = ii_summary r"
proof -
  have "list_all2 md_eq xs ys \<longleftrightarrow> xs = ys" for xs ys
    by (induction xs ys rule: list_induct2') auto
  then show ?thesis by (auto simp: ii_eq_def)
qed

definition total_nodes :: "md_cluster list \<Rightarrow> nat" where
  "total_nodes cs = (\<Sum>c \<leftarrow> cs. unat (md_value c))"

lemma take_nodes_sum:
  "md_takeUpToNodes n c = (left, c') \<Longrightarrow>
    unat n = unat left + (unat (md_value c) - unat (md_value c')) \<and> md_value c' \<le> md_value c
    \<and> (left = 0 \<or> md_value c' = 0)"
  by (auto simp: md_takeUpToNodes_def unat_sub word_less_nat_alt word_le_nat_alt not_less split: if_splits)

end
