(* ===== verification/Sched_Policies.thy ===== *)
theory Sched_Policies
  imports Scheduler Ibp_Info
begin

text \<open>
  The simulated task (\<open>src/oldsim/SimTask.cpp\<close>) as a backend, and the policies
  \<open>IBPScheduler.cpp\<close> (one slot), \<open>MMPScheduler.cpp\<close> (first come, first served) and
  \<open>DPScheduler.cpp\<close> (earliest deadline first). Durations are microseconds; the \<open>double\<close> results
  of the source are exact rationals here, truncated where the source converts to an integer.
  The availability information of the last two policies is an argument of them.
\<close>

section \<open>Simulated tasks\<close>

record sim_body =
  st_timer :: int
  st_duration :: int
  st_finish :: time

definition sim_create :: "rat \<Rightarrow> task_desc \<Rightarrow> sim_body" where
  "sim_create pw d = \<lparr>st_timer = -1,
     st_duration = \<lfloor>of_nat (unat (td_length d)) / pw * 1000000\<rfloor>, st_finish = 0\<rparr>"

definition sim_status :: "time \<Rightarrow> sim_body \<Rightarrow> int" where
  "sim_status now b =
    (if st_timer b = -1 then t_prepared else if now < st_finish b then t_running else t_finished)"

definition sim_estimate :: "time \<Rightarrow> sim_body \<Rightarrow> int" where
  "sim_estimate now b =
    (if st_timer b = -1 then st_duration b
     else if now < st_finish b then st_finish b - now else 0)"

definition sim_run :: "sim_body task \<Rightarrow> 'i comm \<Rightarrow> sim_body \<times> 'i comm" where
  "sim_run t c =
    (let b = tk_body t
     in if st_timer b = -1 then
          (let (i, c1) = set_timer_in (st_duration b) (MStateChg \<lparr>sc_taskId = tk_id t,
                 sc_oldState = t_running, sc_newState = t_finished\<rparr>) c
           in (b\<lparr>st_timer := i, st_finish := c_now c1 + st_duration b\<rparr>, c1))
        else (b, c))"

definition sim_pause :: "sim_body task \<Rightarrow> 'i comm \<Rightarrow> sim_body \<times> 'i comm" where
  "sim_pause t c =
    (let b = tk_body t
     in if st_timer b \<noteq> -1 \<and> c_now c < st_finish b
        then (b\<lparr>st_duration := sim_estimate (c_now c) b, st_timer := -1\<rparr>, cancel_timer (st_timer b) c)
        else (b, c))"

definition sim_paused :: "sim_body \<Rightarrow> bool" where
  "sim_paused b \<longleftrightarrow> st_timer b = -1 \<and> st_finish b \<noteq> 0"

definition sim_abort :: "sim_body task \<Rightarrow> 'i comm \<Rightarrow> sim_body \<times> 'i comm" where
  "sim_abort t c =
    (let b = tk_body t
     in if st_timer b \<noteq> -1 \<and> c_now c < st_finish b
        then (b\<lparr>st_timer := -1\<rparr>, cancel_timer (st_timer b) c) else (b, c))"

definition sim_backend :: "rat \<Rightarrow> 64 word \<Rightarrow> 64 word \<Rightarrow> (sim_body, 'i) backend" where
  "sim_backend pw mem disk = \<lparr>be_power = pw, be_memory = mem, be_disk = disk,
     be_create = sim_create pw, be_status = sim_status, be_run = sim_run,
     be_pause = sim_pause, be_abort = sim_abort, be_paused = sim_paused,
     be_estimate = (\<lambda>now t. sim_estimate now (tk_body t))\<rparr>"

section \<open>One slot\<close>

definition ibp_acceptable :: "('x, 'i, 'p) sched_scheme \<Rightarrow> taskbag_msg \<Rightarrow> 32 word option" where
  "ibp_acceptable s m =
    Some (if sc_tasks s = [] \<and> tb_firstTask m \<le> tb_lastTask m then 1 else 0)"

definition ibp_availability :: "('x, ibp_info) backend \<Rightarrow> ('x, ibp_info, 'p) sched_scheme \<Rightarrow> ibp_info option" where
  "ibp_availability B s =
    Some (if sc_tasks s = [] then ii_addNode (ucast (be_memory B)) (ucast (be_disk B)) mk_ibp else mk_ibp)"

definition ibp_policy :: "('x, ibp_info) backend \<Rightarrow> ('x, ibp_info, 'p) policy" where
  "ibp_policy B = \<lparr>pl_acceptable = ibp_acceptable, pl_reschedule = (\<lambda>s. s),
     pl_availability = ibp_availability B, pl_setSeq = ii_setSeq,
     pl_accepted = (\<lambda>t s. s), pl_removed = (\<lambda>t s. s)\<rparr>"

section \<open>First come, first served\<close>

definition compare_creation :: "'x task \<Rightarrow> 'x task \<Rightarrow> bool" where
  "compare_creation l r \<longleftrightarrow> tk_created l < tk_created r"

definition mmp_reschedule :: "('x, 'i, 'p) sched_scheme \<Rightarrow> ('x, 'i, 'p) sched_scheme" where
  "mmp_reschedule s =
    (if sc_tasks s \<noteq> [] then s\<lparr>sc_tasks := std_sort compare_creation (sc_tasks s)\<rparr> else s)"

definition mmp_acceptable :: "('x, 'i, 'p) sched_scheme \<Rightarrow> taskbag_msg \<Rightarrow> 32 word option" where
  "mmp_acceptable s m = Some (tb_lastTask m - tb_firstTask m + 1)"

definition mmp_queue_end :: "('x, 'i) backend \<Rightarrow> ('x, 'i, 'p) sched_scheme \<Rightarrow> time" where
  "mmp_queue_end B s = fold (\<lambda>t e. e + be_estimate B (sc_now s) t) (sc_tasks s) (sc_now s)"

definition mmp_policy :: "('x, 'i) backend \<Rightarrow> (time \<Rightarrow> 'i) \<Rightarrow> (32 word \<Rightarrow> 'i \<Rightarrow> 'i) \<Rightarrow> ('x, 'i, 'p) policy" where
  "mmp_policy B info setSeq = \<lparr>pl_acceptable = mmp_acceptable, pl_reschedule = mmp_reschedule,
     pl_availability = (\<lambda>s. Some (info (mmp_queue_end B s))), pl_setSeq = setSeq,
     pl_accepted = (\<lambda>t s. s), pl_removed = (\<lambda>t s. s)\<rparr>"

section \<open>Earliest deadline first\<close>

abbreviation tk_deadline :: "'x task \<Rightarrow> time" where
  "tk_deadline t \<equiv> td_deadline (tk_desc t)"

definition compare_deadline :: "('x, 'i) backend \<Rightarrow> time \<Rightarrow> 'x task \<Rightarrow> 'x task \<Rightarrow> bool" where
  "compare_deadline B now l r \<longleftrightarrow> be_status B now (tk_body l) = t_running
     \<or> (be_status B now (tk_body r) \<noteq> t_running \<and> tk_deadline l < tk_deadline r)"

definition dp_reschedule :: "('x, 'i) backend \<Rightarrow> sched_config \<Rightarrow> ('x, 'i, 'p) sched_scheme \<Rightarrow> ('x, 'i, 'p) sched_scheme" where
  "dp_reschedule B K s =
    (let s1 = s\<lparr>sc_tasks := std_sort (compare_deadline B (sc_now s)) (sc_tasks s)\<rparr>
     in if sc_tasks s1 \<noteq> [] then reschedule_at (sc_now s1 + cfg_reschedule K) s1 else s1)"

fun before_loop :: "('x, 'i) backend \<Rightarrow> time \<Rightarrow> time \<Rightarrow> time \<Rightarrow> 'x task list \<Rightarrow> time \<times> 'x task list" where
  "before_loop B now d start [] = (start, [])"
| "before_loop B now d start (t # ts) =
    (if tk_deadline t \<le> d then before_loop B now d (start + be_estimate B now t) ts
     else (start, t # ts))"

text \<open>The second loop runs from the back of the queue, down to but not including its front.\<close>

fun limit_loop :: "('x, 'i) backend \<Rightarrow> time \<Rightarrow> time \<Rightarrow> time \<Rightarrow> 'x task list \<Rightarrow> time" where
  "limit_loop B now d limit [] = limit"
| "limit_loop B now d limit (t # ts) =
    (if d < tk_deadline t
     then limit_loop B now d (min limit (tk_deadline t) - be_estimate B now t) ts
     else limit)"

definition dp_available_before :: "('x, 'i) backend \<Rightarrow> time \<Rightarrow> ('x, 'i, 'p) sched_scheme \<Rightarrow> 64 word" where
  "dp_available_before B d s =
    (let now = sc_now s;
         (start, fin) =
          (case sc_tasks s of
             [] \<Rightarrow> (now, d)
           | t # ts \<Rightarrow>
              (let (start, rest) = before_loop B now d (now + be_estimate B now t) ts
               in if rest \<noteq> []
                  then (start, min d (limit_loop B now d (tk_deadline (last (t # ts))) (rev ts)))
                  else (start, d)))
     in if fin < start then 0 else of_int \<lfloor>be_power B * (of_int (fin - start) / 1000000)\<rfloor>)"

definition dp_acceptable :: "('x, 'i) backend \<Rightarrow> ('x, 'i, 'p) sched_scheme \<Rightarrow> taskbag_msg \<Rightarrow> 32 word option" where
  "dp_acceptable B s m =
    (if td_length (tb_minReq m) = 0 then None
     else
       (let available = ucast (dp_available_before B (td_deadline (tb_minReq m)) s) :: 32 word;
            numSlots = ucast ((ucast available :: 64 word) div td_length (tb_minReq m)) :: 32 word;
            numTasks = tb_lastTask m - tb_firstTask m + 1
        in Some (if numSlots < numTasks then numSlots else numTasks)))"

definition dp_policy :: "('x, 'i) backend \<Rightarrow> sched_config \<Rightarrow> (('x, 'i, 'p) sched_scheme \<Rightarrow> 'i) \<Rightarrow>
    (32 word \<Rightarrow> 'i \<Rightarrow> 'i) \<Rightarrow> ('x, 'i, 'p) policy" where
  "dp_policy B K info setSeq = \<lparr>pl_acceptable = dp_acceptable B, pl_reschedule = dp_reschedule B K,
     pl_availability = (\<lambda>s. Some (info s)), pl_setSeq = setSeq,
     pl_accepted = (\<lambda>t s. s), pl_removed = (\<lambda>t s. s)\<rparr>"

section \<open>The contract of a backend\<close>

text \<open>
  What the scheduler relies on: a task that is paused does not run, one that is run is no longer
  waiting to be, and neither moves the clock.
\<close>

locale task_backend =
  fixes B :: "('x, 'i) backend"
  assumes pause_stops: "be_status B (c_now c) (fst (be_pause B t c)) \<noteq> t_running"
    and pause_now: "c_now (snd (be_pause B t c)) = c_now c"
    and pause_ids: "c_timerId (snd (be_pause B t c)) = c_timerId c"
    and run_starts: "0 \<le> c_timerId c \<Longrightarrow> be_status B (c_now c) (fst (be_run B t c)) \<noteq> t_prepared"
    and run_now: "c_now (snd (be_run B t c)) = c_now c"
begin

lemma pause_all_result:
  "pause_all B ts c = (ts', c') \<Longrightarrow>
    c_now c' = c_now c \<and> c_timerId c' = c_timerId c \<and> map tk_id ts' = map tk_id ts
    \<and> list_all (\<lambda>t. be_status B (c_now c) (tk_body t) \<noteq> t_running) ts'"
proof (induction ts arbitrary: c ts' c')
  case Nil
  then show ?case by simp
next
  case (Cons t ts)
  obtain us c1 where us: "pause_all B ts (snd (be_pause B t c)) = (us, c1)" by fastforce
  from Cons.IH [OF us] Cons.prems us show ?case
    by (auto simp: Let_def case_prod_beta pause_now pause_ids pause_stops)
qed

lemma run_front_result:
  assumes "0 \<le> c_timerId (sc_comm s)"
  shows "map tk_id (sc_tasks (run_front B s)) = map tk_id (sc_tasks s) \<and> sc_now (run_front B s) = sc_now s
    \<and> list_all (\<lambda>t. be_status B (sc_now s) (tk_body t) \<noteq> t_running) (tl (sc_tasks (run_front B s)))
    \<and> list_all (\<lambda>t. be_status B (sc_now s) (tk_body t) \<noteq> t_prepared) (take 1 (sc_tasks (run_front B s)))"
proof (cases "sc_tasks s")
  case Nil
  then show ?thesis by (simp add: run_front_def)
next
  case (Cons t ts)
  obtain us c1 where us: "pause_all B ts (sc_comm s) = (us, c1)" by fastforce
  note p = pause_all_result [OF us]
  have "be_status B (c_now c1) (fst (be_run B t c1)) \<noteq> t_prepared"
    by (rule run_starts) (use p assms in simp)
  with p Cons us show ?thesis
    by (auto simp: run_front_def Let_def case_prod_beta run_now)
qed

lemma switch_context_result:
  assumes "0 \<le> c_timerId (sc_comm (pl_reschedule P s))"
  shows "let s' = switch_context B P s in
    map tk_id (sc_tasks s') = map tk_id (sc_tasks (pl_reschedule P s))
    \<and> list_all (\<lambda>t. be_status B (sc_now s') (tk_body t) \<noteq> t_running) (tl (sc_tasks s'))
    \<and> list_all (\<lambda>t. be_status B (sc_now s') (tk_body t) \<noteq> t_prepared) (take 1 (sc_tasks s'))"
  using run_front_result [OF assms] by (simp add: switch_context_def count_paused_def Let_def)

end

interpretation sim_tasks: task_backend "sim_backend pw mem disk" for pw mem disk
proof unfold_locales
  fix c :: "'i comm" and t
  show "be_status (sim_backend pw mem disk) (c_now c) (fst (be_pause (sim_backend pw mem disk) t c)) \<noteq> t_running"
    by (simp add: sim_backend_def sim_pause_def sim_status_def Let_def)
  show "c_now (snd (be_pause (sim_backend pw mem disk) t c)) = c_now c"
    "c_timerId (snd (be_pause (sim_backend pw mem disk) t c)) = c_timerId c"
    by (simp_all add: sim_backend_def sim_pause_def Let_def cancel_timer_def)
  show "be_status (sim_backend pw mem disk) (c_now c) (fst (be_run (sim_backend pw mem disk) t c)) \<noteq> t_prepared"
    if "0 \<le> c_timerId c"
    using that by (simp add: sim_backend_def sim_run_def sim_status_def set_timer_in_def
        set_timer_impl_def Let_def case_prod_beta)
  show "c_now (snd (be_run (sim_backend pw mem disk) t c)) = c_now c"
    by (simp add: sim_backend_def sim_run_def Let_def case_prod_beta)
qed


end
