(* ===== verification/Sched_Props.thy ===== *)
theory Sched_Props
  imports Sched_Policies
begin

text \<open>What the scheduler guarantees with each policy, and what it reports to the owners of tasks.\<close>

definition example_task :: "32 word \<Rightarrow> time \<Rightarrow> sim_body task" where
  "example_task i dl = \<lparr>tk_id = i, tk_owner = Addr 5 1, tk_request = 1, tk_client = i,
     tk_desc = mk_task_desc\<lparr>td_length := 1000, td_deadline := dl\<rparr>, tk_created = 0,
     tk_body = sim_create 1000 (mk_task_desc\<lparr>td_length := 1000\<rparr>)\<rparr>"

definition example_sched :: "(sim_body, ibp_info) sched" where
  "example_sched = (mk_sched \<lparr>c_local = Addr 1 1, c_now = 10, c_queue = [], c_net = [],
       c_timers = [], c_timerId = 0, c_rand = (\<lambda>n. 7), c_drawn = 0, c_exit = False\<rparr>)
     \<lparr>sc_tasks := [example_task 1 90, example_task 2 50]\<rparr>"

abbreviation example_backend :: "(sim_body, ibp_info) backend" where
  "example_backend \<equiv> sim_backend 1000 100 100"

definition example_config :: sched_config where
  "example_config = \<lparr>cfg_heartbeat = 30, cfg_reschedule = 60, cfg_requestTimeout = 30,
     cfg_submitRetries = 3\<rparr>"


section \<open>The policy with one slot\<close>

lemma length_pause_all: "length (fst (pause_all B ts c)) = length ts"
  by (induction ts arbitrary: c) (simp_all add: Let_def case_prod_beta)

lemma run_front_length [simp]: "length (sc_tasks (run_front B s)) = length (sc_tasks s)"
  by (auto simp: run_front_def Let_def case_prod_beta length_pause_all split: list.split)

lemma count_paused_tasks [simp]: "sc_tasks (count_paused B s) = sc_tasks s"
  by (simp add: count_paused_def Let_def)

lemma ibp_switch_length [simp]:
  "length (sc_tasks (switch_context B (ibp_policy B') s)) = length (sc_tasks s)"
  by (simp add: switch_context_def ibp_policy_def)

lemma small_tasks [simp]:
  "sc_tasks (sc_send a m s) = sc_tasks s" "sc_tasks (notify_schedule P s) = sc_tasks s"
  "sc_tasks (set_monitor_timer K s) = sc_tasks s"
  by (auto simp: sc_send_def notify_schedule_def set_monitor_timer_def Let_def case_prod_beta
      split: option.split)

lemma length_erase_first: "length (erase_first P xs) \<le> length xs"
  by (induction xs) auto

lemma abort_length: "length (sc_tasks (fold (abort_one B r) is s)) \<le> length (sc_tasks s)"
proof (induction "is" arbitrary: s)
  case Nil
  then show ?case by simp
next
  case (Cons i "is")
  have "length (sc_tasks (abort_one B r i s)) \<le> length (sc_tasks s)"
    by (auto simp: abort_one_def length_erase_first Let_def case_prod_beta split: option.split)
  with Cons [of "abort_one B r i s"] show ?case by simp
qed

lemma remove_length:
  "remove_from_queue (ibp_policy B) i s = (r, s') \<Longrightarrow> length (sc_tasks s') \<le> length (sc_tasks s)"
  by (auto simp: remove_from_queue_def ibp_policy_def length_erase_first split: option.splits)

lemma ibp_state_length:
  "length (sc_tasks (sc_handle_state B (ibp_policy B') K src m s)) \<le> length (sc_tasks s)"
  by (auto simp: sc_handle_state_def Let_def split: prod.split option.split dest: remove_length)

lemma ibp_accept_length:
  assumes "accept_tasks B (ibp_policy B') m s = Some (n, s')" and "length (sc_tasks s) \<le> 1"
  shows "length (sc_tasks s') \<le> 1"
proof -
  have fields: "pl_acceptable (ibp_policy B') = ibp_acceptable" "pl_accepted (ibp_policy B') = (\<lambda>t s. s)"
    by (simp_all add: ibp_policy_def)
  show ?thesis
    using assms by (auto simp: accept_tasks_def fields ibp_acceptable_def Let_def split: if_splits)
qed

lemma reminders_tasks:
  "sc_tasks (fold (\<lambda>a s'. sc_send a (f a) s') as s) = sc_tasks s"
  by (induction as arbitrary: s) simp_all

text \<open>
  The policy with one slot keeps at most one task: no message, whatever it asks, makes a node
  with at most one task queue a second one.
\<close>

theorem ibp_one_slot:
  assumes "sc_receive B (ibp_policy B) K s src m = Some (b, s')" and "length (sc_tasks s) \<le> 1"
  shows "length (sc_tasks s') \<le> 1"
proof (cases m)
  case (MTaskBag tm)
  with assms show ?thesis
    by (auto simp: sc_receive_def sc_handle_bag_def bind_Some_iff Let_def dest: ibp_accept_length
        split: if_splits)
next
  case (MStateChg sm)
  with assms ibp_state_length [of B B K src sm s] show ?thesis
    by (auto simp: sc_receive_def)
next
  case (MAbort am)
  with assms abort_length [of B "ab_requestId am" "ab_tasks am" s] show ?thesis
    by (auto simp: sc_receive_def sc_handle_abort_def)
next
  case MReschedule
  with assms show ?thesis by (auto simp: sc_receive_def sc_handle_reschedule_def)
next
  case MMonitorTimer
  with assms show ?thesis
    by (auto simp: sc_receive_def sc_handle_monitor_def reminders_tasks)
qed (use assms in \<open>auto simp: sc_receive_def\<close>)

theorem ibp_one_slot_witness:
  "let s = example_sched\<lparr>sc_tasks := [example_task 1 90]\<rparr>
   in length (sc_tasks (snd (the (sc_receive example_backend (ibp_policy example_backend)
        example_config s (Addr 9 1) MReschedule)))) \<le> 1"
proof -
  let ?s = "example_sched\<lparr>sc_tasks := [example_task 1 90]\<rparr>"
  obtain s' where r: "sc_receive example_backend (ibp_policy example_backend) example_config ?s
      (Addr 9 1) MReschedule = Some (True, s')"
    by (simp add: sc_receive_def)
  from ibp_one_slot [OF r] show ?thesis by (simp add: r)
qed

section \<open>Earliest deadline first\<close>

definition deadline_le :: "('x, 'i) backend \<Rightarrow> time \<Rightarrow> 'x task \<Rightarrow> 'x task \<Rightarrow> bool" where
  "deadline_le B now l r \<longleftrightarrow> be_status B now (tk_body l) = t_running
     \<or> (be_status B now (tk_body r) \<noteq> t_running \<and> tk_deadline l \<le> tk_deadline r)"

interpretation deadline_order: sort_order "compare_deadline B now" "deadline_le B now" for B now
  by unfold_locales (auto simp: compare_deadline_def deadline_le_def)

interpretation creation_order: weak_order "compare_creation"
  unfolding compare_creation_def by (rule weak_order_key)

lemma mmp_keeps_order:
  "sorted_wrt (\<lambda>a b. \<not> compare_creation b a) (sc_tasks s) \<Longrightarrow> mmp_reschedule s = s"
  by (simp add: mmp_reschedule_def creation_order.sort_fixed)

lemma reschedule_at_one:
  assumes "timers_ok (sc_comm s)" and "sc_now s \<le> r"
    and "\<forall>j t. pending_timers (sc_comm s) j = Some (t, MReschedule) \<longrightarrow> j = sc_reschTimer s"
  shows "\<forall>j t. pending_timers (sc_comm (reschedule_at r s)) j = Some (t, MReschedule) \<longleftrightarrow>
      j = sc_reschTimer (reschedule_at r s) \<and> t = r"
proof -
  let ?c = "if sc_reschTimer s \<noteq> 0 then cancel_timer (sc_reschTimer s) (sc_comm s) else sc_comm s"
  have zero: "pending_timers (sc_comm s) 0 = None"
    using comm_timers.set_fresh [OF assms(1)] assms(1)
    by (auto simp: timers_ok_def pending_timers_def map_of_eq_None_iff)
  have ok: "timers_ok ?c" using assms(1) by (simp add: comm_timers.cancel_inv)
  have now: "c_now ?c \<le> r" using assms(2) by simp
  have none: "pending_timers ?c j \<noteq> Some (t, MReschedule)" for j t
    using assms(3) zero comm_timers.cancel_pending [OF assms(1), of "sc_reschTimer s"]
    by (cases "sc_reschTimer s = 0") auto
  have "pending_timers (snd (set_timer_at r MReschedule ?c)) =
      (pending_timers ?c)(fst (set_timer_at r MReschedule ?c) \<mapsto> (r, MReschedule))"
    by (rule comm_timers.set_pending [OF ok now])
  then show ?thesis
    using none by (auto simp: reschedule_at_def Let_def case_prod_beta split: if_splits)
qed

lemma reschedule_at_tasks [simp]: "sc_tasks (reschedule_at r s) = sc_tasks s"
  by (simp add: reschedule_at_def Let_def case_prod_beta)

text \<open>
  Rescheduling by deadline puts the running task first and the others in the order of their
  deadlines, keeps every task, and replaces the pending reschedule timer: afterwards exactly
  one is pending, at the configured delay.
\<close>

theorem dp_reschedule_result:
  assumes "timers_ok (sc_comm s)" and "0 \<le> cfg_reschedule K" and "sc_tasks s \<noteq> []"
    and "\<forall>j t. pending_timers (sc_comm s) j = Some (t, MReschedule) \<longrightarrow> j = sc_reschTimer s"
  shows "let s' = dp_reschedule B K s in
    sorted_wrt (deadline_le B (sc_now s)) (sc_tasks s') \<and> mset (sc_tasks s') = mset (sc_tasks s)
    \<and> (\<forall>j t. pending_timers (sc_comm s') j = Some (t, MReschedule) \<longleftrightarrow>
        j = sc_reschTimer s' \<and> t = sc_now s + cfg_reschedule K)"
proof -
  let ?ts = "std_sort (compare_deadline B (sc_now s)) (sc_tasks s)"
  let ?s1 = "s\<lparr>sc_tasks := ?ts\<rparr>"
  have ms: "mset ?ts = mset (sc_tasks s)" by (simp add: sort_simps)
  then have "?ts \<noteq> []" using assms(3) by (metis mset_zero_iff)
  then have eq: "dp_reschedule B K s = reschedule_at (sc_now s + cfg_reschedule K) ?s1"
    by (simp add: dp_reschedule_def Let_def)
  have "\<forall>j t. pending_timers (sc_comm (reschedule_at (sc_now s + cfg_reschedule K) ?s1)) j =
      Some (t, MReschedule) \<longleftrightarrow>
      j = sc_reschTimer (reschedule_at (sc_now s + cfg_reschedule K) ?s1) \<and> t = sc_now s + cfg_reschedule K"
    by (rule reschedule_at_one) (use assms in simp_all)
  then show ?thesis by (simp add: eq ms deadline_order.sort_ordered Let_def)
qed

theorem dp_reschedule_result_witness:
  "map tk_id (sc_tasks (dp_reschedule example_backend example_config example_sched)) = [2, 1]
   \<and> sorted_wrt (deadline_le example_backend 10)
       (sc_tasks (dp_reschedule example_backend example_config example_sched))"
proof -
  have pre: "timers_ok (sc_comm example_sched)" "0 \<le> cfg_reschedule example_config"
    "sc_tasks example_sched \<noteq> []" "sc_now example_sched = 10"
    "\<forall>j t. pending_timers (sc_comm example_sched) j = Some (t, MReschedule) \<longrightarrow> j = sc_reschTimer example_sched"
    by (simp_all add: example_sched_def mk_sched_def timers_ok_def example_config_def pending_timers_def)
  have "map tk_id (sc_tasks (dp_reschedule example_backend example_config example_sched)) = [2, 1]"
    by code_simp
  with dp_reschedule_result [OF pre(1-3,5), of example_backend] show ?thesis
    by (simp add: pre(4) Let_def)
qed

lemma unat_ucast_le: "unat (ucast (x :: 64 word) :: 32 word) \<le> unat x"
  by (simp add: unsigned_ucast_eq take_bit_nat_less_eq_self)

text \<open>
  C18. The policy by deadline never promises more than it has: the tasks it accepts are not more
  than those of the bag, and their total length fits in the computing capacity it has left
  before the deadline.
\<close>

theorem dp_accepts_within_capacity:
  assumes "dp_acceptable B s m = Some n"
  shows "n \<le> tb_lastTask m - tb_firstTask m + 1
    \<and> unat n * unat (td_length (tb_minReq m)) \<le>
        unat (dp_available_before B (td_deadline (tb_minReq m)) s)"
proof -
  let ?a = "dp_available_before B (td_deadline (tb_minReq m)) s"
  let ?len = "td_length (tb_minReq m)"
  let ?slots = "ucast ((ucast (ucast ?a :: 32 word) :: 64 word) div ?len) :: 32 word"
  have n: "n \<le> ?slots" "n \<le> tb_lastTask m - tb_firstTask m + 1"
    using assms by (auto simp: dp_acceptable_def Let_def not_less split: if_splits)
  have "unat n \<le> unat ?slots" using n(1) by (simp add: word_le_nat_alt)
  also have "\<dots> \<le> unat ((ucast (ucast ?a :: 32 word) :: 64 word) div ?len)" by (rule unat_ucast_le)
  also have "\<dots> = unat (ucast (ucast ?a :: 32 word) :: 64 word) div unat ?len"
    by (rule unat_div)
  also have "\<dots> \<le> unat ?a div unat ?len"
    by (rule div_le_mono) (simp add: unsigned_ucast_eq unsigned_take_bit_eq take_bit_nat_less_eq_self)
  finally have "unat n * unat ?len \<le> unat ?a div unat ?len * unat ?len" by (rule mult_le_mono1)
  also have "\<dots> \<le> unat ?a" by simp
  finally show ?thesis using n(2) by simp
qed

theorem dp_accepts_within_capacity_witness:
  "dp_acceptable example_backend (example_sched\<lparr>sc_tasks := []\<rparr>)
     \<lparr>tb_requester = Addr 5 1, tb_requestId = 1, tb_firstTask = 1, tb_lastTask = 9,
      tb_minReq = mk_task_desc\<lparr>td_length := 1000, td_deadline := 3000010\<rparr>, tb_forEN = True,
      tb_fromEN = False, tb_seq = 0, tb_slowness = None\<rparr> = Some 3
   \<and> unat (3 :: 32 word) * 1000 \<le>
      unat (dp_available_before example_backend 3000010 (example_sched\<lparr>sc_tasks := []\<rparr>))"
proof -
  let ?m = "\<lparr>tb_requester = Addr 5 1, tb_requestId = 1, tb_firstTask = 1, tb_lastTask = 9,
      tb_minReq = mk_task_desc\<lparr>td_length := 1000, td_deadline := 3000010\<rparr>, tb_forEN = True,
      tb_fromEN = False, tb_seq = 0, tb_slowness = None\<rparr> :: taskbag_msg"
  have r: "dp_acceptable example_backend (example_sched\<lparr>sc_tasks := []\<rparr>) ?m = Some 3"
    by code_simp
  from dp_accepts_within_capacity [OF r] show ?thesis by (simp add: r)
qed

section \<open>Reminders to the owners\<close>

definition task_report :: "('x, 'i) backend \<Rightarrow> time \<Rightarrow> 'x task \<Rightarrow> addr \<times> (int \<times> 32 word) \<times> int" where
  "task_report B now t = (tk_owner t, (tk_request t, tk_client t), be_status B now (tk_body t))"

text \<open>The states of tasks reported in the monitoring messages sent so far, with their receivers.\<close>

definition reports_of :: "addr \<times> 'i msg \<Rightarrow> (addr \<times> (int \<times> 32 word) \<times> int) multiset" where
  "reports_of x = (case snd x of
     MMonitor m \<Rightarrow> image_mset (Pair (fst x)) (mset (zip (mon_tasks m) (mon_states m))) | _ \<Rightarrow> {#})"

definition reported :: "'i comm \<Rightarrow> (addr \<times> (int \<times> 32 word) \<times> int) multiset" where
  "reported c = (\<Sum>x \<in># traffic c. reports_of x)"

lemma reported_send [simp]: "reported (send_message a m c) = reports_of (a, m) + reported c"
  by (simp add: reported_def)

lemma reported_monitor_timer [simp]: "reported (sc_comm (set_monitor_timer K s)) = reported (sc_comm s)"
  by (simp add: reported_def set_monitor_timer_def case_prod_beta)

lemma fold_addTask_zip:
  "mon_wf m \<Longrightarrow>
    zip (mon_tasks (fold (\<lambda>t. mon_addTask (f t) (g t) (h t)) ts m))
        (mon_states (fold (\<lambda>t. mon_addTask (f t) (g t) (h t)) ts m)) =
    zip (mon_tasks m) (mon_states m) @ map (\<lambda>t. ((f t, g t), h t)) ts"
proof (induction ts arbitrary: m)
  case Nil
  then show ?case by simp
next
  case (Cons t ts)
  have "zip (mon_tasks (mon_addTask (f t) (g t) (h t) m)) (mon_states (mon_addTask (f t) (g t) (h t) m)) =
      zip (mon_tasks m) (mon_states m) @ [((f t, g t), h t)]"
    using Cons.prems by (simp add: mon_addTask_def mon_wf_def)
  with Cons show ?case by simp
qed

lemma reports_of_reminder:
  "reports_of (a, MMonitor (reminder B K s a)) =
    image_mset (task_report B (sc_now s)) (filter_mset (\<lambda>t. tk_owner t = a) (mset (sc_tasks s)))"
proof -
  have zip: "zip (mon_tasks (reminder B K s a)) (mon_states (reminder B K s a)) =
      map (\<lambda>t. ((tk_request t, tk_client t), be_status B (sc_now s) (tk_body t)))
        (filter (\<lambda>t. tk_owner t = a) (sc_tasks s))"
    by (simp add: reminder_def fold_addTask_zip) (simp add: mk_monitor_def)
  have "reports_of (a, MMonitor (reminder B K s a)) =
      mset (map (Pair a) (map (\<lambda>t. ((tk_request t, tk_client t), be_status B (sc_now s) (tk_body t)))
        (filter (\<lambda>t. tk_owner t = a) (sc_tasks s))))"
    by (simp only: reports_of_def zip snd_conv fst_conv msg.case mset_map)
  also have "\<dots> = mset (map (task_report B (sc_now s)) (filter (\<lambda>t. tk_owner t = a) (sc_tasks s)))"
    by (rule arg_cong [of _ _ mset]) (simp add: task_report_def)
  finally show ?thesis by simp
qed

lemma filter_mset_fresh:
  "a \<notin> A \<Longrightarrow> filter_mset (\<lambda>t. f t = a \<or> f t \<in> A) M =
    filter_mset (\<lambda>t. f t = a) M + filter_mset (\<lambda>t. f t \<in> A) M"
  by (induction M) auto

lemma send_reminders:
  "distinct as \<Longrightarrow> reported (sc_comm (fold (\<lambda>a s'. sc_send a (MMonitor (reminder B K s a)) s') as s0)) =
    reported (sc_comm s0) + image_mset (task_report B (sc_now s))
      (filter_mset (\<lambda>t. tk_owner t \<in> set as) (mset (sc_tasks s)))"
proof (induction as arbitrary: s0)
  case Nil
  then show ?case by simp
next
  case (Cons a as)
  have "reported (sc_comm (sc_send a (MMonitor (reminder B K s a)) s0)) = reported (sc_comm s0) +
      image_mset (task_report B (sc_now s)) (filter_mset (\<lambda>t. tk_owner t = a) (mset (sc_tasks s)))"
    by (simp add: sc_send_def reports_of_reminder add.commute)
  with Cons show ?case by (simp add: filter_mset_fresh)
qed

text \<open>
  The monitoring timer reports every task of the queue exactly once, to its owner, with its
  identification and its state, and nothing else; the timer is set again.
\<close>

theorem monitor_reports_all:
  "reported (sc_comm (sc_handle_monitor B K s)) = reported (sc_comm s)
    + image_mset (task_report B (sc_now s)) (mset (sc_tasks s))"
proof -
  have owners: "distinct (task_owners (sc_tasks s))" "set (task_owners (sc_tasks s)) = tk_owner ` set (sc_tasks s)"
    by (simp_all add: task_owners_def)
  have "filter_mset (\<lambda>t. tk_owner t \<in> tk_owner ` set (sc_tasks s)) (mset (sc_tasks s)) = mset (sc_tasks s)"
    by (auto simp: filter_mset_eq_conv)
  with send_reminders [OF owners(1), of B K s s] show ?thesis
    by (simp add: sc_handle_monitor_def owners(2))
qed

end
