(* ===== verification/Dispatcher.thy ===== *)
theory Dispatcher
  imports Ibp_Info
begin

text \<open>
  \<open>include/Dispatcher.hpp\<close>, \<open>src/lib/scheduling/policies/IBPDispatcher.cpp\<close>: the service that
  routes bags of tasks along the tree and aggregates the availability of the two children of
  a branch. \<open>Dispatcher<T>\<close> is generic in the availability information: the methods of \<open>T\<close> are
  the fields of \<open>avail_ops\<close> (\<open>ao_childInfo\<close> is what an instance that overrides
  \<open>recomputeChildrenInfo\<close> tells a child, from what it knows of the father and of the other child),
  those of \<open>OverlayBranch\<close> the fields of \<open>branch\<close>. What
  \<open>NetworkManager::sendMessage\<close> returns, the size of the message, is the argument \<open>sz\<close>.
\<close>

record 'i avail_ops =
  ao_seq :: "'i \<Rightarrow> 32 word"
  ao_setSeq :: "32 word \<Rightarrow> 'i \<Rightarrow> 'i"
  ao_fromSch :: "'i \<Rightarrow> bool"
  ao_setFromSch :: "bool \<Rightarrow> 'i \<Rightarrow> 'i"
  ao_join :: "'i \<Rightarrow> 'i \<Rightarrow> 'i"
  ao_reduce :: "'i \<Rightarrow> 'i"
  ao_eq :: "'i \<Rightarrow> 'i \<Rightarrow> bool"
  ao_childInfo :: "('i option \<Rightarrow> 'i option \<Rightarrow> 'i option) option"

record branch =
  br_inNetwork :: bool
  br_father :: addr
  br_child :: "nat \<Rightarrow> addr"
  br_leaf :: "nat \<Rightarrow> bool"
  br_distance :: "nat \<Rightarrow> addr \<Rightarrow> rat"

record 'i link =
  lk_addr :: addr
  lk_avail :: "'i option"
  lk_waiting :: "'i option"
  lk_notified :: "'i option"
  lk_new :: bool

definition mk_link :: "addr \<Rightarrow> 'i link" where
  "mk_link a = \<lparr>lk_addr = a, lk_avail = None, lk_waiting = None, lk_notified = None, lk_new = True\<rparr>"

record 'i disp =
  dp_father :: "'i link"
  dp_child :: "nat \<Rightarrow> 'i link"
  dp_delayed :: "(addr \<times> 'i) list"
  dp_timer :: int
  dp_next :: time
  dp_inChange :: bool
  dp_comm :: "'i comm"

definition mk_disp :: "branch \<Rightarrow> 'i comm \<Rightarrow> 'i disp" where
  "mk_disp b c = \<lparr>dp_father = mk_link (if br_inNetwork b then br_father b else null_addr),
     dp_child = (\<lambda>k. mk_link (if br_inNetwork b then br_child b k else null_addr)),
     dp_delayed = [], dp_timer = 0, dp_next = 0, dp_inChange = False, dp_comm = c\<rparr>"

section \<open>Links\<close>

definition lk_updateSeq :: "'i avail_ops \<Rightarrow> 'i link \<Rightarrow> 'i link" where
  "lk_updateSeq T l = l\<lparr>lk_waiting := map_option
     (ao_setSeq T (case lk_notified l of None \<Rightarrow> 1 | Some n \<Rightarrow> ao_seq T n + 1)) (lk_waiting l)\<rparr>"

definition sent_size :: "('i msg \<Rightarrow> 32 word) \<Rightarrow> addr \<Rightarrow> 'i msg \<Rightarrow> 'i comm \<Rightarrow> 32 word" where
  "sent_size sz a m c = (if a = c_local c then 0 else sz m)"

definition lk_sendUpdate :: "'i avail_ops \<Rightarrow> ('i msg \<Rightarrow> 32 word) \<Rightarrow> 'i link \<Rightarrow> 'i comm \<Rightarrow>
    32 word \<times> 'i link \<times> 'i comm" where
  "lk_sendUpdate T sz l c =
    (case lk_waiting l of
       None \<Rightarrow> (0, l, c)
     | Some w \<Rightarrow>
        (if lk_notified l \<noteq> None \<and> ao_eq T (the (lk_notified l)) w then (0, l, c)
         else
           (let l1 = lk_updateSeq T l;
                n = ao_setFromSch T False (the (lk_waiting l1));
                m = MAvail (ao_reduce T n)
            in (sent_size sz (lk_addr l) m c,
                l1\<lparr>lk_notified := Some n, lk_waiting := None\<rparr>,
                send_message (lk_addr l) m c))))"

definition lk_update :: "'i avail_ops \<Rightarrow> addr \<Rightarrow> 'i \<Rightarrow> 'i link \<Rightarrow> bool \<times> 'i link" where
  "lk_update T src m l =
    (if lk_addr l = src then
       (True,
        if lk_avail l \<noteq> None \<and> ao_seq T m \<le> ao_seq T (the (lk_avail l)) then l
        else l\<lparr>lk_avail := Some m, lk_new := True\<rparr>)
     else (False, l))"

section \<open>Aggregation and notification\<close>

definition recompute_father :: "'i avail_ops \<Rightarrow> 'i disp \<Rightarrow> 'i disp" where
  "recompute_father T s =
    (if lk_new (dp_child s 0) \<or> lk_new (dp_child s 1) then
       s\<lparr>dp_father :=
         (case (lk_avail (dp_child s 0), lk_avail (dp_child s 1)) of
            (Some a, None) \<Rightarrow> lk_updateSeq T ((dp_father s)\<lparr>lk_waiting := Some a\<rparr>)
          | (Some a, Some b) \<Rightarrow> lk_updateSeq T ((dp_father s)\<lparr>lk_waiting := Some (ao_join T b a)\<rparr>)
          | (None, Some b) \<Rightarrow> lk_updateSeq T ((dp_father s)\<lparr>lk_waiting := Some b\<rparr>)
          | (None, None) \<Rightarrow> (dp_father s)\<lparr>lk_waiting := None\<rparr>)\<rparr>
     else s)"

definition child_info :: "('i option \<Rightarrow> 'i option \<Rightarrow> 'i option) \<Rightarrow> branch \<Rightarrow> nat \<Rightarrow> 'i disp \<Rightarrow> 'i disp" where
  "child_info f b k s =
    (if \<not> br_leaf b k then s\<lparr>dp_child := (dp_child s)(k := (dp_child s k)
       \<lparr>lk_waiting := f (lk_avail (dp_father s)) (lk_avail (dp_child s (1 - k)))\<rparr>)\<rparr> else s)"

definition recompute_children :: "'i avail_ops \<Rightarrow> branch \<Rightarrow> 'i disp \<Rightarrow> 'i disp" where
  "recompute_children T b s =
    (case ao_childInfo T of None \<Rightarrow> s | Some f \<Rightarrow> child_info f b 1 (child_info f b 0 s))"

definition recompute_info :: "'i avail_ops \<Rightarrow> branch \<Rightarrow> 'i disp \<Rightarrow> 'i disp" where
  "recompute_info T b s =
    (let s1 = recompute_children T b (recompute_father T s)
     in s1\<lparr>dp_father := (dp_father s1)\<lparr>lk_new := False\<rparr>,
           dp_child := (dp_child s1)(0 := (dp_child s1 0)\<lparr>lk_new := False\<rparr>,
                                     1 := (dp_child s1 1)\<lparr>lk_new := False\<rparr>)\<rparr>)"

definition branch_info :: "'i disp \<Rightarrow> 'i option" where
  "branch_info s = (if lk_waiting (dp_father s) \<noteq> None then lk_waiting (dp_father s) else lk_notified (dp_father s))"

definition send_father :: "'i avail_ops \<Rightarrow> ('i msg \<Rightarrow> 32 word) \<Rightarrow> 'i disp \<Rightarrow> 32 word \<times> 'i disp" where
  "send_father T sz s =
    (if lk_addr (dp_father s) \<noteq> null_addr then
       (let (n, l, c) = lk_sendUpdate T sz (dp_father s) (dp_comm s)
        in (n, s\<lparr>dp_father := l, dp_comm := c\<rparr>))
     else (0, s))"

definition send_child :: "'i avail_ops \<Rightarrow> ('i msg \<Rightarrow> 32 word) \<Rightarrow> branch \<Rightarrow> nat \<Rightarrow> 'i disp \<Rightarrow>
    32 word \<times> 'i disp" where
  "send_child T sz b k s =
    (if \<not> br_leaf b k then
       (let (n, l, c) = lk_sendUpdate T sz (dp_child s k) (dp_comm s)
        in (n, s\<lparr>dp_child := (dp_child s)(k := l), dp_comm := c\<rparr>))
     else (0, s))"

definition disp_notify :: "'i avail_ops \<Rightarrow> ('i msg \<Rightarrow> 32 word) \<Rightarrow> rat \<Rightarrow> branch \<Rightarrow> 'i disp \<Rightarrow> 'i disp" where
  "disp_notify T sz ubw b s =
    (if c_now (dp_comm s) < dp_next s \<or> dp_timer s \<noteq> 0 then
       (if dp_timer s = 0 then
          (let (i, c) = set_timer_at (dp_next s) MUpdateTimer (dp_comm s)
           in s\<lparr>dp_timer := i, dp_comm := c\<rparr>)
        else s)
     else
       (let (n, s1) =
          (if \<not> dp_inChange s then
             (let (n0, s0) = send_father T sz s;
                  (n1, s1) = send_child T sz b 0 s0;
                  (n2, s2) = send_child T sz b 1 s1
              in (n0 + n1 + n2, s2))
           else (0, s));
            t = (if 0 < ubw then of_nat (unat n) / ubw else 0)
        in s1\<lparr>dp_next := c_now (dp_comm s1) + \<lfloor>t * 1000000\<rfloor>\<rparr>))"

section \<open>Updates and changes of the structure\<close>

definition update_links :: "'i avail_ops \<Rightarrow> addr \<Rightarrow> 'i \<Rightarrow> 'i disp \<Rightarrow> bool \<times> 'i disp" where
  "update_links T src m s =
    (let (f, s0) = (if \<not> ao_fromSch T m
                    then (let (u, l) = lk_update T src m (dp_father s) in (u, s\<lparr>dp_father := l\<rparr>))
                    else (False, s))
     in if f then (True, s0)
        else (let (u, l) = lk_update T src m (dp_child s0 0);
                  s1 = s0\<lparr>dp_child := (dp_child s0)(0 := l)\<rparr>
              in if u then (True, s1)
                 else (let (v, l) = lk_update T src m (dp_child s1 1)
                       in (v, s1\<lparr>dp_child := (dp_child s1)(1 := l)\<rparr>))))"

definition disp_handle_info :: "'i avail_ops \<Rightarrow> ('i msg \<Rightarrow> 32 word) \<Rightarrow> rat \<Rightarrow> branch \<Rightarrow> addr \<Rightarrow> 'i \<Rightarrow>
    bool \<Rightarrow> 'i disp \<Rightarrow> 'i disp" where
  "disp_handle_info T sz ubw b src m delayed s =
    (if dp_inChange s then s\<lparr>dp_delayed := dp_delayed s @ [(src, m)]\<rparr>
     else
       (let (known, s1) = update_links T src m s
        in if known \<and> \<not> delayed then disp_notify T sz ubw b (recompute_info T b s1) else s1))"

definition disp_handle_timer :: "'i avail_ops \<Rightarrow> ('i msg \<Rightarrow> 32 word) \<Rightarrow> rat \<Rightarrow> branch \<Rightarrow> 'i disp \<Rightarrow> 'i disp" where
  "disp_handle_timer T sz ubw b s = disp_notify T sz ubw b (s\<lparr>dp_timer := 0\<rparr>)"

definition disp_start_changes :: "'i disp \<Rightarrow> 'i disp" where
  "disp_start_changes s = s\<lparr>dp_inChange := True\<rparr>"

definition disp_commit_changes :: "'i avail_ops \<Rightarrow> ('i msg \<Rightarrow> 32 word) \<Rightarrow> rat \<Rightarrow> branch \<Rightarrow>
    bool \<Rightarrow> bool \<Rightarrow> bool \<Rightarrow> 'i disp \<Rightarrow> 'i disp" where
  "disp_commit_changes T sz ubw b fatherC leftC rightC s =
    (let s1 = s\<lparr>dp_inChange := False\<rparr>;
         s2 = (if fatherC then s1\<lparr>dp_father := mk_link (br_father b)\<rparr> else s1);
         s3 = (if leftC then s2\<lparr>dp_child := (dp_child s2)(0 := mk_link (br_child b 0))\<rparr> else s2);
         s4 = (if rightC then s3\<lparr>dp_child := (dp_child s3)(1 := mk_link (br_child b 1))\<rparr> else s3);
         s5 = fold (\<lambda>(src, m). disp_handle_info T sz ubw b src m True) (dp_delayed s4) s4
     in disp_notify T sz ubw b (recompute_info T b (s5\<lparr>dp_delayed := []\<rparr>)))"

section \<open>Routing a bag of tasks\<close>

definition send_part :: "branch \<Rightarrow> taskbag_msg \<Rightarrow> nat \<Rightarrow> 32 word \<Rightarrow> 32 word \<times> 'i disp \<Rightarrow>
    'i avail_ops \<Rightarrow> (32 word \<times> 'i disp) option" where
  "send_part b m k n x T =
    (let (nextTask, s) = x
     in if 0 < n then do {
          a \<leftarrow> lk_avail (dp_child s k);
          let tbm = (tb_subRequest nextTask (nextTask + n - 1) m)
            \<lparr>tb_seq := ao_seq T a, tb_forEN := br_leaf b k\<rparr>;
          Some (nextTask + n,
            s\<lparr>dp_comm := send_message (lk_addr (dp_child s k)) (MTaskBag tbm) (dp_comm s)\<rparr>)
        } else Some (nextTask, s))"

definition send_tasks :: "'i avail_ops \<Rightarrow> branch \<Rightarrow> taskbag_msg \<Rightarrow> (nat \<Rightarrow> 32 word) \<Rightarrow> bool \<Rightarrow>
    'i disp \<Rightarrow> 'i disp option" where
  "send_tasks T b m numTasks dontSendToFather s =
    (let info = branch_info s
     in do {
       x \<leftarrow> send_part b m 0 (numTasks 0) (tb_firstTask m, s) T;
       (nextTask, s2) \<leftarrow> send_part b m 1 (numTasks 1) x T;
       (if nextTask \<le> tb_lastTask m \<and> br_father b \<noteq> null_addr \<and> \<not> dontSendToFather then do {
          a \<leftarrow> info;
          let tbm = (tb_subRequest nextTask (tb_lastTask m) m)\<lparr>tb_seq := ao_seq T a\<rparr>;
          Some (s2\<lparr>dp_comm := send_message (br_father b) (MTaskBag tbm) (dp_comm s2)\<rparr>)
        } else Some s2)
     })"

section \<open>The policy without deadlines\<close>

definition ibp_ops :: "clustering \<Rightarrow> ibp_info avail_ops" where
  "ibp_ops clust = \<lparr>ao_seq = ii_seq, ao_setSeq = ii_setSeq, ao_fromSch = ii_fromSch,
     ao_setFromSch = ii_setFromSch, ao_join = ii_join, ao_reduce = ii_reduce clust, ao_eq = ii_eq,
     ao_childInfo = None\<rparr>"

record decision =
  di_branch :: nat
  di_cluster :: nat
  di_distance :: rat
  di_availability :: "64 word"

definition mk_decision :: "branch \<Rightarrow> taskbag_msg \<Rightarrow> nat \<Rightarrow> ibp_info \<Rightarrow> nat \<Rightarrow> decision" where
  "mk_decision b m c i k =
    (let cl = ii_summary i ! k; req = tb_minReq m
     in \<lparr>di_branch = c, di_cluster = k, di_distance = br_distance b c (tb_requester m),
         di_availability = ucast (md_remainingMemory (td_maxMemory req) cl * 10
           + md_remainingDisk (td_maxDisk req) cl * 1)\<rparr>)"

definition decision_less :: "decision \<Rightarrow> decision \<Rightarrow> bool" where
  "decision_less l r \<longleftrightarrow> di_availability l < di_availability r
     \<or> (di_availability l = di_availability r \<and> di_distance l < di_distance r)"

definition ibp_groups :: "branch \<Rightarrow> addr \<Rightarrow> taskbag_msg \<Rightarrow> nat \<Rightarrow> ibp_info disp \<Rightarrow> decision list" where
  "ibp_groups b src m c s =
    (case lk_avail (dp_child s c) of
       None \<Rightarrow> []
     | Some i \<Rightarrow> if tb_fromEN m \<or> lk_addr (dp_child s c) \<noteq> src
         then map (mk_decision b m c i) (ii_getAvailability (tb_minReq m) i) else [])"

definition take_group :: "32 word \<Rightarrow> decision \<Rightarrow> ibp_info disp \<Rightarrow> 32 word \<times> ibp_info disp" where
  "take_group n g s =
    (let l = dp_child s (di_branch g); i = the (lk_avail l);
         (left, cl) = md_takeUpToNodes n (ii_summary i ! di_cluster g)
     in (n - left, s\<lparr>dp_child := (dp_child s)(di_branch g := l\<lparr>lk_avail :=
          Some (i\<lparr>ii_summary := (ii_summary i)[di_cluster g := cl]\<rparr>)\<rparr>)\<rparr>))"

fun divide_tasks :: "decision list \<Rightarrow> 32 word \<Rightarrow> (nat \<Rightarrow> 32 word) \<Rightarrow> ibp_info disp \<Rightarrow>
    32 word \<times> (nat \<Rightarrow> 32 word) \<times> ibp_info disp" where
  "divide_tasks [] n parts s = (n, parts, s)"
| "divide_tasks (g # gs) n parts s =
    (if n = 0 then (n, parts, s)
     else (let (taken, s1) = take_group n g s
           in divide_tasks gs (n - taken)
             (parts(di_branch g := parts (di_branch g) + taken)) s1))"

definition mark_used :: "(nat \<Rightarrow> 32 word) \<Rightarrow> nat \<Rightarrow> ibp_info disp \<Rightarrow> ibp_info disp" where
  "mark_used parts c s =
    (if parts c \<noteq> 0 then s\<lparr>dp_child := (dp_child s)(c := (dp_child s c)
       \<lparr>lk_avail := map_option ii_updated (lk_avail (dp_child s c)), lk_new := True\<rparr>)\<rparr> else s)"

definition ibp_divide :: "branch \<Rightarrow> addr \<Rightarrow> taskbag_msg \<Rightarrow> ibp_info disp \<Rightarrow>
    32 word \<times> (nat \<Rightarrow> 32 word) \<times> ibp_info disp" where
  "ibp_divide b src m s =
    divide_tasks (std_sort decision_less (ibp_groups b src m 0 s @ ibp_groups b src m 1 s))
      (tb_lastTask m - tb_firstTask m + 1) (\<lambda>_. 0) s"

definition ibp_handle_bag :: "clustering \<Rightarrow> (ibp_info msg \<Rightarrow> 32 word) \<Rightarrow> rat \<Rightarrow> branch \<Rightarrow>
    addr \<Rightarrow> taskbag_msg \<Rightarrow> ibp_info disp \<Rightarrow> ibp_info disp option" where
  "ibp_handle_bag clust sz ubw b src m s =
    (if tb_forEN m then Some s
     else if \<not> br_inNetwork b then Some s
     else
       (let (n, parts, s1) = ibp_divide b src m s;
            s2 = mark_used parts 1 (mark_used parts 0 s1);
            s3 = disp_notify (ibp_ops clust) sz ubw b (recompute_info (ibp_ops clust) b s2)
        in send_tasks (ibp_ops clust) b m parts (br_father b = src) s3))"

definition ibp_receive :: "clustering \<Rightarrow> (ibp_info msg \<Rightarrow> 32 word) \<Rightarrow> rat \<Rightarrow> branch \<Rightarrow>
    ibp_info disp \<Rightarrow> addr \<Rightarrow> ibp_info msg \<Rightarrow> (bool \<times> ibp_info disp) option" where
  "ibp_receive clust sz ubw b s src m =
    (case m of
       MTaskBag tm \<Rightarrow> map_option (Pair True) (ibp_handle_bag clust sz ubw b src tm s)
     | MUpdateTimer \<Rightarrow> Some (True, disp_handle_timer (ibp_ops clust) sz ubw b s)
     | MAvail i \<Rightarrow> Some (True, disp_handle_info (ibp_ops clust) sz ubw b src i False s)
     | _ \<Rightarrow> Some (False, s))"

end
