(* ===== verification/Dispatcher_Props.thy ===== *)
theory Dispatcher_Props
  imports Dispatcher
begin

text \<open>
  The dispatcher loses no task: how a bag is divided among the groups of free nodes, and which
  part of it each neighbour is sent. Availability information is taken only when it is newer.
\<close>

lemma below_max: "(w :: 32 word) < - 1 \<Longrightarrow> Suc (unat w) < 2 ^ 32"
  by (simp add: word_less_nat_alt unsigned_minus_1_eq_mask mask_eq_exp_minus_1)

lemma below_max_step: "(w :: 32 word) < - 1 \<Longrightarrow> w < w + 1"
  using below_max [of w] by (simp add: word_less_nat_alt unat_word_ariths)

section \<open>Division among the groups\<close>

definition group_value :: "ibp_info disp \<Rightarrow> decision \<Rightarrow> 32 word" where
  "group_value s g = md_value (ii_summary (the (lk_avail (dp_child s (di_branch g)))) ! di_cluster g)"

definition group_ok :: "ibp_info disp \<Rightarrow> decision \<Rightarrow> bool" where
  "group_ok s g \<longleftrightarrow> di_branch g < 2 \<and>
    di_cluster g < length (ii_summary (the (lk_avail (dp_child s (di_branch g)))))"

lemma take_up_to:
  "md_takeUpToNodes n c = (left, c') \<Longrightarrow>
    left \<le> n \<and> md_value c' \<le> md_value c \<and> (left = 0 \<or> md_value c' = 0)"
  by (auto simp: md_takeUpToNodes_def not_less word_sub_le intro: word_sub_le split: if_splits)

lemma take_group_result:
  assumes "take_group n g s = (taken, s1)" and "group_ok s g"
  shows "taken \<le> n" and "group_ok s1 h = group_ok s h" and "group_ok s h \<Longrightarrow> group_value s1 h \<le> group_value s h"
    and "n - taken \<noteq> 0 \<Longrightarrow> group_value s1 g = 0"
    and "dp_comm s1 = dp_comm s" and "dp_father s1 = dp_father s"
proof -
  let ?cl = "ii_summary (the (lk_avail (dp_child s (di_branch g)))) ! di_cluster g"
  obtain left cl where t: "md_takeUpToNodes n ?cl = (left, cl)" by fastforce
  note f = take_up_to [OF t]
  from assms(1) have taken: "taken = n - left"
    and s1: "s1 = s\<lparr>dp_child := (dp_child s)(di_branch g := (dp_child s (di_branch g))\<lparr>lk_avail :=
      Some ((the (lk_avail (dp_child s (di_branch g))))\<lparr>ii_summary :=
        (ii_summary (the (lk_avail (dp_child s (di_branch g)))))[di_cluster g := cl]\<rparr>)\<rparr>)\<rparr>"
    by (simp_all add: take_group_def Let_def t)
  show "taken \<le> n" using f by (simp add: taken word_sub_le)
  show "group_ok s1 h = group_ok s h" by (auto simp: s1 group_ok_def)
  show "group_value s1 h \<le> group_value s h" if "group_ok s h"
  proof (cases "di_branch h = di_branch g \<and> di_cluster h = di_cluster g")
    case True
    then show ?thesis using f assms(2) by (simp add: s1 group_value_def group_ok_def)
  next
    case False
    then show ?thesis by (auto simp: s1 group_value_def)
  qed
  show "group_value s1 g = 0" if "n - taken \<noteq> 0"
    using f that assms(2) by (simp add: s1 group_value_def group_ok_def taken)
  show "dp_comm s1 = dp_comm s" "dp_father s1 = dp_father s" by (simp_all add: s1)
qed

lemma divide_tasks_result:
  assumes "divide_tasks gs n parts s = (n', parts', s')" and "\<forall>g \<in> set gs. group_ok s g"
    and "unat n + unat (parts 0) + unat (parts 1) < 2 ^ 32"
  shows "unat n' + unat (parts' 0) + unat (parts' 1) = unat n + unat (parts 0) + unat (parts 1)
    \<and> (\<forall>h. group_ok s h \<longrightarrow> group_value s' h \<le> group_value s h)
    \<and> (n' \<noteq> 0 \<longrightarrow> (\<forall>g \<in> set gs. group_value s' g = 0))
    \<and> dp_comm s' = dp_comm s \<and> dp_father s' = dp_father s"
  using assms
proof (induction gs n parts s rule: divide_tasks.induct)
  case (1 n parts s)
  then show ?case by simp
next
  case (2 g gs n parts s)
  show ?case
  proof (cases "n = 0")
    case True
    with 2 show ?thesis by simp
  next
    case False
    obtain taken s1 where t: "take_group n g s = (taken, s1)" by fastforce
    let ?p = "parts(di_branch g := parts (di_branch g) + taken)"
    have gok: "group_ok s g" using "2.prems"(2) by simp
    note r = take_group_result [OF t gok]
    have branch: "di_branch g = 0 \<or> di_branch g = 1" using gok by (auto simp: group_ok_def)
    have le: "unat taken \<le> unat n" using r(1) by (simp add: word_le_nat_alt)
    have sum: "unat (n - taken) + unat (?p 0) + unat (?p 1) = unat n + unat (parts 0) + unat (parts 1)"
    proof -
      have sub: "unat (n - taken) = unat n - unat taken" using r(1) by (simp add: unat_sub)
      have "unat (parts k + taken) = unat (parts k) + unat taken" if "k = 0 \<or> k = 1" for k
        using that le "2.prems"(3) by (auto simp: unat_word_ariths)
      with branch le sub show ?thesis by auto
    qed
    have rest: "divide_tasks gs (n - taken) ?p s1 = (n', parts', s')"
      using "2.prems"(1) False t by simp
    have ok1: "\<forall>h \<in> set gs. group_ok s1 h" using "2.prems"(2) r(2) by simp
    have small: "unat (n - taken) + unat (?p 0) + unat (?p 1) < 2 ^ 32" using sum "2.prems"(3) by simp
    note IH = "2.IH" [OF False t [symmetric] refl rest ok1 small]
    have "group_value s' g = 0" if "n' \<noteq> 0"
    proof (cases "n - taken = 0")
      case True
      then have "n' = 0" using rest by (cases gs) auto
      with that show ?thesis by simp
    next
      case False
      then have "group_value s1 g = 0" by (rule r(4))
      moreover have "group_value s' g \<le> group_value s1 g" using IH r(2) gok by blast
      ultimately show ?thesis by simp
    qed
    moreover have "group_value s' h \<le> group_value s h" if "group_ok s h" for h
      using IH r(2,3) that order_trans by blast
    ultimately show ?thesis using IH sum r(5,6) by simp
  qed
qed

lemma ibp_groups_ok:
  "c < 2 \<Longrightarrow> \<forall>g \<in> set (ibp_groups b src m c s). group_ok s g"
  by (cases "lk_avail (dp_child s c)")
    (auto simp: ibp_groups_def mk_decision_def group_ok_def ii_getAvailability_def Let_def)

lemma ibp_divide_result:
  assumes "ibp_divide b src m s = (n, parts, s')"
  shows "unat n + unat (parts 0) + unat (parts 1) = unat (tb_lastTask m - tb_firstTask m + 1)"
    and "n \<noteq> 0 \<Longrightarrow> \<forall>g \<in> set (ibp_groups b src m 0 s @ ibp_groups b src m 1 s). group_value s' g = 0"
    and "dp_comm s' = dp_comm s" and "dp_father s' = dp_father s"
proof -
  let ?gs = "ibp_groups b src m 0 s @ ibp_groups b src m 1 s"
  have set: "set (std_sort decision_less ?gs) = set ?gs"
    by (metis set_mset_mset mset_std_sort)
  have ok: "\<forall>g \<in> set (std_sort decision_less ?gs). group_ok s g"
    unfolding set using ibp_groups_ok [of 0 b src m s] ibp_groups_ok [of 1 b src m s] by auto
  have "unat (tb_lastTask m - tb_firstTask m + 1) < 2 ^ 32"
    using unsigned_less [of "tb_lastTask m - tb_firstTask m + 1", where 'a = nat] by simp
  note res = divide_tasks_result [OF assms [unfolded ibp_divide_def] ok]
  show "unat n + unat (parts 0) + unat (parts 1) = unat (tb_lastTask m - tb_firstTask m + 1)"
    "dp_comm s' = dp_comm s" "dp_father s' = dp_father s"
    using res \<open>unat _ < 2 ^ 32\<close> by simp_all
  show "n \<noteq> 0 \<Longrightarrow> \<forall>g \<in> set ?gs. group_value s' g = 0"
    using res \<open>unat _ < 2 ^ 32\<close> set by simp
qed

text \<open>
  The division of a bag: the tasks assigned to the two children and those left over add up
  to the bag, and tasks are left over only when every group of nodes that meets the
  requirements, in a child the bag may go to, has been taken whole.
\<close>

theorem ibp_division:
  assumes "ibp_divide b src m s = (n, parts, s')"
  shows "unat n + unat (parts 0) + unat (parts 1) = unat (tb_lastTask m - tb_firstTask m + 1)
    \<and> (n \<noteq> 0 \<longrightarrow> (\<forall>g \<in> set (ibp_groups b src m 0 s @ ibp_groups b src m 1 s). group_value s' g = 0))"
  using ibp_divide_result [OF assms] by blast

text \<open>A leaf branch: two execution nodes below, each with its own free node.\<close>

definition example_info :: "32 word \<Rightarrow> 32 word \<Rightarrow> ibp_info" where
  "example_info mem seq = ii_setSeq seq (ii_addNode mem 100 mk_ibp)"

definition example_branch :: branch where
  "example_branch = \<lparr>br_inNetwork = True, br_father = Addr 9 1,
     br_child = (\<lambda>k. if k = 0 then Addr 2 1 else Addr 3 1), br_leaf = (\<lambda>k. True),
     br_distance = (\<lambda>k a. 1)\<rparr>"

definition example_disp :: "ibp_info disp" where
  "example_disp = (mk_disp example_branch \<lparr>c_local = Addr 1 1, c_now = 10, c_queue = [],
       c_net = [], c_timers = [], c_timerId = 0, c_rand = (\<lambda>n. 7), c_drawn = 0, c_exit = False\<rparr>)
     \<lparr>dp_child := (\<lambda>k. if k = 0 then (mk_link (Addr 2 1))\<lparr>lk_avail := Some (example_info 50 1)\<rparr>
        else (mk_link (Addr 3 1))\<lparr>lk_avail := Some (example_info 80 1)\<rparr>)\<rparr>"

definition example_bag :: taskbag_msg where
  "example_bag = \<lparr>tb_requester = Addr 2 1, tb_requestId = 1, tb_firstTask = 1, tb_lastTask = 4,
     tb_minReq = mk_task_desc\<lparr>td_maxMemory := 60, td_length := 1000\<rparr>, tb_forEN = False,
     tb_fromEN = True, tb_seq = 0, tb_slowness = None\<rparr>"

theorem ibp_division_witness:
  "unat (fst (ibp_divide example_branch (Addr 2 1) example_bag example_disp)) = 3"
proof -
  obtain n parts s' where d: "ibp_divide example_branch (Addr 2 1) example_bag example_disp = (n, parts, s')"
    by (metis prod_cases3)
  have "(case ibp_divide example_branch (Addr 2 1) example_bag example_disp of
      (n, parts, s') \<Rightarrow> (parts 0, parts 1)) = (0, 1)"
    by code_simp
  then have "parts 0 = 0" "parts 1 = 1" by (simp_all add: d)
  moreover have "unat (tb_lastTask example_bag - tb_firstTask example_bag + 1) = 4" by code_simp
  ultimately show ?thesis using ibp_division [OF d] by (simp add: d)
qed

section \<open>The parts of a bag\<close>

definition bag_ids :: "'i msg \<Rightarrow> nat list" where
  "bag_ids m = (case m of MTaskBag t \<Rightarrow> [unat (tb_firstTask t)..<Suc (unat (tb_lastTask t))] | _ \<Rightarrow> [])"

text \<open>The numbers of the tasks in all the bags a host has sent, with their multiplicity.\<close>

definition routed :: "'i comm \<Rightarrow> nat multiset" where
  "routed c = (\<Sum>x \<in># traffic c. mset (bag_ids (snd x)))"

lemma routed_simps [simp]:
  "routed (send_message a m c) = mset (bag_ids m) + routed c"
  "routed (snd (set_timer_at t m c)) = routed c"
  by (simp_all add: routed_def)

lemma bag_ids_avail [simp]: "bag_ids (MAvail i) = []"
  by (simp add: bag_ids_def)

lemma routed_update: "lk_sendUpdate T sz l c = (n, l', c') \<Longrightarrow> routed c' = routed c"
  by (auto simp: lk_sendUpdate_def Let_def split: option.splits if_splits)

lemma routed_send_father [simp]: "routed (dp_comm (snd (send_father T sz s))) = routed (dp_comm s)"
  by (auto simp: send_father_def split: prod.splits dest: routed_update)

lemma routed_send_child [simp]: "routed (dp_comm (snd (send_child T sz b k s))) = routed (dp_comm s)"
  by (auto simp: send_child_def split: prod.splits dest: routed_update)

lemma routed_notify [simp]: "routed (dp_comm (disp_notify T sz ubw b s)) = routed (dp_comm s)"
  by (simp add: disp_notify_def case_prod_beta Let_def)

lemma recompute_comm [simp]: "dp_comm (recompute_info T b s) = dp_comm s"
  by (simp add: recompute_info_def recompute_father_def recompute_children_def child_info_def Let_def split: option.split)

lemma mark_used_comm [simp]: "dp_comm (mark_used parts c s) = dp_comm s"
  by (simp add: mark_used_def)

lemma send_part_routed:
  assumes "send_part b m k n (nt, s) T = Some (nt', s')" and "unat nt + unat n < 2 ^ 32"
  shows "unat nt' = unat nt + unat n"
    and "routed (dp_comm s') = routed (dp_comm s) + mset [unat nt..<unat nt']"
proof -
  have plus: "unat (nt + n) = unat nt + unat n" using assms(2) by (simp add: unat_word_ariths)
  show nt': "unat nt' = unat nt + unat n"
    using assms(1) plus by (auto simp: send_part_def bind_Some_iff Let_def word_gt_0 split: if_splits)
  show "routed (dp_comm s') = routed (dp_comm s) + mset [unat nt..<unat nt']"
  proof (cases "0 < n")
    case True
    then have "0 < unat n" by (simp add: unat_gt_0)
    then have "nt + n \<noteq> 0" using plus by (metis add_gr_0 unat_0 less_not_refl)
    then have "Suc (unat (nt + n - 1)) = unat nt + unat n"
      using plus by (simp add: unat_minus_one) (metis Suc_pred add_gr_0 \<open>0 < unat n\<close>)
    with True assms(1) nt' show ?thesis
      by (auto simp: send_part_def bind_Some_iff Let_def bag_ids_def tb_subRequest_def simp del: upt_Suc)
  next
    case False
    with assms(1) nt' show ?thesis by (simp add: send_part_def)
  qed
qed

lemma send_tasks_routed:
  assumes "send_tasks T b m parts down s = Some s'"
    and "unat (parts 0) + unat (parts 1) \<le> Suc (unat (tb_lastTask m)) - unat (tb_firstTask m)"
    and "tb_firstTask m \<le> tb_lastTask m" and "tb_lastTask m < - 1"
  shows "routed (dp_comm s') = routed (dp_comm s) + mset [unat (tb_firstTask m)..<
      (if br_father b = null_addr \<or> down then unat (tb_firstTask m) + unat (parts 0) + unat (parts 1)
       else Suc (unat (tb_lastTask m)))]"
proof -
  have lt: "Suc (unat (tb_lastTask m)) < 2 ^ 32"
    using assms(4) by (rule below_max)
  have le: "unat (tb_firstTask m) \<le> unat (tb_lastTask m)" using assms(3) by (simp add: word_le_nat_alt)
  from assms(1) obtain n1 s1 n2 s2 where
    p0: "send_part b m 0 (parts 0) (tb_firstTask m, s) T = Some (n1, s1)" and
    p1: "send_part b m 1 (parts 1) (n1, s1) T = Some (n2, s2)"
    by (auto simp: send_tasks_def bind_Some_iff)
  have b0: "unat (tb_firstTask m) + unat (parts 0) < 2 ^ 32" using assms(2) lt le by linarith
  note r0 = send_part_routed [OF p0 b0]
  have b1: "unat n1 + unat (parts 1) < 2 ^ 32" using r0(1) assms(2) lt le by linarith
  note r1 = send_part_routed [OF p1 b1]
  have n2: "unat n2 = unat (tb_firstTask m) + unat (parts 0) + unat (parts 1)"
    using r0(1) r1(1) by simp
  have two: "routed (dp_comm s2) = routed (dp_comm s) + mset [unat (tb_firstTask m)..<unat n2]"
    using r0 r1 upt_add_eq_append [of "unat (tb_firstTask m)" "unat n1" "unat (parts 1)"]
    by simp
  show ?thesis
  proof (cases "n2 \<le> tb_lastTask m \<and> br_father b \<noteq> null_addr \<and> \<not> down")
    case True
    then have "unat n2 \<le> unat (tb_lastTask m)" by (simp add: word_le_nat_alt)
    then have split: "[unat (tb_firstTask m)..<Suc (unat (tb_lastTask m))] =
        [unat (tb_firstTask m)..<unat n2] @ [unat n2..<Suc (unat (tb_lastTask m))]"
      using n2 upt_add_eq_append [of "unat (tb_firstTask m)" "unat n2" "Suc (unat (tb_lastTask m)) - unat n2"]
      by (simp del: upt_Suc)
    from True assms(1) p0 p1 have "routed (dp_comm s') =
        mset [unat n2..<Suc (unat (tb_lastTask m))] + routed (dp_comm s2)"
      by (auto simp: send_tasks_def bind_Some_iff Let_def bag_ids_def tb_subRequest_def simp del: upt_Suc)
    with True two split show ?thesis by (simp del: upt_Suc)
  next
    case False
    then have "s' = s2" using assms(1) p0 p1 by (auto simp: send_tasks_def)
    moreover have "unat n2 = Suc (unat (tb_lastTask m))" if "\<not> (br_father b = null_addr \<or> down)"
      using False that n2 assms(2) le by (auto simp: word_le_nat_alt)
    ultimately show ?thesis using two n2 by (auto simp del: upt_Suc)
  qed
qed

text \<open>Shared by the dispatchers: what the groups take, the size of a bag, when sending cannot fail.\<close>

lemma take_then_rest:
  fixes n m r a a' :: nat
  assumes "a' = a + min n m"
  shows "a' + min (n - min n m) r = a + min n (m + r)" and "a' + (n - min n m) = a + n"
  using assms by (auto simp: min_def)

lemma upto_room: "(f :: nat) \<le> l \<Longrightarrow> f + min (Suc l - f) r = min (Suc l) (f + r)"
  by (auto simp: min_def)

lemma parts_add:
  fixes parts :: "nat \<Rightarrow> 32 word"
  assumes "b \<in> {0, 1}" and "unat (parts 0) + unat (parts 1) + unat k < 2 ^ 32"
  shows "unat ((parts(b := parts b + k)) 0) + unat ((parts(b := parts b + k)) 1)
    = unat (parts 0) + unat (parts 1) + unat k"
proof -
  have "unat (w + k) = unat w + unat k" if "unat w + unat k < 2 ^ 32" for w :: "32 word"
    using that by (simp add: unat_word_ariths)
  with assms show ?thesis by (cases "b = 0") simp_all
qed

lemma bag_size:
  assumes "tb_firstTask m \<le> tb_lastTask m" and "tb_lastTask m < - 1"
  shows "unat (tb_lastTask m - tb_firstTask m + 1) = Suc (unat (tb_lastTask m)) - unat (tb_firstTask m)"
proof -
  have "unat (tb_firstTask m) \<le> unat (tb_lastTask m)" using assms(1) by (simp add: word_le_nat_alt)
  moreover have "unat (tb_lastTask m - tb_firstTask m) = unat (tb_lastTask m) - unat (tb_firstTask m)"
    using assms(1) by (simp add: unat_sub)
  ultimately show ?thesis using below_max [OF assms(2)] by (simp add: unat_word_ariths)
qed

lemma send_tasks_total:
  assumes "\<forall>c \<in> {0, 1}. parts c \<noteq> 0 \<longrightarrow> lk_avail (dp_child s c) \<noteq> None"
  shows "send_tasks T b m parts True s \<noteq> None"
  using assms by (auto simp: send_tasks_def send_part_def Let_def word_gt_0 bind_eq_None_conv)



section \<open>Updates arrive in step\<close>

text \<open>What the links ask of an availability information.\<close>

locale avail_info =
  fixes T :: "'i avail_ops"
  assumes seq_set: "ao_seq T (ao_setSeq T n i) = n"
    and seq_from: "ao_seq T (ao_setFromSch T f i) = ao_seq T i"
    and seq_reduce: "ao_seq T (ao_reduce T i) = ao_seq T i"
begin

text \<open>The sequence number last notified is the one the other end last accepted.\<close>

definition in_step :: "'i link \<Rightarrow> 'i link \<Rightarrow> bool" where
  "in_step l r \<longleftrightarrow> map_option (ao_seq T) (lk_notified l) = map_option (ao_seq T) (lk_avail r)"

lemma update_in_step:
  assumes "in_step l r" and "lk_waiting l = Some w" and "lk_addr r = src"
    and "\<forall>n. lk_notified l = Some n \<longrightarrow> \<not> ao_eq T n w \<and> ao_seq T n < - 1"
  shows "\<exists>m l'. lk_sendUpdate T sz l c = (sent_size sz (lk_addr l) (MAvail m) c, l',
        send_message (lk_addr l) (MAvail m) c)
    \<and> lk_waiting l' = None
    \<and> lk_avail (snd (lk_update T src m r)) = Some m
    \<and> in_step l' (snd (lk_update T src m r))"
proof -
  let ?q = "case lk_notified l of None \<Rightarrow> 1 | Some n \<Rightarrow> ao_seq T n + 1"
  let ?n = "ao_setFromSch T False (ao_setSeq T ?q w)"
  let ?m = "ao_reduce T ?n"
  have seq: "ao_seq T ?m = ?q" "ao_seq T ?n = ?q" by (simp_all add: seq_set seq_from seq_reduce)
  have newer: "\<not> (lk_avail r \<noteq> None \<and> ao_seq T ?m \<le> ao_seq T (the (lk_avail r)))"
  proof (cases "lk_notified l")
    case None
    with assms(1) show ?thesis by (simp add: in_step_def)
  next
    case (Some n)
    have lt: "ao_seq T n < ao_seq T n + 1"
      using assms(4) Some by (simp add: below_max_step)
    with assms(1) Some show ?thesis by (auto simp: in_step_def seq_set seq_from seq_reduce)
  qed
  have "lk_sendUpdate T sz l c = (sent_size sz (lk_addr l) (MAvail ?m) c,
      (lk_updateSeq T l)\<lparr>lk_notified := Some ?n, lk_waiting := None\<rparr>,
      send_message (lk_addr l) (MAvail ?m) c)"
    using assms(2,4) by (auto simp: lk_sendUpdate_def lk_updateSeq_def Let_def)
  moreover have "lk_update T src ?m r = (True, r\<lparr>lk_avail := Some ?m, lk_new := True\<rparr>)"
    using newer assms(3) by (simp only: lk_update_def simp_thms if_True if_False)
  ultimately show ?thesis using seq by (auto simp: in_step_def)
qed

end

interpretation ibp_avail: avail_info "ibp_ops clust" for clust
  by unfold_locales (simp_all add: ibp_ops_def ii_setSeq_def ii_setFromSch_def ii_reduce_def)

text \<open>
  Availability updates stay in step: when the number a link last notified is the one the
  other end last accepted, a new and different summary is sent, the other end accepts it
  (it is not discarded as old), and the two numbers agree again.
\<close>

theorem ibp_update_accepted:
  assumes "map_option ii_seq (lk_notified l) = map_option ii_seq (lk_avail r)"
    and "lk_waiting l = Some w" and "lk_addr r = src"
    and "\<forall>n. lk_notified l = Some n \<longrightarrow> ii_summary n \<noteq> ii_summary w \<and> ii_seq n < - 1"
  shows "\<exists>m l'. lk_sendUpdate (ibp_ops clust) sz l c =
        (sent_size sz (lk_addr l) (MAvail m) c, l', send_message (lk_addr l) (MAvail m) c)
    \<and> lk_waiting l' = None
    \<and> lk_avail (snd (lk_update (ibp_ops clust) src m r)) = Some m
    \<and> map_option ii_seq (lk_notified l') =
        map_option ii_seq (lk_avail (snd (lk_update (ibp_ops clust) src m r)))"
proof -
  have ops: "ao_seq (ibp_ops clust) = ii_seq" "ao_eq (ibp_ops clust) = ii_eq"
    by (simp_all add: ibp_ops_def)
  have pre: "ibp_avail.in_step clust l r"
    "\<forall>n. lk_notified l = Some n \<longrightarrow> \<not> ao_eq (ibp_ops clust) n w \<and> ao_seq (ibp_ops clust) n < - 1"
    using assms(1,4) by (simp_all add: ibp_avail.in_step_def ops ii_eq_iff)
  from ibp_avail.update_in_step [OF pre(1) assms(2,3) pre(2)] show ?thesis
    by (simp add: ibp_avail.in_step_def ops)
qed

theorem ibp_update_accepted_witness:
  "let l = (mk_link (Addr 9 1))\<lparr>lk_notified := Some (example_info 50 3), lk_waiting := Some (example_info 60 0)\<rparr>;
       r = (mk_link (Addr 1 1))\<lparr>lk_avail := Some (example_info 50 3)\<rparr>
   in \<exists>m. lk_avail (snd (lk_update (ibp_ops (\<lambda>m d cs. cs)) (Addr 1 1) m r)) = Some m \<and>
       c_net (snd (snd (lk_sendUpdate (ibp_ops (\<lambda>m d cs. cs)) (\<lambda>m. 0) l (dp_comm example_disp)))) =
         [(Addr 9 1, MAvail m)]"
proof -
  let ?l = "(mk_link (Addr 9 1))\<lparr>lk_notified := Some (example_info 50 3), lk_waiting := Some (example_info 60 0)\<rparr>"
  let ?r = "(mk_link (Addr 1 1))\<lparr>lk_avail := Some (example_info 50 3)\<rparr>"
  have pre: "map_option ii_seq (lk_notified ?l) = map_option ii_seq (lk_avail ?r)"
    "lk_waiting ?l = Some (example_info 60 0)" "lk_addr ?r = Addr 1 1" by (simp_all add: mk_link_def)
  have "ii_summary (example_info 50 3) \<noteq> ii_summary (example_info 60 0)" "ii_seq (example_info 50 3) < - 1"
    by code_simp+
  then have diff: "\<forall>n. lk_notified ?l = Some n \<longrightarrow> ii_summary n \<noteq> ii_summary (example_info 60 0) \<and> ii_seq n < - 1"
    by simp
  from ibp_update_accepted [OF pre diff, of "\<lambda>m d cs. cs" "\<lambda>m. 0" "dp_comm example_disp"]
  show ?thesis
    by (auto simp: send_message_def mk_link_def example_disp_def mk_disp_def Let_def)
qed

end
