(* ===== verification/Sim_Database.thy ===== *)
theory Sim_Database
  imports Stars_Messages
begin

text \<open>
  \<open>src/oldsim/SimAppDatabase.hpp\<close>, \<open>src/oldsim/SimAppDatabase.cpp\<close>: the application database
  of the submission service, as the simulator implements it. A request holds pointers to
  the tasks of its instance; here positions in the list of tasks, \<open>None\<close> for a null pointer.
  The two caches hold an identifier and a pointer to the entry with it; the pointer is that
  entry, and \<open>None\<close> as a result is a cached pointer that points to nothing. The four static
  memory statistics are left out.
\<close>

datatype rstate = READY | SEARCHING | EXECUTING | FINISHED

record remote_task =
  rt_state :: rstate
  rt_host :: addr

definition rt_default :: remote_task where
  "rt_default = \<lparr>rt_state = READY, rt_host = null_addr\<rparr>"

record request =
  rq_id :: int
  rq_rtime :: time
  rq_stime :: time
  rq_accepted :: "64 word"
  rq_remaining :: "64 word"
  rq_tasks :: "nat option list"

record app_instance =
  in_req :: task_desc
  in_ctime :: time
  in_tasks :: "remote_task list"
  in_requests :: "request list"

record simdb =
  db_next :: task_desc
  db_instances :: "int \<Rightarrow> app_instance option"
  db_last :: int
  db_icache :: int
  db_rcache :: int

definition mk_simdb :: simdb where
  "mk_simdb = \<lparr>db_next = mk_task_desc, db_instances = (\<lambda>a. None), db_last = 0, db_icache = -1,
     db_rcache = -1\<rparr>"

definition app_id :: "int \<Rightarrow> int" where
  "app_id rid = rid div 2 ^ 32"

section \<open>Lookup\<close>

definition find_app :: "int \<Rightarrow> simdb \<Rightarrow> (bool \<times> simdb) option" where
  "find_app a db =
    (if db_icache db \<noteq> a then
       (if db_instances db a = None then Some (False, db) else Some (True, db\<lparr>db_icache := a\<rparr>))
     else if db_instances db a = None then None else Some (True, db))"

definition request_of :: "int \<Rightarrow> app_instance \<Rightarrow> request option" where
  "request_of rid i = find (\<lambda>r. rq_id r = rid) (in_requests i)"

definition has_request :: "int \<Rightarrow> simdb \<Rightarrow> bool" where
  "has_request rid db \<longleftrightarrow>
    (case db_instances db (app_id rid) of None \<Rightarrow> False | Some i \<Rightarrow> request_of rid i \<noteq> None)"

definition find_request :: "int \<Rightarrow> simdb \<Rightarrow> (bool \<times> simdb) option" where
  "find_request rid db =
    (if db_rcache db \<noteq> rid then do {
       (ok, db1) \<leftarrow> find_app (app_id rid) db;
       Some (if ok \<and> has_request rid db1 then (True, db1\<lparr>db_rcache := rid\<rparr>) else (False, db1))
     } else if \<not> has_request rid db then None else Some (True, db))"

fun replace_request :: "request \<Rightarrow> request list \<Rightarrow> request list" where
  "replace_request r [] = []"
| "replace_request r (q # qs) = (if rq_id q = rq_id r then r # qs else q # replace_request r qs)"

text \<open>
  The pattern of the operations on a request: look it up, and when it is there run \<open>f\<close> on it and
  on the tasks of its instance; otherwise return \<open>d\<close>.
\<close>

definition with_request :: "int \<Rightarrow> (request \<times> remote_task list \<Rightarrow>
    ('r \<times> request \<times> remote_task list) option) \<Rightarrow> 'r \<Rightarrow> simdb \<Rightarrow> ('r \<times> simdb) option" where
  "with_request rid f d db = do {
     (ok, db1) \<leftarrow> find_request rid db;
     (if \<not> ok then Some (d, db1) else do {
        i \<leftarrow> db_instances db1 (app_id rid);
        r \<leftarrow> request_of rid i;
        (x, r', ts) \<leftarrow> f (r, in_tasks i);
        Some (x, db1\<lparr>db_instances := (db_instances db1)(app_id rid \<mapsto>
          i\<lparr>in_tasks := ts, in_requests := replace_request r' (in_requests i)\<rparr>)\<rparr>)
      })
   }"

section \<open>Instances and requests\<close>

definition app_instance_finished :: "int \<Rightarrow> simdb \<Rightarrow> simdb" where
  "app_instance_finished a db =
    (if db_instances db a = None then db
     else db\<lparr>db_instances := (db_instances db)(a := None), db_icache := -1, db_rcache := -1\<rparr>)"

definition create_app_instance :: "time \<Rightarrow> time \<Rightarrow> simdb \<Rightarrow> int \<times> simdb" where
  "create_app_instance now deadline db =
    (let a = db_last db + 1;
         old = (case db_instances db a of
                  None \<Rightarrow> \<lparr>in_req = mk_task_desc, in_ctime = 0, in_tasks = [], in_requests = []\<rparr>
                | Some i \<Rightarrow> i);
         n = unat (td_numTasks (db_next db));
         i = old\<lparr>in_req := (db_next db)\<lparr>td_deadline := deadline\<rparr>, in_ctime := now,
                 in_tasks := take n (in_tasks old @ replicate n rt_default)\<rparr>
     in (a, db\<lparr>db_last := a, db_instances := (db_instances db)(a \<mapsto> i), db_icache := a\<rparr>))"

definition ready_positions :: "remote_task list \<Rightarrow> nat list" where
  "ready_positions ts = filter (\<lambda>k. rt_state (ts ! k) = READY) [0..<length ts]"

definition request_from_ready :: "int \<Rightarrow> taskbag_msg \<Rightarrow> simdb \<Rightarrow> (taskbag_msg \<times> simdb) option" where
  "request_from_ready a m db = do {
     (ok, db1) \<leftarrow> find_app a db;
     (if \<not> ok then Some (m, db1) else do {
        i \<leftarrow> db_instances db1 a;
        let rid = (if in_requests i = [] then a * 2 ^ 32 else rq_id (last (in_requests i)) + 1);
        let ps = ready_positions (in_tasks i);
        let r = \<lparr>rq_id = rid, rq_rtime = 0, rq_stime = 0, rq_accepted = 0,
                 rq_remaining = of_nat (length ps), rq_tasks = map Some ps\<rparr>;
        Some (m\<lparr>tb_requestId := rid, tb_firstTask := 1, tb_lastTask := of_nat (length ps),
                tb_minReq := in_req i\<rparr>,
          db1\<lparr>db_instances := (db_instances db1)(a \<mapsto> i\<lparr>in_requests := in_requests i @ [r]\<rparr>),
              db_rcache := rid\<rparr>)
      })
   }"

definition get_instance_id :: "int \<Rightarrow> simdb \<Rightarrow> int" where
  "get_instance_id rid db =
    (if db_icache db = app_id rid \<or> db_instances db (app_id rid) \<noteq> None then app_id rid else -1)"

definition set_state :: "rstate \<Rightarrow> nat \<Rightarrow> remote_task list \<Rightarrow> remote_task list" where
  "set_state st k ts = ts[k := (ts ! k)\<lparr>rt_state := st\<rparr>]"

section \<open>The life of a request\<close>

text \<open>The search starts: every task of the request is now searched for. A null pointer is followed.\<close>

definition start_search :: "time \<Rightarrow> int \<Rightarrow> simdb \<Rightarrow> (bool \<times> simdb) option" where
  "start_search now rid db = with_request rid (\<lambda>(r, ts).
     if None \<in> set (rq_tasks r) then None
     else Some (True, r\<lparr>rq_rtime := now, rq_stime := now\<rparr>,
            fold (set_state SEARCHING) (map the (rq_tasks r)) ts)) False db"

fun cancel_loop :: "time \<Rightarrow> nat list \<Rightarrow> 32 word \<times> request \<times> remote_task list \<Rightarrow>
    32 word \<times> request \<times> remote_task list" where
  "cancel_loop now [] x = x"
| "cancel_loop now (k # ks) (n, r, ts) =
    cancel_loop now ks
      (case rq_tasks r ! k of
         None \<Rightarrow> (n, r, ts)
       | Some p \<Rightarrow>
          (if rt_state (ts ! p) = SEARCHING
           then (n + 1, r\<lparr>rq_stime := now, rq_tasks := (rq_tasks r)[k := None],
                   rq_remaining := rq_remaining r - 1\<rparr>, set_state READY p ts)
           else (n, r, ts)))"

definition cancel_search :: "time \<Rightarrow> int \<Rightarrow> simdb \<Rightarrow> (32 word \<times> simdb) option" where
  "cancel_search now rid db = with_request rid (\<lambda>(r, ts).
     Some (cancel_loop now [0..<length (rq_tasks r)] (0, r, ts))) 0 db"

fun accept_loop :: "addr \<Rightarrow> nat list \<Rightarrow> 32 word \<times> request \<times> remote_task list \<Rightarrow>
    32 word \<times> request \<times> remote_task list" where
  "accept_loop src [] x = x"
| "accept_loop src (k # ks) (n, r, ts) =
    accept_loop src ks
      (if length (rq_tasks r) \<le> k then (n, r, ts)
       else case rq_tasks r ! k of
         None \<Rightarrow> (n, r, ts)
       | Some p \<Rightarrow>
          (if rt_state (ts ! p) \<noteq> SEARCHING then (n, r, ts)
           else (n + 1, r\<lparr>rq_accepted := rq_accepted r + 1\<rparr>,
                 ts[p := (ts ! p)\<lparr>rt_state := EXECUTING, rt_host := src\<rparr>])))"

definition accepted_tasks :: "time \<Rightarrow> addr \<Rightarrow> int \<Rightarrow> 32 word \<Rightarrow> 32 word \<Rightarrow> simdb \<Rightarrow>
    (32 word \<times> simdb) option" where
  "accepted_tasks now src rid firstT lastT db = with_request rid (\<lambda>(r, ts).
     let (n, r1, ts1) = accept_loop src [unat (firstT - 1)..<unat lastT] (0, r, ts)
     in Some (n, if n \<noteq> 0 then r1\<lparr>rq_stime := now\<rparr> else r1, ts1)) 0 db"

definition task_in_request :: "32 word \<Rightarrow> int \<Rightarrow> simdb \<Rightarrow> (bool \<times> simdb) option" where
  "task_in_request tid rid db = with_request rid (\<lambda>(r, ts).
     let k = unat (tid - 1)
     in Some (k < length (rq_tasks r) \<and> rq_tasks r ! k \<noteq> None, r, ts)) False db"

definition finished_task :: "int \<Rightarrow> 32 word \<Rightarrow> simdb \<Rightarrow> (bool \<times> simdb) option" where
  "finished_task rid rtid db = with_request rid (\<lambda>(r, ts).
     let k = unat (rtid - 1)
     in if length (rq_tasks r) \<le> k then Some (False, r, ts)
        else case rq_tasks r ! k of
            None \<Rightarrow> Some (False, r, ts)
          | Some p \<Rightarrow> Some (True, r\<lparr>rq_remaining := rq_remaining r - 1\<rparr>, set_state FINISHED p ts)) False db"

definition aborted_task :: "int \<Rightarrow> 32 word \<Rightarrow> simdb \<Rightarrow> (bool \<times> simdb) option" where
  "aborted_task rid rtid db = with_request rid (\<lambda>(r, ts).
     let k = unat (rtid - 1)
     in if length (rq_tasks r) \<le> k then Some (False, r, ts)
        else case rq_tasks r ! k of
            None \<Rightarrow> Some (False, r, ts)
          | Some p \<Rightarrow> Some (True, r\<lparr>rq_tasks := (rq_tasks r)[k := None]\<rparr>, set_state READY p ts)) False db"

text \<open>A node has failed: its tasks are ready again and leave their requests.\<close>

fun dead_slots :: "addr \<Rightarrow> nat option list \<Rightarrow> remote_task list \<Rightarrow> nat option list \<times> remote_task list" where
  "dead_slots f [] ts = ([], ts)"
| "dead_slots f (None # ss) ts = (let (ss', ts') = dead_slots f ss ts in (None # ss', ts'))"
| "dead_slots f (Some p # ss) ts =
    (if rt_state (ts ! p) = EXECUTING \<and> rt_host (ts ! p) = f
     then (let (ss', ts') = dead_slots f ss (set_state READY p ts) in (None # ss', ts'))
     else (let (ss', ts') = dead_slots f ss ts in (Some p # ss', ts')))"

fun dead_requests :: "addr \<Rightarrow> request list \<Rightarrow> remote_task list \<Rightarrow> request list \<times> remote_task list" where
  "dead_requests f [] ts = ([], ts)"
| "dead_requests f (r # rs) ts =
    (let (ss, ts1) = dead_slots f (rq_tasks r) ts;
         (rs', ts2) = dead_requests f rs ts1
     in (r\<lparr>rq_tasks := ss\<rparr> # rs', ts2))"

definition dead_instance :: "addr \<Rightarrow> app_instance \<Rightarrow> app_instance" where
  "dead_instance f i =
    (let (rs, ts) = dead_requests f (in_requests i) (in_tasks i)
     in i\<lparr>in_requests := rs, in_tasks := ts\<rparr>)"

definition dead_node :: "addr \<Rightarrow> simdb \<Rightarrow> simdb" where
  "dead_node f db = db\<lparr>db_instances := (\<lambda>a. map_option (dead_instance f) (db_instances db a))\<rparr>"

section \<open>Counts\<close>

definition count_state :: "(rstate \<Rightarrow> bool) \<Rightarrow> int \<Rightarrow> simdb \<Rightarrow> (nat \<times> simdb) option" where
  "count_state P a db = do {
     (ok, db1) \<leftarrow> find_app a db;
     (if \<not> ok then Some (0, db1) else do {
        i \<leftarrow> db_instances db1 a;
        Some (length (filter (\<lambda>t. P (rt_state t)) (in_tasks i)), db1)
      })
   }"

definition get_num_finished :: "int \<Rightarrow> simdb \<Rightarrow> (nat \<times> simdb) option" where
  "get_num_finished = count_state (\<lambda>s. s = FINISHED)"

definition get_num_ready :: "int \<Rightarrow> simdb \<Rightarrow> (nat \<times> simdb) option" where
  "get_num_ready = count_state (\<lambda>s. s = READY)"

definition get_num_executing :: "int \<Rightarrow> simdb \<Rightarrow> (nat \<times> simdb) option" where
  "get_num_executing = count_state (\<lambda>s. s = EXECUTING)"

definition get_num_in_process :: "int \<Rightarrow> simdb \<Rightarrow> (nat \<times> simdb) option" where
  "get_num_in_process = count_state (\<lambda>s. s = EXECUTING \<or> s = SEARCHING)"

definition get_release_time :: "int \<Rightarrow> simdb \<Rightarrow> (time \<times> simdb) option" where
  "get_release_time a db = do {
     (ok, db1) \<leftarrow> find_app a db;
     (if \<not> ok then Some (0, db1) else do { i \<leftarrow> db_instances db1 a; Some (in_ctime i, db1) })
   }"

section \<open>A database to evaluate\<close>

text \<open>One instance of two tasks, both searched for in one request, the first accepted by a node.\<close>

definition example_db :: simdb where
  "example_db =
    (let (a, d1) = create_app_instance 5 100 (mk_simdb\<lparr>db_next := mk_task_desc\<lparr>td_numTasks := 2\<rparr>\<rparr>);
         d2 = snd (the (request_from_ready a mk_taskbag d1));
         d3 = snd (the (start_search 6 (2 ^ 32) d2))
     in snd (the (accepted_tasks 7 (Addr 5 5) (2 ^ 32) 1 1 d3)))"

section \<open>Facts\<close>

lemma set_state_length [simp]: "length (set_state st p ts) = length ts"
  by (simp add: set_state_def)

lemma set_state_nth:
  "rt_state (set_state st p ts ! q) = (if p = q \<and> q < length ts then st else rt_state (ts ! q))"
  by (cases "p = q"; cases "q < length ts") (simp_all add: set_state_def list_update_beyond)

lemma request_of_replace:
  "request_of rid i = Some r \<Longrightarrow> rq_id r' = rid \<Longrightarrow>
   request_of rid (i\<lparr>in_tasks := ts, in_requests := replace_request r' (in_requests i)\<rparr>) = Some r'"
proof -
  assume "request_of rid i = Some r" "rq_id r' = rid"
  then have "find (\<lambda>r. rq_id r = rid) rs = Some r \<Longrightarrow>
      find (\<lambda>r. rq_id r = rid) (replace_request r' rs) = Some r'" for rs
    by (induction rs) (auto split: if_splits)
  with \<open>request_of rid i = Some r\<close> show ?thesis by (simp add: request_of_def)
qed

lemma request_of_id: "request_of rid i = Some r \<Longrightarrow> rq_id r = rid"
  by (auto simp: request_of_def find_Some_iff)

lemma find_request_True:
  assumes "find_request rid db = Some (True, db1)"
  shows "db_rcache db1 = rid" and "has_request rid db1"
  using assms by (auto simp: find_request_def bind_Some_iff has_request_def split: if_splits)

text \<open>An operation that keeps the identifier leaves the request found, with its new contents.\<close>

lemma with_request_found:
  assumes "with_request rid f d db = Some (x, db')" and "find_request rid db = Some (True, db1)"
    and "\<forall>r ts x r' ts'. f (r, ts) = Some (x, r', ts') \<longrightarrow> rq_id r' = rq_id r"
  shows "\<exists>i r r' ts'. db_instances db1 (app_id rid) = Some i \<and> request_of rid i = Some r
    \<and> f (r, in_tasks i) = Some (x, r', ts')
    \<and> db_instances db' (app_id rid) =
        Some (i\<lparr>in_tasks := ts', in_requests := replace_request r' (in_requests i)\<rparr>)
    \<and> request_of rid (i\<lparr>in_tasks := ts', in_requests := replace_request r' (in_requests i)\<rparr>) = Some r'
    \<and> find_request rid db' = Some (True, db')"
proof -
  from assms(1,2) obtain i r r' ts' where i: "db_instances db1 (app_id rid) = Some i"
    "request_of rid i = Some r" "f (r, in_tasks i) = Some (x, r', ts')"
    and db': "db' = db1\<lparr>db_instances := (db_instances db1)(app_id rid \<mapsto>
      i\<lparr>in_tasks := ts', in_requests := replace_request r' (in_requests i)\<rparr>)\<rparr>"
    by (auto simp: with_request_def bind_Some_iff)
  have "rq_id r' = rid" using assms(3) i(3) request_of_id [OF i(2)] by blast
  note found = request_of_replace [OF i(2) this, of ts']
  have "find_request rid db' = Some (True, db')"
    using find_request_True(1) [OF assms(2)] found
    by (simp add: find_request_def has_request_def db')
  with i found db' show ?thesis by simp
qed

lemma cancel_loop_result:
  "cancel_loop now ks (n, r, ts) = (n', r', ts') \<Longrightarrow> \<forall>k \<in> set ks. k < length (rq_tasks r) \<Longrightarrow>
    rq_id r' = rq_id r \<and> length (rq_tasks r') = length (rq_tasks r) \<and> length ts' = length ts
    \<and> (\<forall>p. rt_state (ts' ! p) = SEARCHING \<longrightarrow> rt_state (ts ! p) = SEARCHING)
    \<and> (\<forall>k p. k < length (rq_tasks r) \<longrightarrow> rq_tasks r' ! k = Some p \<longrightarrow> rq_tasks r ! k = Some p)
    \<and> (\<forall>k \<in> set ks. \<forall>p. rq_tasks r' ! k = Some p \<longrightarrow> rt_state (ts' ! p) \<noteq> SEARCHING)"
proof (induction ks arbitrary: n r ts)
  case Nil
  then show ?case by simp
next
  case (Cons k ks)
  show ?case
  proof (cases "\<exists>p. rq_tasks r ! k = Some p \<and> rt_state (ts ! p) = SEARCHING")
    case True
    then obtain p where p: "rq_tasks r ! k = Some p" "rt_state (ts ! p) = SEARCHING" by blast
    let ?r = "r\<lparr>rq_stime := now, rq_tasks := (rq_tasks r)[k := None], rq_remaining := rq_remaining r - 1\<rparr>"
    have "cancel_loop now ks (n + 1, ?r, set_state READY p ts) = (n', r', ts')"
      using Cons.prems(1) p by simp
    from Cons.IH [OF this] Cons.prems(2) show ?thesis
      by (auto simp: set_state_nth nth_list_update split: if_splits)
  next
    case False
    then have "cancel_loop now ks (n, r, ts) = (n', r', ts')"
      using Cons.prems(1) by (auto split: option.splits)
    from Cons.IH [OF this] Cons.prems(2) False show ?thesis by fastforce
  qed
qed



text \<open>
  A finished task is reported as finished again: the pointer in the request is never reset,
  so the same report is accepted a second time, although the code means to refuse it
  (``already finished''), and the count of remaining tasks goes down again.
\<close>

theorem finished_task_twice:
  assumes "finished_task rid k db = Some (True, db')"
  shows "\<exists>db'' i r i' r'. finished_task rid k db' = Some (True, db'')
    \<and> db_instances db' (app_id rid) = Some i \<and> request_of rid i = Some r
    \<and> db_instances db'' (app_id rid) = Some i' \<and> request_of rid i' = Some r'
    \<and> rq_remaining r' = rq_remaining r - 1"
proof -
  let ?k = "unat (k - 1)"
  let ?f = "\<lambda>(r, ts). let k = unat (k - 1)
     in if length (rq_tasks r) \<le> k then Some (False, r, ts)
        else case rq_tasks r ! k of
            None \<Rightarrow> Some (False, r, ts)
          | Some p \<Rightarrow> Some (True, r\<lparr>rq_remaining := rq_remaining r - 1\<rparr>, set_state FINISHED p ts)"
  obtain ok db1 where fr: "find_request rid db = Some (ok, db1)"
    using assms by (auto simp: finished_task_def with_request_def bind_Some_iff)
  have ok using assms fr by (cases ok) (simp_all add: finished_task_def with_request_def)
  then have fr: "find_request rid db = Some (True, db1)" using fr by simp
  have ids: "\<forall>r ts x r' ts'. ?f (r, ts) = Some (x, r', ts') \<longrightarrow> rq_id r' = rq_id r"
    by (auto simp: Let_def split: if_splits option.splits)
  from with_request_found [OF assms [unfolded finished_task_def] fr ids] obtain i0 r0 r1 ts1 where
    f: "?f (r0, in_tasks i0) = Some (True, r1, ts1)"
    and i: "db_instances db' (app_id rid) = Some (i0\<lparr>in_tasks := ts1, in_requests := replace_request r1 (in_requests i0)\<rparr>)"
    and r: "request_of rid (i0\<lparr>in_tasks := ts1, in_requests := replace_request r1 (in_requests i0)\<rparr>) = Some r1"
    and fr': "find_request rid db' = Some (True, db')"
    by blast
  from f obtain p where p: "\<not> length (rq_tasks r1) \<le> ?k" "rq_tasks r1 ! ?k = Some p"
    by (auto simp: Let_def split: if_splits option.splits)
  let ?i = "i0\<lparr>in_tasks := ts1, in_requests := replace_request r1 (in_requests i0)\<rparr>"
  let ?db = "db'\<lparr>db_instances := (db_instances db')(app_id rid \<mapsto>
      ?i\<lparr>in_tasks := set_state FINISHED p ts1,
         in_requests := replace_request (r1\<lparr>rq_remaining := rq_remaining r1 - 1\<rparr>) (in_requests ?i)\<rparr>)\<rparr>"
  have fin: "finished_task rid k db' = Some (True, ?db)"
    using p by (simp add: finished_task_def with_request_def fr' i r Let_def)
  have "request_of rid (?i\<lparr>in_tasks := set_state FINISHED p ts1,
      in_requests := replace_request (r1\<lparr>rq_remaining := rq_remaining r1 - 1\<rparr>) (in_requests ?i)\<rparr>) =
      Some (r1\<lparr>rq_remaining := rq_remaining r1 - 1\<rparr>)"
    by (rule request_of_replace [OF r]) (use request_of_id [OF r] in simp)
  with fin i r show ?thesis by (intro exI conjI) (assumption | simp)+
qed

theorem finished_task_twice_witness:
  "\<exists>db db'. finished_task (2 ^ 32) 1 example_db = Some (True, db)
     \<and> finished_task (2 ^ 32) 1 db = Some (True, db')"
proof -
  let ?x = "the (finished_task (2 ^ 32) 1 example_db)"
  have "finished_task (2 ^ 32) 1 example_db \<noteq> None" "fst ?x" by code_simp+
  then have f: "finished_task (2 ^ 32) 1 example_db = Some (True, snd ?x)" by (cases ?x) auto
  from finished_task_twice [OF this] f show ?thesis by blast
qed

end
