(* ===== verification/Submission_Node.thy ===== *)
theory Submission_Node
  imports Sim_Database Scheduler
begin

text \<open>
  \<open>include/SubmissionNode.hpp\<close>, \<open>src/lib/scheduling/SubmissionNode.cpp\<close>: the service that sends
  the user's requests and follows their tasks, over the database of \<open>Sim_Database\<close>. A
  \<open>std::map\<close> that is only read and written by key is a function to options; the tasks per
  application of a node, which the code walks in key order, are a sorted association list.
  \<open>sb_father\<close> is what \<open>leaf.getFatherAddress()\<close> returns. \<open>finishedApp\<close> has an empty body in this
  library and another one in the simulators, so the handlers take it as an argument, its effect
  on the database. \<open>None\<close> is a dereferenced or erased \<open>end()\<close> iterator or a null pointer.
\<close>

section \<open>Ordered maps\<close>

fun om_put :: "int \<Rightarrow> 'v \<Rightarrow> (int \<times> 'v) list \<Rightarrow> (int \<times> 'v) list" where
  "om_put k v [] = [(k, v)]"
| "om_put k v ((a, b) # m) =
    (if k < a then (k, v) # (a, b) # m else if k = a then (k, v) # m else (a, b) # om_put k v m)"

fun om_del :: "int \<Rightarrow> (int \<times> 'v) list \<Rightarrow> (int \<times> 'v) list" where
  "om_del k [] = []"
| "om_del k ((a, b) # m) = (if k = a then m else (a, b) # om_del k m)"

section \<open>State\<close>

record 'i subnode =
  sb_father :: addr
  sb_inChange :: bool
  sb_delayed :: "(int \<times> int) list"
  sb_remaining :: "int \<Rightarrow> 32 word option"
  sb_retries :: "int \<Rightarrow> int option"
  sb_heartbeats :: "addr \<Rightarrow> int option"
  sb_remote :: "addr \<Rightarrow> (int \<times> 32 word) list option"
  sb_db :: simdb
  sb_comm :: "'i comm"

definition mk_subnode :: "simdb \<Rightarrow> 'i comm \<Rightarrow> 'i subnode" where
  "mk_subnode db c = \<lparr>sb_father = null_addr, sb_inChange = False, sb_delayed = [],
     sb_remaining = (\<lambda>a. None), sb_retries = (\<lambda>r. None), sb_heartbeats = (\<lambda>n. None),
     sb_remote = (\<lambda>n. None), sb_db = db, sb_comm = c\<rparr>"

text \<open>\<open>m[k]\<close> of a map from applications to counts: an absent key is there with \<open>0\<close>.\<close>

definition count_of :: "int \<Rightarrow> (int \<Rightarrow> 32 word option) \<Rightarrow> 32 word" where
  "count_of k m = (case m k of None \<Rightarrow> 0 | Some n \<Rightarrow> n)"

section \<open>Operations\<close>

definition send_request :: "sched_config \<Rightarrow> int \<Rightarrow> int \<Rightarrow> 'i subnode \<Rightarrow> 'i subnode option" where
  "send_request K app prev s =
    (if sb_inChange s then Some (s\<lparr>sb_delayed := sb_delayed s @ [(app, prev)]\<rparr>) else do {
       (m0, db1) \<leftarrow> request_from_ready app (mk_taskbag\<lparr>tb_lastTask := 0\<rparr>) (sb_db s);
       (if tb_lastTask m0 = 0 then Some (s\<lparr>sb_db := db1\<rparr>) else do {
          let rid = tb_requestId m0;
          let m = m0\<lparr>tb_requester := c_local (sb_comm s), tb_forEN := False, tb_fromEN := True\<rparr>;
          let timeout = c_now (sb_comm s) + cfg_requestTimeout K;
          let (i, c1) = set_timer_at timeout (MRequestTimeout rid) (sb_comm s);
          let s1 = s\<lparr>sb_retries := (sb_retries s)(rid \<mapsto> prev + 1),
                     sb_remaining := (sb_remaining s)(app \<mapsto>
                       count_of app (sb_remaining s) + (tb_lastTask m - tb_firstTask m + 1)),
                     sb_comm := c1\<rparr>;
          (ok, db2) \<leftarrow> start_search (c_now c1) rid db1;
          Some (if ok then s1\<lparr>sb_db := db2, sb_comm := send_message (sb_father s) (MTaskBag m) c1\<rparr>
                else s1\<lparr>sb_db := db2\<rparr>)
        })
     })"

definition sb_dispatch :: "sched_config \<Rightarrow> dispatchcmd_msg \<Rightarrow> 'i subnode \<Rightarrow> 'i subnode option" where
  "sb_dispatch K msg s =
    (if sb_father s = null_addr then Some s
     else (let (app, db1) = create_app_instance (c_now (sb_comm s)) (dc_deadline msg) (sb_db s);
               s1 = s\<lparr>sb_db := db1\<rparr>
           in if app \<noteq> -1
              then send_request K app 0 (s1\<lparr>sb_remaining := (sb_remaining s1)(app \<mapsto> 0)\<rparr>)
              else Some s1))"

definition sb_father_changing :: "'i subnode \<Rightarrow> 'i subnode" where
  "sb_father_changing s = s\<lparr>sb_inChange := True\<rparr>"

text \<open>The loop sends the front and then pops it; \<open>inChange\<close> is false, so nothing is queued meanwhile.\<close>

fun send_delayed :: "sched_config \<Rightarrow> (int \<times> int) list \<Rightarrow> 'i subnode \<Rightarrow> 'i subnode option" where
  "send_delayed K [] s = Some s"
| "send_delayed K ((app, prev) # ds) s = do {
     s1 \<leftarrow> send_request K app prev s;
     send_delayed K ds (s1\<lparr>sb_delayed := tl (sb_delayed s1)\<rparr>)
   }"

definition sb_father_changed :: "sched_config \<Rightarrow> bool \<Rightarrow> 'i subnode \<Rightarrow> 'i subnode option" where
  "sb_father_changed K changed s = send_delayed K (sb_delayed s) (s\<lparr>sb_inChange := False\<rparr>)"

text \<open>The heartbeat timer of a node, two and a half times the period the node announces.\<close>

definition set_heartbeat :: "addr \<Rightarrow> int \<Rightarrow> 'i comm \<Rightarrow> int \<times> 'i comm" where
  "set_heartbeat src hb c = set_timer_in (2500000 * hb) (MHeartbeatTimeout src) c"

definition sb_accept :: "addr \<Rightarrow> accept_msg \<Rightarrow> 'i subnode \<Rightarrow> 'i subnode option" where
  "sb_accept src msg s =
    (let app = get_instance_id (acc_requestId msg) (sb_db s)
     in if app = -1 then Some s else do {
          (n, db1) \<leftarrow> accepted_tasks (c_now (sb_comm s)) src (acc_requestId msg) (acc_firstTask msg)
                        (acc_lastTask msg) (sb_db s);
          let s1 = s\<lparr>sb_db := db1\<rparr>;
          Some (if n = 0 then s1
                else let timer = (case sb_heartbeats s1 src of None \<Rightarrow> 0 | Some t \<Rightarrow> t);
                         (t, c) = (if timer = 0 then set_heartbeat src (acc_heartbeat msg) (sb_comm s1)
                                   else (timer, sb_comm s1));
                         tpa = (case sb_remote s1 src of None \<Rightarrow> [] | Some m \<Rightarrow> m)
                     in s1\<lparr>sb_retries := (sb_retries s1)(acc_requestId msg \<mapsto> 0),
                           sb_heartbeats := (sb_heartbeats s1)(src \<mapsto> t), sb_comm := c,
                           sb_remote := (sb_remote s1)(src \<mapsto> om_put app (count_of app (map_of tpa) + n) tpa)\<rparr>)
        })"

definition sb_timeout :: "sched_config \<Rightarrow> (int \<Rightarrow> simdb \<Rightarrow> simdb) \<Rightarrow> int \<Rightarrow> 'i subnode \<Rightarrow>
    'i subnode option" where
  "sb_timeout K fin rid s =
    (let app = get_instance_id rid (sb_db s)
     in if app = -1 then Some s else do {
          n \<leftarrow> sb_remaining s app;
          (k, db1) \<leftarrow> cancel_search (c_now (sb_comm s)) rid (sb_db s);
          let s1 = s\<lparr>sb_db := db1, sb_remaining := (sb_remaining s)(app \<mapsto> n - k)\<rparr>;
          (r, db2) \<leftarrow> get_num_ready app (sb_db s1);
          let s2 = s1\<lparr>sb_db := db2\<rparr>;
          prev \<leftarrow> sb_retries s2 rid;
          s3 \<leftarrow> (if r > 0 \<and> prev < cfg_submitRetries K then send_request K app prev s2
                else Some (if n - k = 0
                           then s2\<lparr>sb_db := fin app (sb_db s2), sb_remaining := (sb_remaining s2)(app := None)\<rparr>
                           else s2));
          Some (s3\<lparr>sb_retries := (sb_retries s3)(rid := None)\<rparr>)
        })"

text \<open>One entry of a monitor message; the first component is \<open>tasksPerApp\<close> of the sender.\<close>

definition monitor_finished :: "(int \<Rightarrow> simdb \<Rightarrow> simdb) \<Rightarrow> int \<Rightarrow> 32 word \<Rightarrow>
    (int \<times> 32 word) list \<times> 'i subnode \<Rightarrow> ((int \<times> 32 word) list \<times> 'i subnode) option" where
  "monitor_finished fin rid tid = (\<lambda>(tpa, s). do {
     let app = get_instance_id rid (sb_db s);
     (ok, db1) \<leftarrow> finished_task rid tid (sb_db s);
     let s1 = s\<lparr>sb_db := db1\<rparr>;
     (if \<not> ok then Some (tpa, s1)
      else case map_of tpa app of
          None \<Rightarrow> Some (tpa, s1)
        | Some n \<Rightarrow>
           (let tpa1 = (if n - 1 = 0 then om_del app tpa else om_put app (n - 1) tpa)
            in case sb_remaining s1 app of
                None \<Rightarrow> Some (tpa1, s1)
              | Some q \<Rightarrow> Some (tpa1,
                  if q - 1 = 0
                  then s1\<lparr>sb_db := fin app (sb_db s1), sb_remaining := (sb_remaining s1)(app := None)\<rparr>
                  else s1\<lparr>sb_remaining := (sb_remaining s1)(app \<mapsto> q - 1)\<rparr>)))
   })"

definition monitor_aborted :: "sched_config \<Rightarrow> int \<Rightarrow> 32 word \<Rightarrow>
    (int \<times> 32 word) list \<times> 'i subnode \<Rightarrow> ((int \<times> 32 word) list \<times> 'i subnode) option" where
  "monitor_aborted K rid tid = (\<lambda>(tpa, s). do {
     let app = get_instance_id rid (sb_db s);
     (ok, db1) \<leftarrow> aborted_task rid tid (sb_db s);
     let s1 = s\<lparr>sb_db := db1\<rparr>;
     (if \<not> ok then Some (tpa, s1) else do {
        let s2 = s1\<lparr>sb_remaining := (sb_remaining s1)(app \<mapsto> count_of app (sb_remaining s1) - 1)\<rparr>;
        (case map_of tpa app of
           None \<Rightarrow> Some (tpa, s2)
         | Some n \<Rightarrow> do {
             s3 \<leftarrow> send_request K app 0 s2;
             Some (if n - 1 = 0 then om_del app tpa else om_put app (n - 1) tpa, s3)
           })
      })
   })"

fun monitor_loop :: "sched_config \<Rightarrow> (int \<Rightarrow> simdb \<Rightarrow> simdb) \<Rightarrow> addr \<Rightarrow> ((int \<times> 32 word) \<times> int) list \<Rightarrow>
    (int \<times> 32 word) list \<times> 'i subnode \<Rightarrow> ((int \<times> 32 word) list \<times> 'i subnode) option" where
  "monitor_loop K fin src [] x = Some x"
| "monitor_loop K fin src (((rid, tid), st) # es) (tpa, s) = do {
     (n, db1) \<leftarrow> accepted_tasks (c_now (sb_comm s)) src rid tid tid (sb_db s);
     let s1 = s\<lparr>sb_db := db1\<rparr>;
     x \<leftarrow> (if st = t_finished then monitor_finished fin rid tid (tpa, s1)
          else if st = t_aborted then monitor_aborted K rid tid (tpa, s1)
          else Some (tpa, s1));
     monitor_loop K fin src es x
   }"

definition sb_monitor :: "sched_config \<Rightarrow> (int \<Rightarrow> simdb \<Rightarrow> simdb) \<Rightarrow> addr \<Rightarrow> monitor_msg \<Rightarrow> 'i subnode \<Rightarrow>
    'i subnode option" where
  "sb_monitor K fin src msg s = do {
     let tpa0 = (case sb_remote s src of None \<Rightarrow> [] | Some m \<Rightarrow> m);
     (tpa, s1) \<leftarrow> monitor_loop K fin src (zip (mon_tasks msg) (mon_states msg)) (tpa0, s);
     let hb = (case sb_heartbeats s1 src of None \<Rightarrow> 0 | Some t \<Rightarrow> t);
     let c1 = cancel_timer hb (sb_comm s1);
     Some (if tpa \<noteq> [] then
             (let (t, c2) = set_heartbeat src (mon_heartbeat msg) c1
              in s1\<lparr>sb_remote := (sb_remote s1)(src \<mapsto> tpa), sb_comm := c2,
                    sb_heartbeats := (sb_heartbeats s1)(src \<mapsto> t)\<rparr>)
           else s1\<lparr>sb_remote := (sb_remote s1)(src := None), sb_comm := c1,
                   sb_heartbeats := (sb_heartbeats s1)(src := None)\<rparr>)
   }"

fun relaunch :: "sched_config \<Rightarrow> (int \<times> 32 word) list \<Rightarrow> 'i subnode \<Rightarrow> 'i subnode option" where
  "relaunch K [] s = Some s"
| "relaunch K ((app, n) # m) s = do {
     s1 \<leftarrow> send_request K app 0
       (s\<lparr>sb_remaining := (sb_remaining s)(app \<mapsto> count_of app (sb_remaining s) - n)\<rparr>);
     relaunch K m s1
   }"

definition sb_heartbeat_timeout :: "sched_config \<Rightarrow> addr \<Rightarrow> 'i subnode \<Rightarrow> 'i subnode option" where
  "sb_heartbeat_timeout K node s = do {
     let s1 = s\<lparr>sb_heartbeats := (sb_heartbeats s)(node := None), sb_db := dead_node node (sb_db s)\<rparr>;
     s2 \<leftarrow> relaunch K (case sb_remote s1 node of None \<Rightarrow> [] | Some m \<Rightarrow> m) s1;
     Some (s2\<lparr>sb_remote := (sb_remote s2)(node := None)\<rparr>)
   }"

definition sb_receive :: "sched_config \<Rightarrow> (int \<Rightarrow> simdb \<Rightarrow> simdb) \<Rightarrow> 'i subnode \<Rightarrow> addr \<Rightarrow> 'i msg \<Rightarrow>
    (bool \<times> 'i subnode) option" where
  "sb_receive K fin s src m =
    (case m of
       MDispatchCmd x \<Rightarrow> map_option (Pair True) (sb_dispatch K x s)
     | MAccept x \<Rightarrow> map_option (Pair True) (sb_accept src x s)
     | MRequestTimeout rid \<Rightarrow> map_option (Pair True) (sb_timeout K fin rid s)
     | MMonitor x \<Rightarrow> map_option (Pair True) (sb_monitor K fin src x s)
     | MHeartbeatTimeout n \<Rightarrow> map_option (Pair True) (sb_heartbeat_timeout K n s)
     | _ \<Rightarrow> Some (False, s))"

definition sb_is_idle :: "'i subnode \<Rightarrow> bool" where
  "sb_is_idle s \<longleftrightarrow> sb_remaining s = (\<lambda>a. None)"

end
