(* ===== verification/Submission_Props.thy ===== *)
theory Submission_Props
  imports Submission_Node
begin

text \<open>A run of the submission service and the properties of its database and its requests.\<close>

section \<open>A run\<close>

definition submission_config :: sched_config where
  "submission_config = \<lparr>cfg_heartbeat = 60, cfg_reschedule = 0, cfg_requestTimeout = 30000000,
     cfg_submitRetries = 3\<rparr>"

definition example_sub :: "nat subnode" where
  "example_sub = (mk_subnode (mk_simdb\<lparr>db_next := mk_task_desc\<lparr>td_numTasks := 2\<rparr>\<rparr>) example_comm)
     \<lparr>sb_father := Addr 9 9\<rparr>"

definition run_messages :: "(int \<Rightarrow> simdb \<Rightarrow> simdb) \<Rightarrow> (addr \<times> nat msg) list \<Rightarrow> nat subnode option" where
  "run_messages fin ms = fold (\<lambda>(a, m) s. Option.bind s (\<lambda>s. map_option snd (sb_receive submission_config fin s a m)))
     ms (Some example_sub)"

definition two_tasks :: "(addr \<times> nat msg) list" where
  "two_tasks =
    [(Addr 1 1, MDispatchCmd \<lparr>dc_appName = ''app'', dc_deadline = 100\<rparr>),
     (Addr 5 5, MAccept \<lparr>acc_requestId = 2 ^ 32, acc_firstTask = 1, acc_lastTask = 2, acc_heartbeat = 60\<rparr>),
     (Addr 5 5, MMonitor \<lparr>mon_tasks = [(2 ^ 32, 1), (2 ^ 32, 2)], mon_states = [3, 3], mon_heartbeat = 60\<rparr>)]"


end
