(* ===== verification/Fsp_Tasks.thy ===== *)
theory Fsp_Tasks
  imports Stars_Messages
begin

text \<open>
  \<open>include/Time.hpp\<close> (conversions), \<open>include/TaskProxy.hpp\<close>, \<open>include/FSPTaskList.hpp\<close>,
  \<open>src/lib/scheduling/policies/FSPTaskList.cpp\<close>: the queue of the fair policy. A task is sorted
  by the deadline it would have if its application were slowed down by a common factor, the
  slowness. \<open>double\<close> values are exact rationals, \<open>pre\<close> is the static flag \<open>preemptive\<close> and
  \<open>now\<close> what \<open>Time::getCurrentTime()\<close> returns. A proxy points to its task; here it has the
  identifier of the task.
\<close>

section \<open>Durations\<close>

definition trunc_rat :: "rat \<Rightarrow> int" where
  "trunc_rat x = (if x < 0 then \<lceil>x\<rceil> else \<lfloor>x\<rfloor>)"

definition dur_of :: "rat \<Rightarrow> int" where
  "dur_of s = trunc_rat (s * 1000000)"

definition secs :: "int \<Rightarrow> rat" where
  "secs d = of_int d / 1000000"

section \<open>Proxies\<close>

record proxy =
  tp_id :: "32 word"
  tp_rabs :: time
  tp_d :: time
  tp_a :: rat
  tp_r :: rat
  tp_t :: rat
  tp_tsum :: rat

definition proxy_of_app :: "rat \<Rightarrow> rat \<Rightarrow> time \<Rightarrow> proxy" where
  "proxy_of_app a pw r = \<lparr>tp_id = - 1, tp_rabs = r, tp_d = 0, tp_a = a, tp_r = 0, tp_t = a / pw,
     tp_tsum = a / pw\<rparr>"

definition tp_deadline :: "rat \<Rightarrow> proxy \<Rightarrow> time" where
  "tp_deadline L p = tp_rabs p + dur_of (L * tp_a p)"

definition tp_setSlowness :: "rat \<Rightarrow> proxy \<Rightarrow> proxy" where
  "tp_setSlowness L p = p\<lparr>tp_d := tp_deadline L p\<rparr>"

definition tp_less :: "proxy \<Rightarrow> proxy \<Rightarrow> bool" where
  "tp_less l r \<longleftrightarrow> tp_d l < tp_d r \<or> (tp_d l = tp_d r \<and> tp_a l < tp_a r)"

section \<open>The list\<close>

record fsp_list =
  fl_tasks :: "proxy list"
  fl_bounds :: "rat list"
  fl_dirty :: bool

definition mk_fsp_list :: fsp_list where
  "mk_fsp_list = \<lparr>fl_tasks = [], fl_bounds = [], fl_dirty = False\<rparr>"

text \<open>Where the loops over the list start: at its begin, or behind the task that may be running.\<close>

definition fl_from :: "bool \<Rightarrow> 'a list \<Rightarrow> 'a list" where
  "fl_from pre ts = (if pre then ts else tl ts)"

text \<open>The slowness at which two tasks would have the same deadline.\<close>

definition switch_value :: "proxy \<Rightarrow> proxy \<Rightarrow> rat" where
  "switch_value it task = secs (tp_rabs task - tp_rabs it) / (tp_a it - tp_a task)"

definition switch_values :: "proxy \<Rightarrow> proxy list \<Rightarrow> rat list" where
  "switch_values task its =
    filter (\<lambda>l. 0 < l) (map (\<lambda>it. switch_value it task) (filter (\<lambda>it. tp_a it \<noteq> tp_a task) its))"

text \<open>\<open>std::sort\<close> and then \<open>std::unique\<close>.\<close>

definition sort_unique :: "rat list \<Rightarrow> rat list" where
  "sort_unique bs = remdups_adj (sort bs)"

text \<open>On an empty list the loop of the policy without preemption starts behind the end.\<close>

definition add_boundary_values :: "bool \<Rightarrow> proxy \<Rightarrow> proxy list \<Rightarrow> rat list \<Rightarrow> rat list option" where
  "add_boundary_values pre task ts bs =
    (if \<not> pre \<and> ts = [] then None else Some (sort_unique (bs @ switch_values task (fl_from pre ts))))"

definition first_value :: "time \<Rightarrow> proxy \<Rightarrow> rat" where
  "first_value now p = secs (now + dur_of (tp_t p) - tp_rabs p) / tp_a p"

definition fl_addTasks :: "bool \<Rightarrow> time \<Rightarrow> proxy \<Rightarrow> nat \<Rightarrow> fsp_list \<Rightarrow> fsp_list option" where
  "fl_addTasks pre now task n fl = do {
     bs \<leftarrow> (if fl_tasks fl \<noteq> [] then add_boundary_values pre task (fl_tasks fl) (fl_bounds fl)
           else Some (if \<not> pre then fl_bounds fl @ [first_value now task] else fl_bounds fl));
     Some (fl\<lparr>fl_bounds := bs, fl_tasks := fl_tasks fl @ replicate n task\<rparr>)
   }"

fun erase_proxy :: "32 word \<Rightarrow> proxy list \<Rightarrow> proxy list" where
  "erase_proxy i [] = []"
| "erase_proxy i (p # ps) = (if tp_id p = i then ps else p # erase_proxy i ps)"

definition fl_removeTask :: "32 word \<Rightarrow> fsp_list \<Rightarrow> fsp_list" where
  "fl_removeTask i fl =
    (if find (\<lambda>p. tp_id p = i) (fl_tasks fl) = None then fl
     else fl\<lparr>fl_tasks := erase_proxy i (fl_tasks fl), fl_dirty := True\<rparr>)"

fun slowness_loop :: "time \<Rightarrow> rat \<Rightarrow> proxy list \<Rightarrow> rat" where
  "slowness_loop e m [] = m"
| "slowness_loop e m (p # ps) =
    (let e' = e + dur_of (tp_t p); s = secs (e' - tp_rabs p) / tp_a p
     in slowness_loop e' (if s > m then s else m) ps)"

definition fl_getSlowness :: "time \<Rightarrow> proxy list \<Rightarrow> rat" where
  "fl_getSlowness now ts = slowness_loop now 0 ts"

definition fl_sortBySlowness :: "bool \<Rightarrow> rat \<Rightarrow> proxy list \<Rightarrow> proxy list" where
  "fl_sortBySlowness pre L ts =
    (if 1 < length ts then
       (if pre then std_sort tp_less (map (tp_setSlowness L) ts)
        else hd ts # std_sort tp_less (map (tp_setSlowness L) (tl ts)))
     else ts)"

fun fl_meetDeadlines :: "rat \<Rightarrow> time \<Rightarrow> proxy list \<Rightarrow> bool" where
  "fl_meetDeadlines L e [] = True"
| "fl_meetDeadlines L e (p # ps) =
    (let e' = e + dur_of (tp_t p)
     in if e' > tp_deadline L p then False else fl_meetDeadlines L e' ps)"

fun pair_values :: "proxy list \<Rightarrow> rat list" where
  "pair_values [] = []"
| "pair_values (it # ts) =
    filter (\<lambda>l. 0 < l) (map (switch_value it) (filter (\<lambda>jt. tp_a it \<noteq> tp_a jt) (it # ts))) @ pair_values ts"

definition bounds_of :: "bool \<Rightarrow> time \<Rightarrow> proxy list \<Rightarrow> rat list" where
  "bounds_of pre now ts =
    (if ts = [] then []
     else sort_unique ((if pre then [] else [first_value now (hd ts)]) @ pair_values (fl_from pre ts)))"

definition fl_computeBoundaries :: "bool \<Rightarrow> time \<Rightarrow> fsp_list \<Rightarrow> fsp_list" where
  "fl_computeBoundaries pre now fl =
    (if fl_dirty fl then fl\<lparr>fl_dirty := False, fl_bounds := bounds_of pre now (fl_tasks fl)\<rparr> else fl)"

text \<open>The binary search over the intervals between two boundaries.\<close>

definition mid_value :: "rat list \<Rightarrow> nat \<Rightarrow> rat" where
  "mid_value bs i = (bs ! i + bs ! Suc i) / 2"

function search_interval :: "bool \<Rightarrow> time \<Rightarrow> rat list \<Rightarrow> nat \<Rightarrow> nat \<Rightarrow> proxy list \<Rightarrow>
    nat \<times> nat \<times> proxy list" where
  "search_interval pre now bs lo hi ts =
    (if hi > lo + 1 then
       (let med = (lo + hi) div 2; ts1 = fl_sortBySlowness pre (mid_value bs med) ts
        in if fl_meetDeadlines (bs ! med) now ts1 then search_interval pre now bs lo med ts1
           else search_interval pre now bs med hi ts1)
     else (lo, hi, ts))"
  by pat_completeness auto
termination
  by (relation "measure (\<lambda>(pre, now, bs, lo, hi, ts). hi - lo)") auto

declare search_interval.simps [simp del]

definition fl_sortMinSlowness :: "bool \<Rightarrow> time \<Rightarrow> rat list \<Rightarrow> proxy list \<Rightarrow> proxy list" where
  "fl_sortMinSlowness pre now bs ts =
    (if ts = [] then ts
     else if bs = [] then fl_sortBySlowness pre 1 ts
     else if length bs = 1 then
       (let ts1 = fl_sortBySlowness pre (hd bs / 2) ts
        in if \<not> fl_meetDeadlines (hd bs) now ts1 then fl_sortBySlowness pre (hd bs + 1) ts1 else ts1)
     else
       (let (lo, hi, ts1) = search_interval pre now bs 0 (length bs - 1) ts;
            ts2 = fl_sortBySlowness pre (mid_value bs lo) ts1
        in if hi = length bs - 1 \<and> \<not> fl_meetDeadlines (last bs) now ts2
           then fl_sortBySlowness pre (last bs + 1) ts2 else ts2))"

definition fl_sort :: "bool \<Rightarrow> time \<Rightarrow> fsp_list \<Rightarrow> fsp_list" where
  "fl_sort pre now fl =
    (let fl1 = fl_computeBoundaries pre now fl
     in fl1\<lparr>fl_tasks := fl_sortMinSlowness pre now (fl_bounds fl1) (fl_tasks fl1)\<rparr>)"

definition fl_updateReleaseTime :: "time \<Rightarrow> proxy list \<Rightarrow> proxy list" where
  "fl_updateReleaseTime now ts = map (\<lambda>p. p\<lparr>tp_r := secs (tp_rabs p - now)\<rparr>) ts"

end
