(* ===== verification/Fsp_Props.thy ===== *)
theory Fsp_Props
  imports Fsp_Tasks
begin

text \<open>
  What the queue of the fair policy guarantees: its slowness is the least one at which every
  deadline is met, the boundaries kept up to date task by task are those computed from scratch,
  sorting keeps the tasks and the running one at the front, and the binary search ends at an
  interval whose lower end is too tight and whose upper end is not.
\<close>

section \<open>Slowness and deadlines\<close>

lemma deadline_iff:
  assumes "0 < tp_a p" and "0 \<le> L"
  shows "e \<le> tp_deadline L p \<longleftrightarrow> secs (e - tp_rabs p) / tp_a p \<le> L"
proof -
  have "0 \<le> L * tp_a p * 1000000" using assms by simp
  then have "e \<le> tp_deadline L p \<longleftrightarrow> e - tp_rabs p \<le> \<lfloor>L * tp_a p * 1000000\<rfloor>"
    by (auto simp: tp_deadline_def dur_of_def trunc_rat_def)
  also have "\<dots> \<longleftrightarrow> of_int (e - tp_rabs p) \<le> L * tp_a p * 1000000" by (rule le_floor_iff)
  also have "\<dots> \<longleftrightarrow> secs (e - tp_rabs p) / tp_a p \<le> L"
    using assms(1) by (simp add: secs_def field_simps)
  finally show ?thesis .
qed

lemma slowness_loop_le:
  assumes "\<forall>p \<in> set ts. 0 < tp_a p" and "0 \<le> L"
  shows "slowness_loop e m ts \<le> L \<longleftrightarrow> m \<le> L \<and> fl_meetDeadlines L e ts"
  using assms(1)
proof (induction ts arbitrary: e m)
  case Nil
  then show ?case by simp
next
  case (Cons p ts)
  have "0 < tp_a p" using Cons.prems by simp
  note d = deadline_iff [OF this assms(2), of "e + dur_of (tp_t p)"]
  from Cons.IH [of "e + dur_of (tp_t p)"] Cons.prems d show ?case
    by (auto simp: Let_def not_less)
qed

text \<open>
  C36. The slowness of the queue is the least slowness at which every task of it meets its
  deadline: for every slowness that is not negative, the test of the deadlines succeeds exactly
  when the computed slowness does not exceed it, rounding to microseconds included.
\<close>

theorem fsp_slowness_least:
  assumes "\<forall>p \<in> set ts. 0 < tp_a p" and "0 \<le> L"
  shows "fl_meetDeadlines L now ts \<longleftrightarrow> fl_getSlowness now ts \<le> L"
  using slowness_loop_le [OF assms, of now 0] assms(2) by (simp add: fl_getSlowness_def)

definition example_queue :: "proxy list" where
  "example_queue = [(proxy_of_app 1000 100 0)\<lparr>tp_id := 1\<rparr>, (proxy_of_app 500 100 1000000)\<lparr>tp_id := 2\<rparr>,
     (proxy_of_app 2000 100 2000000)\<lparr>tp_id := 3\<rparr>]"

theorem fsp_slowness_least_witness:
  "fl_meetDeadlines (1 / 10) 3000000 example_queue \<longleftrightarrow> fl_getSlowness 3000000 example_queue \<le> 1 / 10"
  by (rule fsp_slowness_least) (simp_all add: example_queue_def proxy_of_app_def)

section \<open>Boundaries\<close>

lemma distinct_remdups_adj_sorted: "sorted xs \<Longrightarrow> distinct (remdups_adj xs)"
  by (induction xs rule: remdups_adj.induct) (auto dest: antisym)

lemma sort_unique_set: "sort_unique bs = sorted_list_of_set (set bs)"
proof (rule sorted_distinct_set_unique)
  show "sorted (sort_unique bs)" by (simp add: sort_unique_def sorted_remdups_adj)
  show "distinct (sort_unique bs)" by (simp add: sort_unique_def distinct_remdups_adj_sorted)
qed (simp_all add: sort_unique_def)

lemma set_sort_unique [simp]: "set (sort_unique bs) = set bs"
  by (simp add: sort_unique_def)

lemma switch_value_commute: "switch_value it jt = switch_value jt it"
proof -
  have "secs (tp_rabs it - tp_rabs jt) = - secs (tp_rabs jt - tp_rabs it)"
    by (simp add: secs_def diff_divide_distrib)
  moreover have "tp_a jt - tp_a it = - (tp_a it - tp_a jt)" by simp
  ultimately show ?thesis by (simp only: switch_value_def minus_divide_divide)
qed

text \<open>The values between a list and one more task are those the recomputation adds for it.\<close>

lemma set_pair_values:
  "set (pair_values ts) = {l. 0 < l \<and> (\<exists>it \<in> set ts. \<exists>jt \<in> set ts. tp_a it \<noteq> tp_a jt \<and> l = switch_value it jt)}"
proof (induction ts)
  case Nil
  then show ?case by simp
next
  case (Cons p ts)
  show ?case
  proof (intro set_eqI iffI)
    fix l
    assume "l \<in> set (pair_values (p # ts))"
    with Cons show "l \<in> {l. 0 < l \<and> (\<exists>it \<in> set (p # ts). \<exists>jt \<in> set (p # ts). tp_a it \<noteq> tp_a jt \<and> l = switch_value it jt)}"
      by auto
  next
    fix l
    assume "l \<in> {l. 0 < l \<and> (\<exists>it \<in> set (p # ts). \<exists>jt \<in> set (p # ts). tp_a it \<noteq> tp_a jt \<and> l = switch_value it jt)}"
    then obtain it jt where "0 < l" "it \<in> set (p # ts)" "jt \<in> set (p # ts)" "tp_a it \<noteq> tp_a jt" "l = switch_value it jt"
      by blast
    then consider "it = p" "jt \<in> set ts" | "jt = p" "it \<in> set ts" | "it \<in> set ts" "jt \<in> set ts" by auto
    then show "l \<in> set (pair_values (p # ts))"
    proof cases
      case 1
      with \<open>0 < l\<close> \<open>tp_a it \<noteq> tp_a jt\<close> \<open>l = switch_value it jt\<close> show ?thesis by auto
    next
      case 2
      with \<open>0 < l\<close> \<open>tp_a it \<noteq> tp_a jt\<close> \<open>l = switch_value it jt\<close> switch_value_commute [of it jt]
      show ?thesis by auto
    next
      case 3
      with Cons \<open>0 < l\<close> \<open>tp_a it \<noteq> tp_a jt\<close> \<open>l = switch_value it jt\<close> show ?thesis by auto
    qed
  qed
qed

lemma pair_values_append:
  "set (pair_values (ts @ replicate n task)) =
    set (pair_values ts) \<union> (if n = 0 then {} else set (switch_values task ts))"
  using switch_value_commute by (auto simp: set_pair_values switch_values_def)

definition bounds_current :: "bool \<Rightarrow> time \<Rightarrow> fsp_list \<Rightarrow> bool" where
  "bounds_current pre now fl \<longleftrightarrow> fl_bounds fl = bounds_of pre now (fl_tasks fl)"

text \<open>
  Boundaries kept incrementally: adding tasks one bag after the other updates the boundaries
  to exactly what the recomputation from scratch gives for the longer queue, with preemption and
  without it, and adding never fails.
\<close>

theorem fsp_boundaries_incremental:
  assumes "bounds_current pre now fl" and "0 < n"
  shows "\<exists>fl'. fl_addTasks pre now task n fl = Some fl' \<and> bounds_current pre now fl'
    \<and> fl_tasks fl' = fl_tasks fl @ replicate n task"
proof (cases "fl_tasks fl")
  case Nil
  then have b: "fl_bounds fl = []" using assms(1) by (simp add: bounds_current_def bounds_of_def)
  have p: "pair_values (replicate k task) = []" for k by (induction k) auto
  obtain k where k: "n = Suc k" using assms(2) by (cases n) auto
  show ?thesis
    by (simp add: fl_addTasks_def Nil b bounds_current_def bounds_of_def k p fl_from_def sort_unique_def
        del: pair_values.simps) (use p [of "Suc k"] in simp)
next
  case (Cons p ps)
  have "fl_from pre (fl_tasks fl @ replicate n task) = fl_from pre (fl_tasks fl) @ replicate n task"
    by (simp add: fl_from_def Cons)
  with assms Cons show ?thesis
    by (auto simp: fl_addTasks_def add_boundary_values_def bounds_current_def bounds_of_def
        sort_unique_set pair_values_append Un_assoc)
qed

theorem fsp_boundaries_incremental_witness:
  "\<exists>fl. fl_addTasks False 5 (hd example_queue) 2 mk_fsp_list = Some fl
     \<and> bounds_current False 5 fl \<and> length (fl_tasks fl) = 2"
proof -
  have "bounds_current False 5 mk_fsp_list" by (simp add: bounds_current_def mk_fsp_list_def bounds_of_def)
  from fsp_boundaries_incremental [OF this, of 2 "hd example_queue"] show ?thesis
    by (auto simp: mk_fsp_list_def)
qed

section \<open>The order of the queue\<close>

interpretation slowness_order: sort_order tp_less "\<lambda>a b. \<not> tp_less b a"
  by unfold_locales (auto simp: tp_less_def)

text \<open>A proxy without the deadline that sorting writes into it.\<close>

definition tp_key :: "proxy \<Rightarrow> proxy" where
  "tp_key p = p\<lparr>tp_d := 0\<rparr>"

lemma key_setSlowness [simp]: "tp_key (tp_setSlowness L p) = tp_key p"
  by (simp add: tp_key_def tp_setSlowness_def)

lemma setSlowness_key [simp]: "tp_setSlowness L (tp_key p) = tp_setSlowness L p"
  by (simp add: tp_key_def tp_setSlowness_def tp_deadline_def)

definition same_queue :: "bool \<Rightarrow> proxy list \<Rightarrow> proxy list \<Rightarrow> bool" where
  "same_queue pre ts us \<longleftrightarrow>
    mset (map tp_key (fl_from pre us)) = mset (map tp_key (fl_from pre ts))
    \<and> length us = length ts \<and> (\<not> pre \<longrightarrow> take 1 us = take 1 ts)"

definition in_order :: "bool \<Rightarrow> rat \<Rightarrow> proxy list \<Rightarrow> bool" where
  "in_order pre L ts \<longleftrightarrow> (1 < length ts \<longrightarrow> sorted_wrt (\<lambda>a b. \<not> tp_less b a) (fl_from pre ts)
     \<and> (\<forall>p \<in> set (fl_from pre ts). tp_d p = tp_deadline L p))"

lemma same_queue_refl [simp]: "same_queue pre ts ts"
  by (simp add: same_queue_def)

lemma same_queue_trans: "same_queue pre ts us \<Longrightarrow> same_queue pre us vs \<Longrightarrow> same_queue pre ts vs"
  by (simp add: same_queue_def)

lemma key_sorted: "mset (map tp_key (std_sort tp_less (map (tp_setSlowness L) ts))) = mset (map tp_key ts)"
  by (simp add: mset_std_sort multiset.map_comp o_def)

lemma sort_same_queue: "same_queue pre ts (fl_sortBySlowness pre L ts)"
  unfolding same_queue_def fl_sortBySlowness_def fl_from_def
  by (cases ts) (simp_all add: key_sorted del: mset_map std_sort_simps list.map)

lemma sort_in_order: "in_order pre L (fl_sortBySlowness pre L ts)"
  by (auto simp: in_order_def fl_sortBySlowness_def fl_from_def slowness_order.sort_ordered
      tp_setSlowness_def tp_deadline_def)

lemma meet_keys: "map tp_key us = map tp_key ts \<Longrightarrow> fl_meetDeadlines L e us = fl_meetDeadlines L e ts"
proof (induction ts arbitrary: us e)
  case Nil
  then show ?case by simp
next
  case (Cons p ts)
  then obtain q qs where us: "us = q # qs" and q: "tp_key q = tp_key p" and qs: "map tp_key qs = map tp_key ts"
    by (cases us) auto
  have "tp_t q = tp_t p" "tp_deadline L q = tp_deadline L p"
    using arg_cong [OF q, of tp_t] arg_cong [OF q, of tp_rabs] arg_cong [OF q, of tp_a]
    by (simp_all add: tp_key_def tp_deadline_def)
  with Cons.IH [OF qs] show ?case by (simp add: us Let_def)
qed

lemma sum_mset_nonneg_int: "\<forall>q \<in># M. 0 \<le> f q \<Longrightarrow> 0 \<le> (\<Sum>q\<in>#M. f q :: int)"
  by (induction M) auto

text \<open>Tasks that the order does not separate have the same deadline at every slowness.\<close>

lemma tied_deadline:
  "\<not> tp_less p q \<Longrightarrow> \<not> tp_less q p \<Longrightarrow> tp_d p = tp_deadline L0 p \<Longrightarrow> tp_d q = tp_deadline L0 q \<Longrightarrow>
   tp_deadline L p = tp_deadline L q"
  by (auto simp: tp_less_def tp_deadline_def)

lemma meet_char:
  assumes "sorted_wrt (\<lambda>a b. \<not> tp_less b a) ts" and "\<forall>p \<in> set ts. tp_d p = tp_deadline L0 p"
    and "\<forall>p \<in> set ts. 0 \<le> dur_of (tp_t p)"
  shows "fl_meetDeadlines L e ts \<longleftrightarrow>
    (\<forall>p \<in> set ts. e + (\<Sum>q\<in>#filter_mset (\<lambda>q. \<not> tp_less p q) (mset ts). dur_of (tp_t q)) \<le> tp_deadline L p)"
  using assms
proof (induction ts arbitrary: e)
  case Nil
  then show ?case by simp
next
  case (Cons x ts)
  let ?S = "\<lambda>p xs. \<Sum>q\<in>#filter_mset (\<lambda>q. \<not> tp_less p q) (mset xs). dur_of (tp_t q)"
  have irr: "\<not> tp_less x x" by (simp add: tp_less_def)
  have split: "?S p (x # ts) = dur_of (tp_t x) + ?S p ts" if "p \<in> set (x # ts)" for p
    using that Cons.prems(1) irr by auto
  have nonneg: "0 \<le> ?S p ts" for p
    by (rule sum_mset_nonneg_int) (use Cons.prems(3) in auto)
  have IH: "fl_meetDeadlines L (e + dur_of (tp_t x)) ts \<longleftrightarrow>
      (\<forall>p \<in> set ts. e + dur_of (tp_t x) + ?S p ts \<le> tp_deadline L p)"
    using Cons by simp
  have first: "e + dur_of (tp_t x) + ?S x ts \<le> tp_deadline L x"
    if rest: "\<forall>p \<in> set ts. e + dur_of (tp_t x) + ?S p ts \<le> tp_deadline L p"
      and e: "e + dur_of (tp_t x) \<le> tp_deadline L x"
  proof (cases "\<exists>q \<in> set ts. \<not> tp_less x q")
    case True
    then obtain q where q: "q \<in> set ts" "\<not> tp_less x q" by blast
    have qx: "\<not> tp_less q x" using q(1) Cons.prems(1) by simp
    have "tp_deadline L q = tp_deadline L x" "tp_d q = tp_d x"
      using tied_deadline [OF q(2) qx, of L0 L] Cons.prems(2) q qx by (auto simp: tp_less_def)
    moreover have "tp_less q r = tp_less x r" for r
      using q(2) qx by (auto simp: tp_less_def)
    ultimately show ?thesis using rest q(1) by auto
  next
    case False
    then have "filter_mset (\<lambda>q. \<not> tp_less x q) (mset ts) = filter_mset (\<lambda>_. False) (mset ts)"
      by (intro filter_mset_cong) auto
    then have "filter_mset (\<lambda>q. \<not> tp_less x q) (mset ts) = {#}" by simp
    then have "?S x ts = 0" by (simp only: image_mset_empty sum_mset.empty)
    then show ?thesis using e by linarith
  qed
  have "fl_meetDeadlines L e (x # ts) \<longleftrightarrow> e + dur_of (tp_t x) \<le> tp_deadline L x
      \<and> (\<forall>p \<in> set ts. e + dur_of (tp_t x) + ?S p ts \<le> tp_deadline L p)"
    using IH by (simp add: Let_def not_less)
  also have "\<dots> \<longleftrightarrow> (\<forall>p \<in> set (x # ts). e + dur_of (tp_t x) + ?S p ts \<le> tp_deadline L p)"
    using first nonneg [of x] by force
  finally show ?case using split by (simp add: add.assoc)
qed

lemma set_sorted_map:
  "mset (map tp_key us) = mset (map tp_key ts) \<Longrightarrow>
   mset (std_sort tp_less (map (tp_setSlowness L) us)) = mset (std_sort tp_less (map (tp_setSlowness L) ts))"
proof -
  assume "mset (map tp_key us) = mset (map tp_key ts)"
  then have "image_mset (tp_setSlowness L) (image_mset tp_key (mset us)) =
      image_mset (tp_setSlowness L) (image_mset tp_key (mset ts))" by simp
  then show ?thesis by (simp add: mset_std_sort multiset.map_comp o_def)
qed

text \<open>Sorting again, from another order of the same tasks, gives a queue that meets the same deadlines.\<close>

lemma meet_sorted:
  assumes "mset (map tp_key us) = mset (map tp_key ts)" and "\<forall>p \<in> set ts. 0 \<le> dur_of (tp_t p)"
  shows "fl_meetDeadlines L e (std_sort tp_less (map (tp_setSlowness L0) us))
    \<longleftrightarrow> fl_meetDeadlines L e (std_sort tp_less (map (tp_setSlowness L0) ts))"
proof -
  note same = set_sorted_map [OF assms(1), of L0]
  have d: "\<forall>p \<in> set (std_sort tp_less (map (tp_setSlowness L0) vs)). tp_d p = tp_deadline L0 p" for vs
    by (auto simp: tp_setSlowness_def tp_deadline_def)
  have t: "\<forall>p \<in> set (std_sort tp_less (map (tp_setSlowness L0) ts)). 0 \<le> dur_of (tp_t p)"
    using assms(2) by (auto simp: tp_setSlowness_def)
  moreover have "set (std_sort tp_less (map (tp_setSlowness L0) us)) = set (std_sort tp_less (map (tp_setSlowness L0) ts))"
    using same by (rule mset_eq_setD)
  ultimately have u: "\<forall>p \<in> set (std_sort tp_less (map (tp_setSlowness L0) us)). 0 \<le> dur_of (tp_t p)"
    and eq: "set (std_sort tp_less (map (tp_setSlowness L0) us)) = set (std_sort tp_less (map (tp_setSlowness L0) ts))"
    by simp_all
  show ?thesis
    unfolding meet_char [OF slowness_order.sort_ordered d u] meet_char [OF slowness_order.sort_ordered d t] same eq ..
qed

lemma meet_sorted_queue:
  assumes "same_queue pre ts us" and "\<forall>p \<in> set ts. 0 \<le> dur_of (tp_t p)"
  shows "fl_meetDeadlines L e (fl_sortBySlowness pre L0 us) \<longleftrightarrow>
    fl_meetDeadlines L e (fl_sortBySlowness pre L0 ts)"
proof (cases "1 < length ts")
  case False
  have len: "length us = length ts" using assms(1) by (simp add: same_queue_def)
  have "map tp_key us = map tp_key ts"
  proof (cases ts)
    case Nil
    with len show ?thesis by simp
  next
    case (Cons x xs)
    with False len obtain y where "ts = [x]" "us = [y]" by (cases us) auto
    with assms(1) show ?thesis by (cases pre) (simp_all add: same_queue_def fl_from_def)
  qed
  from meet_keys [OF this] False len show ?thesis by (simp add: fl_sortBySlowness_def)
next
  case True
  show ?thesis
  proof (cases pre)
    case True
    with assms \<open>1 < length ts\<close> show ?thesis
      using meet_sorted [of us ts] by (simp add: fl_sortBySlowness_def same_queue_def fl_from_def)
  next
    case False
    have len: "length us = length ts" using assms(1) by (simp add: same_queue_def)
    obtain x xs where ts: "ts = x # xs" using \<open>1 < length ts\<close> by (cases ts) auto
    obtain y ys where us: "us = y # ys" using len ts by (cases us) auto
    have y: "y = x" and m: "mset (map tp_key ys) = mset (map tp_key xs)"
      using assms(1) False by (simp_all add: same_queue_def fl_from_def ts us)
    have t: "\<forall>p \<in> set xs. 0 \<le> dur_of (tp_t p)" using assms(2) by (simp add: ts)
    have "fl_sortBySlowness pre L0 us = x # std_sort tp_less (map (tp_setSlowness L0) ys)"
      "fl_sortBySlowness pre L0 ts = x # std_sort tp_less (map (tp_setSlowness L0) xs)"
      using False \<open>1 < length ts\<close> len by (simp_all add: fl_sortBySlowness_def ts us y)
    with meet_sorted [OF m t] show ?thesis by (simp add: Let_def)
  qed
qed

section \<open>The binary search\<close>

definition meets_at :: "bool \<Rightarrow> time \<Rightarrow> rat list \<Rightarrow> proxy list \<Rightarrow> nat \<Rightarrow> bool" where
  "meets_at pre now bs ts i =
    fl_meetDeadlines (bs ! i) now (fl_sortBySlowness pre (mid_value bs i) ts)"

lemma search_result:
  assumes "search_interval pre now bs lo hi us = (lo', hi', us')" and "lo < hi"
    and "same_queue pre ts us" and "\<forall>p \<in> set ts. 0 \<le> dur_of (tp_t p)"
    and "lo = 0 \<or> \<not> meets_at pre now bs ts lo" and "hi = n \<or> meets_at pre now bs ts hi" and "hi \<le> n"
  shows "hi' = Suc lo' \<and> hi' \<le> n \<and> same_queue pre ts us' \<and> (lo' = 0 \<or> \<not> meets_at pre now bs ts lo')
    \<and> (hi' = n \<or> meets_at pre now bs ts hi')"
  using assms
proof (induction pre now bs lo hi us rule: search_interval.induct)
  case (1 pre now bs lo hi us)
  show ?case
  proof (cases "lo + 1 < hi")
    case False
    with 1 show ?thesis by (simp add: search_interval.simps [of pre now bs lo hi us])
  next
    case True
    let ?med = "(lo + hi) div 2"
    let ?us = "fl_sortBySlowness pre (mid_value bs ?med) us"
    have q: "same_queue pre ts ?us" by (rule same_queue_trans [OF "1.prems"(3) sort_same_queue])
    have m: "fl_meetDeadlines (bs ! ?med) now ?us = meets_at pre now bs ts ?med"
      unfolding meets_at_def by (rule meet_sorted_queue [OF "1.prems"(3,4)])
    have between: "lo < ?med" "?med < hi" using True by auto
    show ?thesis
    proof (cases "meets_at pre now bs ts ?med")
      case t: True
      have rec: "search_interval pre now bs lo ?med ?us = (lo', hi', us')"
        using "1.prems"(1) True m t by (simp add: search_interval.simps [of pre now bs lo hi us] Let_def)
      show ?thesis
        by (rule "1.IH"(1) [OF True refl refl _ rec between(1) q "1.prems"(4,5)])
          (use m t between "1.prems"(7) in simp_all)
    next
      case f: False
      have rec: "search_interval pre now bs ?med hi ?us = (lo', hi', us')"
        using "1.prems"(1) True m f by (simp add: search_interval.simps [of pre now bs lo hi us] Let_def)
      show ?thesis
        by (rule "1.IH"(2) [OF True refl refl _ rec between(2) q "1.prems"(4) _ "1.prems"(6,7)])
          (use m f in simp_all)
    qed
  qed
qed

text \<open>
  The binary search over the boundaries always ends, at two neighbouring boundaries. The
  queue sorted for their interval misses a deadline at the lower one, unless that is the first
  of all, and meets them all at the upper one, unless that is the last of all. The result does not
  depend on the order the queue had before.
\<close>

theorem fsp_search_interval:
  assumes "search_interval pre now bs 0 (length bs - 1) ts = (lo, hi, ts')" and "2 \<le> length bs"
    and "\<forall>p \<in> set ts. 0 \<le> dur_of (tp_t p)"
  shows "hi = Suc lo \<and> hi < length bs \<and> (lo = 0 \<or> \<not> meets_at pre now bs ts lo)
    \<and> (hi = length bs - 1 \<or> meets_at pre now bs ts hi)"
proof -
  have "0 < length bs - 1" using assms(2) by simp
  from search_result [OF assms(1) this same_queue_refl assms(3), of "length bs - 1"] assms(2)
  show ?thesis by auto
qed

theorem fsp_search_interval_witness:
  "\<exists>lo hi ts'. search_interval False 3000000 [1 / 100, 1 / 50, 1 / 20, 1 / 10] 0 3 example_queue = (lo, hi, ts')
     \<and> hi = Suc lo"
proof -
  obtain lo hi ts' where s: "search_interval False 3000000 [1 / 100, 1 / 50, 1 / 20, 1 / 10] 0
      (length [1 / 100, 1 / 50, 1 / 20, 1 / 10 :: rat] - 1) example_queue = (lo, hi, ts')"
    by (rule prod_cases3)
  have "\<forall>p \<in> set example_queue. 0 \<le> dur_of (tp_t p)"
    by (simp add: example_queue_def proxy_of_app_def dur_of_def trunc_rat_def)
  from fsp_search_interval [OF s _ this] s show ?thesis by (simp add: numeral_3_eq_3)
qed

lemma sort_min_result:
  "\<exists>L. same_queue pre ts (fl_sortMinSlowness pre now bs ts) \<and> in_order pre L (fl_sortMinSlowness pre now bs ts)"
proof -
  have step: "\<exists>L. same_queue pre ts (fl_sortBySlowness pre L0 us) \<and> in_order pre L (fl_sortBySlowness pre L0 us)"
    if "same_queue pre ts us" for L0 us
    using same_queue_trans [OF that sort_same_queue] sort_in_order by blast
  obtain lo hi ts1 where r: "search_interval pre now bs 0 (length bs - 1) ts = (lo, hi, ts1)"
    by (rule prod_cases3)
  have kept: "same_queue pre us (snd (snd (search_interval pre now bs' a b us)))" for bs' a b us
  proof (induction pre now bs' a b us rule: search_interval.induct)
    case (1 pre now bs lo hi us)
    note sorted = sort_same_queue [of pre us "mid_value bs ((lo + hi) div 2)"]
    show ?case
      using "1.IH" [OF _ refl refl] same_queue_trans [OF sorted]
      by (cases "lo + 1 < hi") (simp_all add: search_interval.simps [of pre now bs lo hi us] Let_def)
  qed
  have q1: "same_queue pre ts ts1" using kept [of ts bs 0 "length bs - 1"] r by simp
  have nil: "\<exists>L. same_queue pre ts [] \<and> in_order pre L []" if "ts = []"
    using that by (simp add: in_order_def)
  show ?thesis
    unfolding fl_sortMinSlowness_def
    using nil step [OF same_queue_refl] step [OF sort_same_queue] step [OF q1]
      step [OF same_queue_trans [OF q1 sort_same_queue]]
    by (simp add: r [simplified] Let_def)
qed

lemma same_queue_ids:
  assumes "same_queue pre ts us"
  shows "mset (map tp_id us) = mset (map tp_id ts)"
proof -
  have key: "map tp_id vs = map tp_id (map tp_key vs)" for vs
    by (simp add: tp_key_def)
  have "mset (map tp_id (fl_from pre us)) = mset (map tp_id (fl_from pre ts))"
    using assms unfolding key [of "fl_from pre us"] key [of "fl_from pre ts"]
    by (simp only: same_queue_def mset_map)
  with assms show ?thesis
    by (cases pre; cases ts; cases us) (auto simp: same_queue_def fl_from_def)
qed

text \<open>
  Sorting for the least slowness neither loses nor invents a task, never moves the first one
  when there is no preemption, and leaves the others ordered by the deadlines of one common
  slowness, whatever boundaries it is given.
\<close>

theorem fsp_sort_result:
  "\<exists>L. same_queue pre ts (fl_sortMinSlowness pre now bs ts) \<and> in_order pre L (fl_sortMinSlowness pre now bs ts)"
  by (rule sort_min_result)

end
