(* ===== verification/Fsp_Scheduler.thy ===== *)
theory Fsp_Scheduler
  imports Sched_Props Fsp_Props
begin

text \<open>
  \<open>include/FSPScheduler.hpp\<close>, \<open>src/lib/scheduling/policies/FSPScheduler.cpp\<close>: the fair policy.
  The state of the scheduler is extended by the list of proxies. The pointer \<open>origin\<close> of a proxy
  is followed by the identifier of its task: it leads to the task in the queue, or to one that an
  abort erased from the queue and that lives on because the proxy points to it.
\<close>

record ('x, 'i) fsp_sched = "('x, 'i) sched" +
  fs_list :: fsp_list

definition mk_fsp_sched :: "'i comm \<Rightarrow> ('x, 'i) fsp_sched" where
  "mk_fsp_sched c = sched.extend (mk_sched c) \<lparr>fs_list = mk_fsp_list\<rparr>"

definition fs_origin :: "('x, 'i, 'p) sched_scheme \<Rightarrow> 32 word \<Rightarrow> 'x task option" where
  "fs_origin s i = find (\<lambda>t. tk_id t = i) (sc_tasks s @ sc_erased s)"

definition proxy_of_task :: "('x, 'i) backend \<Rightarrow> time \<Rightarrow> 'x task \<Rightarrow> proxy" where
  "proxy_of_task B now t =
    (let d = secs (be_estimate B now t)
     in \<lparr>tp_id = tk_id t, tp_rabs = tk_created t, tp_d = 0, tp_a = of_nat (unat (td_length (tk_desc t))),
         tp_r = 0, tp_t = d, tp_tsum = d\<rparr>)"

text \<open>The remaining time of the first task is brought up to date before sorting.\<close>

definition update_front :: "('x, 'i) backend \<Rightarrow> ('x, 'i, 'p) sched_scheme \<Rightarrow> proxy list \<Rightarrow> proxy list" where
  "update_front B s ps =
    (case ps of
       [] \<Rightarrow> []
     | p # qs \<Rightarrow>
        (case fs_origin s (tp_id p) of
           None \<Rightarrow> ps
         | Some t \<Rightarrow> p\<lparr>tp_t := secs (be_estimate B (sc_now s) t)\<rparr> # qs))"

definition fsp_reschedule :: "('x, 'i) backend \<Rightarrow> sched_config \<Rightarrow> bool \<Rightarrow> ('x, 'i) fsp_sched \<Rightarrow>
    ('x, 'i) fsp_sched" where
  "fsp_reschedule B K pre s =
    (let fl = (fs_list s)\<lparr>fl_tasks := update_front B s (fl_tasks (fs_list s))\<rparr>;
         fl1 = fl_sort pre (sc_now s) fl;
         s1 = s\<lparr>fs_list := fl1, sc_tasks := List.map_filter (\<lambda>p. fs_origin s (tp_id p)) (fl_tasks fl1)\<rparr>
     in if sc_tasks s1 \<noteq> [] then reschedule_at (sc_now s1 + cfg_reschedule K) s1 else s1)"

definition fsp_acceptable :: "('x, 'i, 'p) sched_scheme \<Rightarrow> taskbag_msg \<Rightarrow> 32 word option" where
  "fsp_acceptable s m = Some (tb_lastTask m - tb_firstTask m + 1)"

definition fsp_acceptTask :: "('x, 'i) backend \<Rightarrow> bool \<Rightarrow> 'x task \<Rightarrow> ('x, 'i) fsp_sched \<Rightarrow> ('x, 'i) fsp_sched" where
  "fsp_acceptTask B pre t s =
    (case fl_addTasks pre (sc_now s) (proxy_of_task B (sc_now s) t) 1 (fs_list s) of
       None \<Rightarrow> s | Some fl \<Rightarrow> s\<lparr>fs_list := fl\<rparr>)"

definition fsp_removeTask :: "'x task \<Rightarrow> ('x, 'i) fsp_sched \<Rightarrow> ('x, 'i) fsp_sched" where
  "fsp_removeTask t s = s\<lparr>fs_list := fl_removeTask (tk_id t) (fs_list s)\<rparr>"

definition fsp_policy :: "('x, 'i) backend \<Rightarrow> sched_config \<Rightarrow> bool \<Rightarrow> (('x, 'i) fsp_sched \<Rightarrow> 'i) \<Rightarrow>
    (32 word \<Rightarrow> 'i \<Rightarrow> 'i) \<Rightarrow> ('x, 'i, \<lparr>fs_list :: fsp_list\<rparr>) policy" where
  "fsp_policy B K pre info setSeq = \<lparr>pl_acceptable = fsp_acceptable, pl_reschedule = fsp_reschedule B K pre,
     pl_availability = (\<lambda>s. Some (info s)), pl_setSeq = setSeq,
     pl_accepted = fsp_acceptTask B pre, pl_removed = fsp_removeTask\<rparr>"

section \<open>The queue and the proxies\<close>

text \<open>Every proxy leads to a task; the ones in the queue are exactly those with a proxy.\<close>

definition held :: "('x, 'i) fsp_sched \<Rightarrow> bool" where
  "held s \<longleftrightarrow> set (map tp_id (fl_tasks (fs_list s))) \<subseteq> set (map tk_id (sc_tasks s @ sc_erased s))"

definition linked :: "('x, 'i) fsp_sched \<Rightarrow> bool" where
  "linked s \<longleftrightarrow> mset (map tk_id (sc_tasks s)) = mset (map tp_id (fl_tasks (fs_list s)))"

lemma linked_held: "linked s \<Longrightarrow> held s"
  unfolding linked_def held_def by (drule mset_eq_setD) auto

lemma origin_some: "i \<in> set (map tk_id (sc_tasks s @ sc_erased s)) \<Longrightarrow>
    \<exists>t. fs_origin s i = Some t \<and> tk_id t = i"
proof -
  assume "i \<in> set (map tk_id (sc_tasks s @ sc_erased s))"
  then have "fs_origin s i \<noteq> None"
    by (auto simp: fs_origin_def find_None_iff)
  then obtain t where "fs_origin s i = Some t" by blast
  moreover from this have "tk_id t = i" by (auto simp: fs_origin_def find_Some_iff)
  ultimately show ?thesis by blast
qed

lemma map_filter_origin:
  assumes "\<forall>p \<in> set ps. \<exists>t. fs_origin s (tp_id p) = Some t \<and> tk_id t = tp_id p"
  shows "map tk_id (List.map_filter (\<lambda>p. fs_origin s (tp_id p)) ps) = map tp_id ps"
  using assms by (induction ps) (auto simp: map_filter_simps)

lemma update_front_ids [simp]: "map tp_id (update_front B s ps) = map tp_id ps"
  by (cases ps) (auto simp: update_front_def split: option.split)

lemma fl_sort_ids: "mset (map tp_id (fl_tasks (fl_sort pre now fl))) = mset (map tp_id (fl_tasks fl))"
proof -
  have t: "fl_tasks (fl_computeBoundaries pre now fl) = fl_tasks fl"
    by (simp add: fl_computeBoundaries_def)
  from sort_min_result [of pre "fl_tasks fl" now "fl_bounds (fl_computeBoundaries pre now fl)"]
  show ?thesis
    by (auto simp: fl_sort_def t Let_def simp del: mset_map intro!: same_queue_ids)
qed

lemma reschedule_tasks:
  assumes "held s"
  shows "map tk_id (sc_tasks (fsp_reschedule B K pre s)) = map tp_id (fl_tasks (fs_list (fsp_reschedule B K pre s)))"
    and "mset (map tp_id (fl_tasks (fs_list (fsp_reschedule B K pre s)))) = mset (map tp_id (fl_tasks (fs_list s)))"
proof -
  let ?fl = "(fs_list s)\<lparr>fl_tasks := update_front B s (fl_tasks (fs_list s))\<rparr>"
  let ?fl1 = "fl_sort pre (sc_now s) ?fl"
  have m: "mset (map tp_id (fl_tasks ?fl1)) = mset (map tp_id (fl_tasks (fs_list s)))"
    using fl_sort_ids [of pre "sc_now s" ?fl] by simp
  have r: "sc_tasks (fsp_reschedule B K pre s) = List.map_filter (\<lambda>p. fs_origin s (tp_id p)) (fl_tasks ?fl1)"
    "fs_list (fsp_reschedule B K pre s) = ?fl1"
    by (simp_all add: fsp_reschedule_def reschedule_at_def Let_def case_prod_beta)
  have "\<forall>p \<in> set (fl_tasks ?fl1). \<exists>t. fs_origin s (tp_id p) = Some t \<and> tk_id t = tp_id p"
  proof
    fix p
    assume "p \<in> set (fl_tasks ?fl1)"
    then have "tp_id p \<in> set (map tp_id (fl_tasks (fs_list s)))"
      using mset_eq_setD [OF m] by auto
    with assms have "tp_id p \<in> set (map tk_id (sc_tasks s @ sc_erased s))" unfolding held_def by blast
    then show "\<exists>t. fs_origin s (tp_id p) = Some t \<and> tk_id t = tp_id p" by (rule origin_some)
  qed
  from map_filter_origin [OF this] m r show
    "map tk_id (sc_tasks (fsp_reschedule B K pre s)) = map tp_id (fl_tasks (fs_list (fsp_reschedule B K pre s)))"
    "mset (map tp_id (fl_tasks (fs_list (fsp_reschedule B K pre s)))) = mset (map tp_id (fl_tasks (fs_list s)))"
    by simp_all
qed

lemma fl_sort_front: "\<not> pre \<Longrightarrow> take 1 (fl_tasks (fl_sort pre now fl)) = take 1 (fl_tasks fl)"
proof -
  assume "\<not> pre"
  moreover have "fl_tasks (fl_computeBoundaries pre now fl) = fl_tasks fl"
    by (simp add: fl_computeBoundaries_def)
  ultimately show ?thesis
    using sort_min_result [of pre "fl_tasks fl" now "fl_bounds (fl_computeBoundaries pre now fl)"]
    by (auto simp: same_queue_def fl_sort_def Let_def)
qed

lemma reschedule_front:
  assumes "held s" and "\<not> pre"
  shows "take 1 (map tk_id (sc_tasks (fsp_reschedule B K pre s))) = take 1 (map tp_id (fl_tasks (fs_list s)))"
proof -
  let ?fl = "(fs_list s)\<lparr>fl_tasks := update_front B s (fl_tasks (fs_list s))\<rparr>"
  have "fs_list (fsp_reschedule B K pre s) = fl_sort pre (sc_now s) ?fl"
    by (simp add: fsp_reschedule_def reschedule_at_def Let_def case_prod_beta)
  then have "take 1 (map tp_id (fl_tasks (fs_list (fsp_reschedule B K pre s)))) =
      map tp_id (take 1 (fl_tasks ?fl))"
    using fl_sort_front [OF assms(2), of "sc_now s" ?fl] by (simp add: take_map)
  also have "\<dots> = take 1 (map tp_id (fl_tasks (fs_list s)))"
    using update_front_ids [of B s "fl_tasks (fs_list s)"] by (simp only: take_map [symmetric]) simp
  finally show ?thesis by (simp only: reschedule_tasks(1) [OF assms(1)])
qed

lemma reschedule_timer:
  "0 \<le> c_timerId (sc_comm s) \<Longrightarrow> 0 \<le> c_timerId (sc_comm (fsp_reschedule B K pre s))"
  by (simp add: fsp_reschedule_def reschedule_at_def set_timer_at_def set_timer_impl_def Let_def
      cancel_timer_def)

lemma fs_list_frames [simp]:
  "fs_list (run_front B s) = fs_list s" "fs_list (count_paused B s) = fs_list s"
  "fs_list (sc_send a m s) = fs_list s" "fs_list (notify_schedule P s) = fs_list s"
  "fs_list (set_monitor_timer K s) = fs_list s"
  by (auto simp: run_front_def count_paused_def sc_send_def notify_schedule_def set_monitor_timer_def
      Let_def case_prod_beta split: list.split option.split)

definition aligned :: "('x, 'i) fsp_sched \<Rightarrow> bool" where
  "aligned s \<longleftrightarrow> map tk_id (sc_tasks s) = map tp_id (fl_tasks (fs_list s))"

lemma aligned_held: "aligned s \<Longrightarrow> held s"
  unfolding aligned_def held_def by (metis Un_upper1 map_append set_append)

abbreviation fsp_of :: "rat \<Rightarrow> 64 word \<Rightarrow> 64 word \<Rightarrow> sched_config \<Rightarrow> bool \<Rightarrow> ((sim_body, 'i) fsp_sched \<Rightarrow> 'i) \<Rightarrow>
    (32 word \<Rightarrow> 'i \<Rightarrow> 'i) \<Rightarrow> (sim_body, 'i, \<lparr>fs_list :: fsp_list\<rparr>) policy" where
  "fsp_of pw mem disk K pre info setSeq \<equiv> fsp_policy (sim_backend pw mem disk) K pre info setSeq"

lemma switch_aligned:
  assumes "held s" and "0 \<le> c_timerId (sc_comm s)"
  shows "aligned (switch_context (sim_backend pw mem disk) (fsp_of pw mem disk K pre info setSeq) s)"
    and "mset (map tk_id (sc_tasks (switch_context (sim_backend pw mem disk) (fsp_of pw mem disk K pre info setSeq) s)))
      = mset (map tp_id (fl_tasks (fs_list s)))"
    and "\<not> pre \<Longrightarrow> take 1 (map tk_id (sc_tasks (switch_context (sim_backend pw mem disk) (fsp_of pw mem disk K pre info setSeq) s)))
      = take 1 (map tp_id (fl_tasks (fs_list s)))"
proof -
  let ?B = "sim_backend pw mem disk" and ?P = "fsp_of pw mem disk K pre info setSeq"
  have P: "pl_reschedule ?P s = fsp_reschedule ?B K pre s" by (simp add: fsp_policy_def)
  have "0 \<le> c_timerId (sc_comm (pl_reschedule ?P s))" using assms(2) by (simp add: P reschedule_timer)
  from sim_tasks.switch_context_result [OF this, of pw mem disk]
  have ids: "map tk_id (sc_tasks (switch_context ?B ?P s)) = map tk_id (sc_tasks (fsp_reschedule ?B K pre s))"
    by (simp add: Let_def P)
  have fl: "fs_list (switch_context ?B ?P s) = fs_list (fsp_reschedule ?B K pre s)"
    by (simp add: switch_context_def P)
  show "aligned (switch_context ?B ?P s)"
    using reschedule_tasks(1) [OF assms(1)] by (simp add: aligned_def ids fl)
  show "mset (map tk_id (sc_tasks (switch_context ?B ?P s))) = mset (map tp_id (fl_tasks (fs_list s)))"
    unfolding ids reschedule_tasks(1) [OF assms(1)] by (rule reschedule_tasks(2) [OF assms(1)])
  show "take 1 (map tk_id (sc_tasks (switch_context ?B ?P s))) = take 1 (map tp_id (fl_tasks (fs_list s)))"
    if "\<not> pre" unfolding ids by (rule reschedule_front [OF assms(1) that])
qed

section \<open>The handlers keep queue and proxies together\<close>

lemma find_erase: "find P xs = Some x \<Longrightarrow> mset xs = add_mset x (mset (erase_first P xs))"
  by (induction xs) (auto split: if_splits)

lemma sim_abort_timer [simp]: "c_timerId (snd (sim_abort t c)) = c_timerId c"
  by (simp add: sim_abort_def Let_def)

lemma abort_kept:
  fixes s :: "(sim_body, 'i) fsp_sched"
  assumes B: "B = sim_backend pw mem disk"
  shows "mset (map tk_id (sc_tasks (abort_one B r i s) @ sc_erased (abort_one B r i s)))
      = mset (map tk_id (sc_tasks s @ sc_erased s))"
    and "fs_list (abort_one B r i s) = fs_list s"
    and "c_timerId (sc_comm (abort_one B r i s)) = c_timerId (sc_comm s)"
proof -
  show "fs_list (abort_one B r i s) = fs_list s" "c_timerId (sc_comm (abort_one B r i s)) = c_timerId (sc_comm s)"
    by (auto simp: abort_one_def B sim_backend_def case_prod_beta split: option.split)
  show "mset (map tk_id (sc_tasks (abort_one B r i s) @ sc_erased (abort_one B r i s)))
      = mset (map tk_id (sc_tasks s @ sc_erased s))"
  proof (cases "find (is_client_task r i) (sc_tasks s)")
    case None
    then show ?thesis by (simp add: abort_one_def)
  next
    case (Some t)
    with find_erase [OF Some] show ?thesis by (simp add: abort_one_def case_prod_beta)
  qed
qed

lemma abort_all_kept:
  fixes s :: "(sim_body, 'i) fsp_sched"
  shows "let s' = fold (abort_one (sim_backend pw mem disk) r) is s in
    mset (map tk_id (sc_tasks s' @ sc_erased s')) = mset (map tk_id (sc_tasks s @ sc_erased s))
    \<and> fs_list s' = fs_list s \<and> c_timerId (sc_comm s') = c_timerId (sc_comm s)"
proof (induction "is" arbitrary: s)
  case Nil
  then show ?case by simp
next
  case (Cons i "is")
  from Cons [of "abort_one (sim_backend pw mem disk) r i s"] show ?case
    using abort_kept [OF refl, of pw mem disk r i s] by (simp only: fold_simps o_apply Let_def)
qed

lemma abort_held:
  fixes s :: "(sim_body, 'i) fsp_sched"
  assumes "aligned s" and "s' = fold (abort_one (sim_backend pw mem disk) r) is s"
  shows "held s' \<and> fs_list s' = fs_list s \<and> c_timerId (sc_comm s') = c_timerId (sc_comm s)"
proof -
  note k = abort_all_kept [of pw mem disk r "is" s, folded assms(2), unfolded Let_def]
  from k have "set (map tk_id (sc_tasks s' @ sc_erased s')) = set (map tk_id (sc_tasks s @ sc_erased s))"
    by (intro mset_eq_setD) blast
  with aligned_held [OF assms(1)] k show ?thesis by (simp only: held_def)
qed

lemma notify_aligned [simp]: "aligned (notify_schedule P s) = aligned s"
  by (simp add: aligned_def)

lemma erase_aligned:
  "map tk_id ts = map tp_id ps \<Longrightarrow> map tk_id (erase_first (\<lambda>t. tk_id t = i) ts) = map tp_id (erase_proxy i ps)"
proof (induction ts arbitrary: ps)
  case Nil
  then show ?case by simp
next
  case (Cons t ts)
  then show ?case by (cases ps) auto
qed

lemma erase_absent: "\<forall>p. p \<in> set ps \<longrightarrow> tp_id p \<noteq> i \<Longrightarrow> erase_proxy i ps = ps"
  by (induction ps) auto

lemma remove_aligned:
  assumes "aligned s" and "remove_from_queue (fsp_policy B K pre info setSeq) i s = (r, s')"
  shows "aligned s' \<and> sc_comm s' = sc_comm s"
proof (cases "get_task i s")
  case None
  with assms show ?thesis by (simp add: remove_from_queue_def)
next
  case (Some t)
  then have i: "tk_id t = i" by (auto simp: get_task_def find_Some_iff)
  have l: "fl_tasks (fl_removeTask i (fs_list s)) = erase_proxy i (fl_tasks (fs_list s))"
    by (auto simp: fl_removeTask_def find_None_iff erase_absent [symmetric])
  from assms Some i l erase_aligned [of "sc_tasks s" "fl_tasks (fs_list s)" i] show ?thesis
    by (auto simp: remove_from_queue_def fsp_policy_def fsp_removeTask_def aligned_def)
qed

lemma accept_one_aligned:
  "aligned s \<Longrightarrow> tk_id t = j \<Longrightarrow>
   aligned (fsp_acceptTask B pre t (s\<lparr>sc_tasks := sc_tasks s @ [t], sc_nextId := n\<rparr>))
   \<and> sc_comm (fsp_acceptTask B pre t (s\<lparr>sc_tasks := sc_tasks s @ [t], sc_nextId := n\<rparr>)) = sc_comm s"
  by (auto simp: fsp_acceptTask_def aligned_def fl_addTasks_def add_boundary_values_def
      proxy_of_task_def Let_def)

lemma add_aligned:
  "aligned s \<Longrightarrow> aligned (add_tasks B (fsp_policy B K pre info setSeq) m i n s)
    \<and> sc_comm (add_tasks B (fsp_policy B K pre info setSeq) m i n s) = sc_comm s"
proof (induction n arbitrary: i s)
  case 0
  then show ?case by simp
next
  case (Suc n)
  let ?t = "create_task B m i s"
  note one = accept_one_aligned [OF Suc.prems, of ?t "tk_id ?t" B pre "sc_nextId s + 1"]
  from Suc.IH [of "fsp_acceptTask B pre ?t (s\<lparr>sc_tasks := sc_tasks s @ [?t], sc_nextId := sc_nextId s + 1\<rparr>)" "i + 1"]
    one show ?case
    by (simp add: fsp_policy_def Let_def)
qed

lemma switch_one:
  fixes s :: "(sim_body, 'i) fsp_sched"
  assumes "aligned s" and "0 \<le> c_timerId (sc_comm s)"
  shows "aligned (switch_context (sim_backend pw mem disk) (fsp_of pw mem disk K pre info setSeq) s)"
  by (rule switch_aligned(1) [OF aligned_held [OF assms(1)] assms(2)])

lemma bag_aligned:
  fixes s :: "(sim_body, 'i) fsp_sched"
  assumes "sc_handle_bag (sim_backend pw mem disk) (fsp_of pw mem disk K pre info setSeq) K src m s = Some s'"
    and "aligned s" and "0 \<le> c_timerId (sc_comm s)"
  shows "aligned s'"
proof (cases "tb_forEN m \<and> check_static (sim_backend pw mem disk :: (sim_body, 'i) backend) (tb_minReq m)")
  case False
  have "s' = s" using assms(1) unfolding sc_handle_bag_def if_not_P [OF False] by simp
  with assms(2) show ?thesis by simp
next
  case True
  let ?B = "sim_backend pw mem disk :: (sim_body, 'i) backend" and ?P = "fsp_of pw mem disk K pre info setSeq"
  let ?n = "tb_lastTask m - tb_firstTask m + 1"
  let ?s1 = "add_tasks ?B ?P m 0 (unat ?n) s"
  let ?s2 = "if unat (sc_maxQueue ?s1) < length (sc_tasks ?s1)
               then ?s1\<lparr>sc_maxQueue := of_nat (length (sc_tasks ?s1))\<rparr> else ?s1"
  have s1: "aligned ?s1" "sc_comm ?s1 = sc_comm s" using add_aligned [OF assms(2)] by blast+
  then have s2: "aligned ?s2" "sc_comm ?s2 = sc_comm s" by (simp_all add: aligned_def)
  have acc: "accept_tasks ?B ?P m s = Some (?n, if ?n \<noteq> 0 then switch_context ?B ?P ?s2 else ?s2)"
    by (simp add: accept_tasks_def fsp_policy_def fsp_acceptable_def Let_def)
  have sw: "aligned (switch_context ?B ?P ?s2)" by (rule switch_one [OF s2(1)]) (use s2(2) assms(3) in simp)
  have kept: "aligned (set_monitor_timer K t) = aligned t" "aligned (sc_send a x t) = aligned t" for t :: "(sim_body, 'a) fsp_sched" and a x
    by (simp_all add: aligned_def)
  show ?thesis
  proof (cases "?n = 0")
    case True
    with assms(1) s2 acc \<open>tb_forEN m \<and> check_static ?B (tb_minReq m)\<close> show ?thesis
      by (auto simp: sc_handle_bag_def)
  next
    case False
    with assms(1) acc \<open>tb_forEN m \<and> check_static ?B (tb_minReq m)\<close> sw show ?thesis
      by (auto simp: sc_handle_bag_def Let_def kept split: if_splits)
  qed
qed

lemma state_aligned:
  assumes "aligned s" and "0 \<le> c_timerId (sc_comm s)"
  shows "aligned (sc_handle_state (sim_backend pw mem disk) (fsp_of pw mem disk K pre info setSeq) K src m s)"
proof -
  let ?P = "fsp_of pw mem disk K pre info setSeq"
  let ?s0 = "if sc_newState m = t_finished then s\<lparr>sc_executed := sc_executed s + 1\<rparr> else s"
  obtain r s1 where r: "remove_from_queue ?P (sc_taskId m) ?s0 = (r, s1)" by fastforce
  have "aligned ?s0" using assms(1) by (simp add: aligned_def)
  from remove_aligned [OF this r] have s1: "aligned s1" "sc_comm s1 = sc_comm s" by auto
  have send: "aligned (sc_send a x t) = aligned t" "c_timerId (sc_comm (sc_send a x t)) = c_timerId (sc_comm t)"
    for t :: "(sim_body, 'a) fsp_sched" and a x
    by (simp_all add: aligned_def) (simp add: sc_send_def)
  show ?thesis
    using assms s1 r by (auto simp: sc_handle_state_def Let_def send split: option.split intro!: switch_one)
qed

lemma sends_fs_list:
  "sc_tasks (fold (\<lambda>a s'. sc_send a (f a) s') as s) = sc_tasks s"
  "fs_list (fold (\<lambda>a s'. sc_send a (f a) s') as s) = fs_list s"
  by (induction as arbitrary: s) simp_all

text \<open>
  C35. Queue and proxies stay together: whatever message the scheduler of the fair policy handles,
  an abort included, the queue afterwards holds one task per proxy, in the order of the proxies.
\<close>

theorem fsp_queue_invariant:
  assumes "sc_receive (sim_backend pw mem disk) (fsp_policy (sim_backend pw mem disk) K pre info setSeq) K s src m = Some (b, s')"
    and "aligned s" and "0 \<le> c_timerId (sc_comm s)"
  shows "aligned s'"
proof -
  have t: "aligned (s\<lparr>sc_reschTimer := 0\<rparr>)" "0 \<le> c_timerId (sc_comm (s\<lparr>sc_reschTimer := 0\<rparr>))"
    using assms(2,3) by (simp_all add: aligned_def)
  have abort: "aligned (sc_handle_abort (sim_backend pw mem disk) (fsp_of pw mem disk K pre info setSeq) am s)" for am
    using abort_held [OF assms(2) refl, of pw mem disk "ab_requestId am" "ab_tasks am"] assms(3)
    by (simp add: sc_handle_abort_def switch_aligned(1))
  have mon: "aligned (sc_handle_monitor (sim_backend pw mem disk) K s)"
    using assms(2) by (cases "sc_tasks s") (auto simp: sc_handle_monitor_def aligned_def sends_fs_list)
  show ?thesis
    using assms(1) bag_aligned [OF _ assms(2,3)] state_aligned [OF assms(2,3)] switch_one [OF t] abort mon assms(2)
    by (auto simp: sc_receive_def sc_handle_reschedule_def split: msg.splits)
qed

definition example_fsp_task :: "32 word \<Rightarrow> 64 word \<Rightarrow> sim_body task" where
  "example_fsp_task i len = \<lparr>tk_id = i, tk_owner = Addr 3 3, tk_request = 7, tk_client = i + 1,
     tk_desc = mk_task_desc\<lparr>td_length := len\<rparr>, tk_created = 0,
     tk_body = sim_create 1000 (mk_task_desc\<lparr>td_length := len\<rparr>)\<rparr>"

definition example_fsp :: "(sim_body, nat) fsp_sched" where
  "example_fsp = (let ts = [example_fsp_task 0 10000, example_fsp_task 1 5000]
     in (mk_fsp_sched example_comm)\<lparr>sc_tasks := ts, sc_nextId := 2,
          fs_list := \<lparr>fl_tasks = map (proxy_of_task (sim_backend 1000 512 512 :: (sim_body, nat) backend) 10) ts,
                      fl_bounds = [], fl_dirty = True\<rparr>\<rparr>)"

lemma example_fsp_aligned: "aligned example_fsp" "0 \<le> c_timerId (sc_comm example_fsp)"
  by (simp_all add: example_fsp_def Let_def aligned_def proxy_of_task_def mk_fsp_sched_def
      sched.defs mk_sched_def example_comm_def)

theorem fsp_queue_invariant_witness:
  "\<exists>s'. sc_receive (sim_backend 1000 512 512) (fsp_policy (sim_backend 1000 512 512) example_config False (\<lambda>s. 0) (\<lambda>n i. i))
     example_config example_fsp (Addr 3 3) (MAbort \<lparr>ab_requestId = 7, ab_tasks = [2]\<rparr>) = Some (True, s') \<and> aligned s'"
proof -
  obtain s' where r: "sc_receive (sim_backend 1000 512 512) (fsp_policy (sim_backend 1000 512 512) example_config False (\<lambda>s. 0) (\<lambda>n i. i))
     example_config example_fsp (Addr 3 3) (MAbort \<lparr>ab_requestId = 7, ab_tasks = [2]\<rparr>) = Some (True, s')"
    by (simp add: sc_receive_def)
  from fsp_queue_invariant [OF r example_fsp_aligned] r show ?thesis by blast
qed

text \<open>
  C37. The fair policy aborts nothing: the handler of an abort erases the tasks from the queue but
  not their proxies, and the reschedule that follows rebuilds the queue from the proxies, so it
  holds the very same tasks as before the message.
\<close>

theorem fsp_abort_ignored:
  assumes "aligned s" and "0 \<le> c_timerId (sc_comm s)"
  shows "mset (map tk_id (sc_tasks (sc_handle_abort (sim_backend pw mem disk)
      (fsp_policy (sim_backend pw mem disk) K pre info setSeq) m s))) = mset (map tk_id (sc_tasks s))"
  using abort_held [OF assms(1) refl, of pw mem disk "ab_requestId m" "ab_tasks m"] assms
  by (simp add: sc_handle_abort_def switch_aligned(2) aligned_def del: mset_map)

theorem fsp_abort_ignored_witness:
  "mset (map tk_id (sc_tasks (sc_handle_abort (sim_backend 1000 512 512)
      (fsp_policy (sim_backend 1000 512 512) example_config False (\<lambda>s. 0) (\<lambda>n i. i))
      \<lparr>ab_requestId = 7, ab_tasks = [2]\<rparr> example_fsp))) = {#0, 1#}"
proof -
  have "map tk_id (sc_tasks example_fsp) = [0, 1]"
    by (simp add: example_fsp_def example_fsp_task_def Let_def)
  then have "mset (map tk_id (sc_tasks example_fsp)) = {#0, 1#}" by (simp only: mset.simps)
  with fsp_abort_ignored [OF example_fsp_aligned, of 1000 512 512 example_config False "\<lambda>s. 0" "\<lambda>n i. i"
      "\<lparr>ab_requestId = 7, ab_tasks = [2]\<rparr>"] show ?thesis by simp
qed

text \<open>
  Without preemption the task at the front of the queue keeps its place: a switch of context
  under the fair policy, whatever the slowness it computes, has the same task first as before.
\<close>

theorem fsp_front_stays:
  assumes "aligned s" and "0 \<le> c_timerId (sc_comm s)"
  shows "take 1 (map tk_id (sc_tasks (switch_context (sim_backend pw mem disk)
      (fsp_policy (sim_backend pw mem disk) K False info setSeq) s))) = take 1 (map tk_id (sc_tasks s))"
  using switch_aligned(3) [OF aligned_held [OF assms(1)] assms(2), of False pw mem disk K info setSeq] assms(1)
  by (simp add: aligned_def)

theorem fsp_front_stays_witness:
  "take 1 (map tk_id (sc_tasks (switch_context (sim_backend 1000 512 512)
      (fsp_policy (sim_backend 1000 512 512) example_config False (\<lambda>s. 0) (\<lambda>n i. i)) example_fsp))) = [0]"
  using fsp_front_stays [OF example_fsp_aligned, of 1000 512 512 example_config "\<lambda>s. 0" "\<lambda>n i. i"]
  by (simp add: example_fsp_def example_fsp_task_def Let_def)

end
