(* ===== verification/Std_Heap.thy ===== *)
theory Std_Heap
  imports Stars_Prelude
begin

text \<open>
  The heap algorithms of the C++ library (\<open>std::push_heap\<close>, \<open>std::pop_heap\<close>,
  \<open>std::make_heap\<close>) on a range, which is a list here. The standard fixes what they promise and
  not where they leave the elements, so the code that uses them takes them as an argument, and
  \<open>std_heap\<close> states the promise. A sorted range is a heap: it gives an executable version.
\<close>

record 'e heap_ops =
  hp_push :: "'e list \<Rightarrow> 'e list"
  hp_pop :: "'e list \<Rightarrow> 'e list"
  hp_make :: "'e list \<Rightarrow> 'e list"

text \<open>
  \<open>push\<close> adds the last element of the range to the heap before it; \<open>pop\<close> moves the front, which no
  element exceeds, to the end of the range and leaves a heap before it.
\<close>

locale std_heap =
  fixes lt :: "'e \<Rightarrow> 'e \<Rightarrow> bool" and H :: "'e heap_ops" and heap :: "'e list \<Rightarrow> bool"
  assumes heap_empty: "heap []"
    and heap_front: "heap xs \<Longrightarrow> y \<in> set xs \<Longrightarrow> \<not> lt (hd xs) y"
    and heap_push: "heap xs \<Longrightarrow> heap (hp_push H (xs @ [x]))"
    and mset_push: "heap xs \<Longrightarrow> mset (hp_push H (xs @ [x])) = add_mset x (mset xs)"
    and heap_pop: "heap xs \<Longrightarrow> xs \<noteq> [] \<Longrightarrow> heap (butlast (hp_pop H xs))"
    and last_pop: "heap xs \<Longrightarrow> xs \<noteq> [] \<Longrightarrow> last (hp_pop H xs) = hd xs"
    and mset_pop: "heap xs \<Longrightarrow> xs \<noteq> [] \<Longrightarrow> mset (hp_pop H xs) = mset xs"
    and heap_make: "heap (hp_make H xs)"
    and mset_make: "mset (hp_make H xs) = mset xs"
begin

lemma pop_split:
  assumes "heap xs" and "xs \<noteq> []"
  shows "hp_pop H xs = butlast (hp_pop H xs) @ [hd xs]"
    and "mset xs = add_mset (hd xs) (mset (butlast (hp_pop H xs)))"
    and "length (butlast (hp_pop H xs)) = length xs - 1"
proof -
  have ne: "hp_pop H xs \<noteq> []" using mset_pop [OF assms] assms(2) by (metis mset_zero_iff)
  with last_pop [OF assms] show s: "hp_pop H xs = butlast (hp_pop H xs) @ [hd xs]"
    by (metis append_butlast_last_id)
  show "mset xs = add_mset (hd xs) (mset (butlast (hp_pop H xs)))"
    using mset_pop [OF assms] arg_cong [OF s, of mset] by simp
  then show "length (butlast (hp_pop H xs)) = length xs - 1"
    using mset_pop [OF assms] by (metis length_butlast size_mset)
qed

lemma push_length: "heap xs \<Longrightarrow> length (hp_push H (xs @ [x])) = Suc (length xs)"
  by (metis mset_push size_add_mset size_mset)

lemma push_set: "heap xs \<Longrightarrow> set (hp_push H (xs @ [x])) = insert x (set xs)"
  by (metis mset_push set_mset_add_mset_insert set_mset_mset)

lemma make_set: "set (hp_make H xs) = set xs" "length (hp_make H xs) = length xs"
  by (metis mset_make set_mset_mset) (metis mset_make size_mset)

text \<open>Replacing the greatest element: pop, overwrite the back, push.\<close>

lemma replace_front:
  assumes "heap xs" and "xs \<noteq> []"
  shows "heap (hp_push H (butlast (hp_pop H xs) @ [x]))"
    and "mset (hp_push H (butlast (hp_pop H xs) @ [x])) = add_mset x (mset xs - {#hd xs#})"
  using heap_push [OF heap_pop [OF assms]] mset_push [OF heap_pop [OF assms]] pop_split(2) [OF assms]
  by simp_all

end

section \<open>A sorted range\<close>

definition sorted_heap :: "('e \<Rightarrow> 'e \<Rightarrow> bool) \<Rightarrow> 'e heap_ops" where
  "sorted_heap lt = \<lparr>
     hp_push = (\<lambda>xs. if xs = [] then [] else std_insert (\<lambda>a b. lt b a) (last xs) (butlast xs)),
     hp_pop = (\<lambda>xs. if xs = [] then [] else tl xs @ [hd xs]),
     hp_make = std_sort (\<lambda>a b. lt b a)\<rparr>"

text \<open>For a strict weak order, written as one that sorts the other way round.\<close>

locale heap_order =
  fixes lt :: "'e \<Rightarrow> 'e \<Rightarrow> bool"
  assumes irrefl: "\<not> lt a a"
    and asym: "lt a b \<Longrightarrow> \<not> lt b a"
    and not_trans: "\<not> lt a b \<Longrightarrow> \<not> lt b c \<Longrightarrow> \<not> lt a c"
begin

lemma down: "sort_order (\<lambda>a b. lt b a) (\<lambda>a b. \<not> lt a b)"
  using asym not_trans by unfold_locales blast+

lemma sorted_range: "std_heap lt (sorted_heap lt) (sorted_wrt (\<lambda>a b. \<not> lt a b))"
proof unfold_locales
  fix xs x y
  let ?h = "sorted_wrt (\<lambda>a b. \<not> lt a b)"
  show "?h []" by simp
  show "?h xs \<Longrightarrow> y \<in> set xs \<Longrightarrow> \<not> lt (hd xs) y" by (cases xs) (auto simp: irrefl)
  show "?h xs \<Longrightarrow> ?h (hp_push (sorted_heap lt) (xs @ [x]))"
    by (simp add: sorted_heap_def sort_order.insert_ordered [OF down])
  show "mset (hp_push (sorted_heap lt) (xs @ [x])) = add_mset x (mset xs)"
    by (simp add: sorted_heap_def sort_simps)
  show "?h xs \<Longrightarrow> xs \<noteq> [] \<Longrightarrow> ?h (butlast (hp_pop (sorted_heap lt) xs))"
    by (cases xs) (simp_all add: sorted_heap_def)
  show "xs \<noteq> [] \<Longrightarrow> last (hp_pop (sorted_heap lt) xs) = hd xs" by (simp add: sorted_heap_def)
  show "xs \<noteq> [] \<Longrightarrow> mset (hp_pop (sorted_heap lt) xs) = mset xs"
    by (cases xs) (simp_all add: sorted_heap_def)
  show "?h (hp_make (sorted_heap lt) xs)"
    by (simp add: sorted_heap_def sort_order.sort_ordered [OF down])
  show "mset (hp_make (sorted_heap lt) xs) = mset xs" by (simp add: sorted_heap_def sort_simps)
qed

end

lemma heap_order_key: "heap_order (\<lambda>a b. (f a :: 'b :: linorder) < f b)"
  by unfold_locales auto

end
