(* ===== verification/Central_Base.thy ===== *)
theory Central_Base
  imports Std_Heap Scheduler
begin

text \<open>
  \<open>src/oldsim/CentralizedScheduler.hpp\<close>, the base class of \<open>src/oldsim/CentralizedScheduler.cpp\<close>,
  \<open>src/oldsim/RescheduleMsg.hpp\<close> and \<open>src/oldsim/SlaveLocalScheduler.cpp\<close>: the simulator can
  replace the dispatchers by one scheduler that knows every node. It keeps a copy of the queue of
  each node and sends the node the order in which to run its tasks.

  What the schedulers ask of a simulated node is a \<open>cnode\<close>. Messages handed to the network are the
  trace \<open>ce_sent\<close>, with the node they leave from; \<open>sz\<close> is the size of a message on the wire. A
  \<open>shared_ptr\<close> to the message of an application is the number of that message, \<open>cd_app\<close>, beside
  its contents.
\<close>

record task_ref =
  tr_requester :: addr
  tr_requestId :: int
  tr_taskId :: "32 word"

record resched_msg = taskbag_msg +
  rm_sequence :: "task_ref list"

datatype central_msg = CBag taskbag_msg | CResched resched_msg

text \<open>A simulated node: the last field is the estimated duration of the first task it holds.\<close>

record cnode =
  nd_power :: rat
  nd_mem :: "64 word"
  nd_disk :: "64 word"
  nd_father :: nat
  nd_first :: "int option"

definition node_check :: "task_desc \<Rightarrow> cnode \<Rightarrow> bool" where
  "node_check d nd \<longleftrightarrow> ucast (td_maxMemory d) \<le> nd_mem nd \<and> ucast (td_maxDisk d) \<le> nd_disk nd"

record cdesc =
  cd_app :: nat
  cd_msg :: taskbag_msg
  cd_tid :: "32 word"
  cd_deadline :: time
  cd_release :: time
  cd_runtime :: int

definition mk_cdesc :: "time \<Rightarrow> nat \<Rightarrow> taskbag_msg \<Rightarrow> cdesc" where
  "mk_cdesc now app m = \<lparr>cd_app = app, cd_msg = m, cd_tid = 0, cd_deadline = 0, cd_release = now, cd_runtime = 0\<rparr>"

definition cd_less :: "cdesc \<Rightarrow> cdesc \<Rightarrow> bool" where
  "cd_less l r \<longleftrightarrow> cd_deadline l < cd_deadline r \<or>
    (cd_deadline l = cd_deadline r \<and>
      (tb_requestId (cd_msg l) < tb_requestId (cd_msg r) \<or>
        (tb_requestId (cd_msg l) = tb_requestId (cd_msg r) \<and> cd_tid l \<le> cd_tid r)))"

record central =
  ce_queues :: "cdesc list list"
  ce_in :: "64 word"
  ce_out :: "64 word"
  ce_seq :: "64 word"
  ce_apps :: nat
  ce_sent :: "(nat \<times> nat \<times> central_msg) list"

definition mk_central :: "nat \<Rightarrow> central" where
  "mk_central n = \<lparr>ce_queues = replicate n [], ce_in = 0, ce_out = 0, ce_seq = 1, ce_apps = 0, ce_sent = []\<rparr>"

definition num_tasks :: "taskbag_msg \<Rightarrow> 32 word" where
  "num_tasks m = tb_lastTask m - tb_firstTask m + 1"

section \<open>Orders for the nodes\<close>

text \<open>The tasks at the back of the queue that belong to the message of the last one are the new ones.\<close>

definition new_at_back :: "cdesc list \<Rightarrow> nat" where
  "new_at_back q = length (takeWhile (\<lambda>t. cd_app t = cd_app (last q)) (rev q))"

definition get_resched_msg :: "64 word \<Rightarrow> cdesc list \<Rightarrow> resched_msg" where
  "get_resched_msg sn q =
    (let m = cd_msg (last q)
     in \<lparr>tb_requester = tb_requester m, tb_requestId = tb_requestId m,
         tb_firstTask = cd_tid (last q) - of_nat (new_at_back q) + 1, tb_lastTask = cd_tid (last q),
         tb_minReq = tb_minReq m, tb_forEN = True, tb_fromEN = False, tb_seq = ucast sn, tb_slowness = None,
         rm_sequence = []\<rparr>)"

definition ref_of :: "cdesc \<Rightarrow> task_ref" where
  "ref_of t = \<lparr>tr_requester = tb_requester (cd_msg t), tr_requestId = tb_requestId (cd_msg t), tr_taskId = cd_tid t\<rparr>"

text \<open>The back of an empty queue is not defined; the schedulers call this after adding tasks.\<close>

definition sort_queue :: "(resched_msg \<Rightarrow> 32 word) \<Rightarrow> cnode list \<Rightarrow> nat \<Rightarrow> 'a central_scheme \<Rightarrow>
    'a central_scheme option" where
  "sort_queue sz nds n c =
    (if n \<ge> length (ce_queues c) \<or> ce_queues c ! n = [] then None
     else
       (let q = ce_queues c ! n; q' = std_sort cd_less q;
            m = (get_resched_msg (ce_seq c) q)\<lparr>rm_sequence := map ref_of q'\<rparr>
        in Some (c\<lparr>ce_seq := ce_seq c + 1, ce_queues := (ce_queues c)[n := q'],
                   ce_sent := ce_sent c @ [(nd_father (nds ! n), n, CResched m)],
                   ce_out := ce_out c + ucast (sz m)\<rparr>)))"

definition push_task :: "nat \<Rightarrow> cdesc list \<Rightarrow> 'a central_scheme \<Rightarrow> 'a central_scheme" where
  "push_task n ts c = c\<lparr>ce_queues := (ce_queues c)[n := ce_queues c ! n @ ts]\<rparr>"

definition task_finished :: "nat \<Rightarrow> 'a central_scheme \<Rightarrow> 'a central_scheme" where
  "task_finished n c =
    (if ce_queues c ! n \<noteq> [] then c\<lparr>ce_queues := (ce_queues c)[n := tl (ce_queues c ! n)]\<rparr> else c)"

text \<open>
  Every event of the simulator passes here first; the answer is whether it is kept from its
  destination. \<open>newApp\<close> and \<open>finished\<close> are the virtual methods of the scheduler. The first
  state of a monitor message without states is read past its end.
\<close>

record 'i event =
  ev_msg :: "'i msg"
  ev_from :: nat
  ev_inRecvQueue :: bool
  ev_size :: "32 word"

definition block_event :: "(taskbag_msg \<Rightarrow> 'a central_scheme \<Rightarrow> 'a central_scheme option) \<Rightarrow>
    (nat \<Rightarrow> 'a central_scheme \<Rightarrow> 'a central_scheme option) \<Rightarrow> 'i event \<Rightarrow> 'a central_scheme \<Rightarrow>
    (bool \<times> 'a central_scheme) option" where
  "block_event newApp finished ev c =
    (case ev_msg ev of
       MTaskBag m \<Rightarrow>
         (if \<not> tb_forEN m then do {
            c1 \<leftarrow> newApp m (c\<lparr>ce_in := ce_in c + ucast (ev_size ev), ce_apps := ce_apps c + 1\<rparr>);
            Some (True, c1)
          } else Some (False, c\<lparr>ce_out := ce_out c + ucast (ev_size ev)\<rparr>))
     | MMonitor m \<Rightarrow>
         (if ev_inRecvQueue ev then Some (False, c)
          else if mon_states m = [] then None
          else if hd (mon_states m) = t_finished then do {
            c1 \<leftarrow> finished (ev_from ev) (c\<lparr>ce_in := ce_in c + ucast (ev_size ev)\<rparr>);
            Some (False, c1)
          } else Some (False, c))
     | _ \<Rightarrow> Some (False, c))"

section \<open>The scheduler of a node\<close>

text \<open>
  The execution service of the node obeys: it keeps the last sequence it received and puts its
  queue in that order. The sequence replaces the old one only when it is newer.
\<close>

record ('x, 'i) slave_sched = "('x, 'i) sched" +
  sl_seq :: "32 word"
  sl_sequence :: "task_ref list"

definition sl_get_task :: "'x task list \<Rightarrow> task_ref \<Rightarrow> 'x task option" where
  "sl_get_task ts r = find (\<lambda>t. tk_owner t = tr_requester r \<and> tk_request t = tr_requestId r
      \<and> tk_client t = tr_taskId r) ts"

definition sl_reschedule :: "('x, 'i) slave_sched \<Rightarrow> ('x, 'i) slave_sched" where
  "sl_reschedule s = s\<lparr>sc_tasks := List.map_filter (sl_get_task (sc_tasks s)) (sl_sequence s)\<rparr>"

definition sl_acceptable :: "resched_msg \<Rightarrow> ('x, 'i) slave_sched \<Rightarrow> 32 word \<times> ('x, 'i) slave_sched" where
  "sl_acceptable m s =
    (tb_lastTask m - tb_firstTask m + 1,
     if tb_seq m > sl_seq s then s\<lparr>sl_seq := tb_seq m, sl_sequence := rm_sequence m\<rparr> else s)"

end
