(* ===== verification/Central_Policies.thy ===== *)
theory Central_Policies
  imports Central_Base Fsp_Tasks
begin

text \<open>
  The classes \<open>BlindScheduler\<close>, \<open>CentralizedIBP\<close>, \<open>CentralizedMMP\<close> and \<open>CentralizedDP\<close> of
  \<open>src/oldsim/CentralizedScheduler.cpp\<close>. Each says which nodes get the tasks of a new
  application. \<open>H\<close> is the heap of the C++ library. An average power is not zero. The file
  that \<open>CentralizedMMP\<close> writes its longest queue to is left out.
\<close>

section \<open>Blind\<close>

text \<open>\<open>bl_rand\<close> is what the random variable will yield. A loop up to the greatest number never ends.\<close>

record blind_central = central +
  bl_rand :: "nat list"

fun blind_loop :: "cnode list \<Rightarrow> taskbag_msg \<Rightarrow> nat list \<Rightarrow> blind_central \<Rightarrow> blind_central option" where
  "blind_loop nds m [] c = Some c"
| "blind_loop nds m (i # is) c =
    (case bl_rand c of
       [] \<Rightarrow> None
     | dst # rs \<Rightarrow>
         blind_loop nds m is
           (c\<lparr>bl_rand := rs, ce_sent := ce_sent c @ [(nd_father (nds ! dst), dst,
                CBag (m\<lparr>tb_fromEN := False, tb_forEN := True, tb_firstTask := of_nat i,
                         tb_lastTask := of_nat i\<rparr>))]\<rparr>))"

definition blind_new_app :: "cnode list \<Rightarrow> taskbag_msg \<Rightarrow> blind_central \<Rightarrow> blind_central option" where
  "blind_new_app nds m c =
    (if tb_lastTask m = - 1 then None
     else blind_loop nds m [unat (tb_firstTask m)..<Suc (unat (tb_lastTask m))] c)"

definition blind_finished :: "nat \<Rightarrow> blind_central \<Rightarrow> blind_central" where
  "blind_finished n c = c"

section \<open>IBP: the free nodes with the tightest fit\<close>

record node_avail =
  na_n :: nat
  na_a :: "64 word"

definition na_less :: "node_avail \<Rightarrow> node_avail \<Rightarrow> bool" where
  "na_less l r \<longleftrightarrow> na_a l < na_a r"

definition na_of :: "task_desc \<Rightarrow> cnode list \<Rightarrow> nat \<Rightarrow> node_avail" where
  "na_of d nds n = \<lparr>na_n = n, na_a = (nd_mem (nds ! n) - ucast (td_maxMemory d)) * 10
      + (nd_disk (nds ! n) - ucast (td_maxDisk d)) * 1\<rparr>"

text \<open>A heap of the \<open>k\<close> best nodes; the worst of them is at its front. An empty heap has no front.\<close>

fun ibp_scan :: "node_avail heap_ops \<Rightarrow> task_desc \<Rightarrow> cnode list \<Rightarrow> cdesc list list \<Rightarrow> nat \<Rightarrow> nat list \<Rightarrow>
    node_avail list \<Rightarrow> node_avail list option" where
  "ibp_scan H d nds qs k [] us = Some us"
| "ibp_scan H d nds qs k (n # ns) us =
    (if node_check d (nds ! n) \<and> qs ! n = [] then
       (let av = na_of d nds n
        in if length us < k then ibp_scan H d nds qs k ns (hp_push H (us @ [av]))
           else if us = [] then None
           else if na_a av < na_a (hd us) then
             ibp_scan H d nds qs k ns (hp_push H (butlast (hp_pop H us) @ [av]))
           else ibp_scan H d nds qs k ns us)
     else ibp_scan H d nds qs k ns us)"

fun ibp_allocate :: "(resched_msg \<Rightarrow> 32 word) \<Rightarrow> cnode list \<Rightarrow> cdesc \<Rightarrow> 32 word \<Rightarrow> node_avail list \<Rightarrow>
    'a central_scheme \<Rightarrow> 'a central_scheme option" where
  "ibp_allocate sz nds task i [] c = Some c"
| "ibp_allocate sz nds task i (u # us) c = do {
     c1 \<leftarrow> sort_queue sz nds (na_n u)
       (push_task (na_n u) [task\<lparr>cd_tid := i, cd_runtime :=
          dur_of (of_nat (unat (td_length (tb_minReq (cd_msg task)))) / nd_power (nds ! na_n u))\<rparr>] c);
     ibp_allocate sz nds task (i + 1) us c1
   }"

definition cibp_new_app :: "node_avail heap_ops \<Rightarrow> (resched_msg \<Rightarrow> 32 word) \<Rightarrow> cnode list \<Rightarrow> time \<Rightarrow>
    taskbag_msg \<Rightarrow> 'a central_scheme \<Rightarrow> 'a central_scheme option" where
  "cibp_new_app H sz nds now m c = do {
     us \<leftarrow> ibp_scan H (tb_minReq m) nds (ce_queues c) (unat (num_tasks m)) [0..<length nds] [];
     ibp_allocate sz nds ((mk_cdesc now (ce_apps c) m)\<lparr>cd_deadline := now\<rparr>) 1
       (take (unat (num_tasks m)) us) c
   }"

section \<open>MMP: the queue that ends first\<close>

record mmp_central = central +
  mm_maxQueue :: time
  mm_ends :: "time list"

definition mk_mmp_central :: "time \<Rightarrow> nat \<Rightarrow> mmp_central" where
  "mk_mmp_central now n = central.extend (mk_central n) \<lparr>mm_maxQueue = now, mm_ends = replicate n now\<rparr>"

record queue_time =
  qt_node :: nat
  qt_time :: time

definition qt_less :: "queue_time \<Rightarrow> queue_time \<Rightarrow> bool" where
  "qt_less l r \<longleftrightarrow> qt_time l > qt_time r"

text \<open>The duration of a task on each node, zero where it does not fit.\<close>

definition task_time :: "task_desc \<Rightarrow> cnode list \<Rightarrow> nat \<Rightarrow> int" where
  "task_time d nds n = (if node_check d (nds ! n)
     then dur_of (of_nat (unat (td_length d)) / nd_power (nds ! n)) else 0)"

definition queue_cache :: "time \<Rightarrow> task_desc \<Rightarrow> cnode list \<Rightarrow> time list \<Rightarrow> queue_time list" where
  "queue_cache now d nds ends =
    map (\<lambda>n. \<lparr>qt_node = n, qt_time = (if ends ! n < now then now else ends ! n) + task_time d nds n\<rparr>)
      (filter (\<lambda>n. node_check d (nds ! n)) [0..<length nds])"

fun mmp_assign :: "queue_time heap_ops \<Rightarrow> (nat \<Rightarrow> int) \<Rightarrow> nat \<Rightarrow> queue_time list \<times> (nat \<Rightarrow> nat) \<Rightarrow>
    queue_time list \<times> (nat \<Rightarrow> nat)" where
  "mmp_assign H tt 0 (qs, tpn) = (qs, tpn)"
| "mmp_assign H tt (Suc k) (qs, tpn) =
    (let qs1 = hp_pop H qs; best = last qs1; n = qt_node best
     in mmp_assign H tt k
          (hp_push H (butlast qs1 @ [best\<lparr>qt_time := qt_time best + tt n\<rparr>]), tpn(n := tpn n + 1)))"

definition update_lengths :: "time \<Rightarrow> nat \<Rightarrow> int \<Rightarrow> mmp_central \<Rightarrow> mmp_central" where
  "update_lengths now n a c =
    (let e = (if mm_ends c ! n < now then now else mm_ends c ! n) + a
     in c\<lparr>mm_ends := (mm_ends c)[n := e], mm_maxQueue := (if mm_maxQueue c < e then e else mm_maxQueue c)\<rparr>)"

definition numbered :: "cdesc \<Rightarrow> 32 word \<Rightarrow> nat \<Rightarrow> cdesc list" where
  "numbered task i k = map (\<lambda>j. task\<lparr>cd_tid := i + of_nat j\<rparr>) [0..<k]"

fun mmp_allocate :: "(resched_msg \<Rightarrow> 32 word) \<Rightarrow> cnode list \<Rightarrow> time \<Rightarrow> (nat \<Rightarrow> int) \<Rightarrow> (nat \<Rightarrow> nat) \<Rightarrow>
    cdesc \<Rightarrow> 32 word \<Rightarrow> nat list \<Rightarrow> mmp_central \<Rightarrow> mmp_central option" where
  "mmp_allocate sz nds now tt tpn task i [] c = Some c"
| "mmp_allocate sz nds now tt tpn task i (n # ns) c = do {
     c1 \<leftarrow> sort_queue sz nds n (push_task n (numbered (task\<lparr>cd_runtime := tt n\<rparr>) i (tpn n)) c);
     mmp_allocate sz nds now tt tpn task (i + of_nat (tpn n)) ns
       (update_lengths now n (trunc_rat (of_int (tt n) * of_nat (tpn n))) c1)
   }"

definition cmmp_new_app :: "queue_time heap_ops \<Rightarrow> (resched_msg \<Rightarrow> 32 word) \<Rightarrow> cnode list \<Rightarrow> time \<Rightarrow>
    taskbag_msg \<Rightarrow> mmp_central \<Rightarrow> mmp_central option" where
  "cmmp_new_app H sz nds now m c =
    (let d = tb_minReq m; cache = queue_cache now d nds (mm_ends c); tt = task_time d nds
     in if cache = [] then Some c
        else
          (let (_, tpn) = mmp_assign H tt (unat (num_tasks m)) (hp_make H cache, \<lambda>_. 0)
           in mmp_allocate sz nds now tt tpn ((mk_cdesc now (ce_apps c) m)\<lparr>cd_deadline := now\<rparr>) 1
                (filter (\<lambda>n. 0 < tpn n) [0..<length nds]) c))"

end
