(* ===== verification/Central_Dp.thy ===== *)
theory Central_Dp
  imports Central_Policies
begin

text \<open>
  \<open>CentralizedDP\<close> of \<open>src/oldsim/CentralizedScheduler.cpp\<close>: the holes that the queues leave before
  the deadline of an application, and the cache of the best holes. The cache is an array with one
  place per task, of which the first ones hold a heap; here it is the list of these. Writing past
  the array is \<open>None\<close>, and so is dividing by the length of empty tasks. A conversion of a
  \<open>double\<close> to an unsigned number drops the fraction and wraps around; the program uses none that
  is negative.
\<close>

record hole =
  ho_node :: nat
  ho_num :: "32 word"
  ho_remaining :: "64 word"

definition ho_less :: "hole \<Rightarrow> hole \<Rightarrow> bool" where
  "ho_less l r \<longleftrightarrow> ho_remaining l < ho_remaining r \<or> (ho_remaining l = ho_remaining r \<and> ho_num l < ho_num r)"

definition to_ulong :: "rat \<Rightarrow> 64 word" where
  "to_ulong x = of_int (trunc_rat x)"

text \<open>When the node could start a new task that is due at \<open>d\<close>.\<close>

definition hole_start :: "time \<Rightarrow> time \<Rightarrow> cnode \<Rightarrow> cdesc list \<Rightarrow> time" where
  "hole_start now d nd q =
    (case q of
       [] \<Rightarrow> now + dur_of 1
     | t # ts \<Rightarrow> fold (\<lambda>u e. e + cd_runtime u) (takeWhile (\<lambda>u. cd_deadline u \<le> d) ts)
         (now + dur_of 1 + (case nd_first nd of None \<Rightarrow> cd_runtime t | Some e \<Rightarrow> e)))"

text \<open>When it must have finished, for the tasks due later than \<open>d\<close> to meet their deadlines.\<close>

fun hole_end :: "time \<Rightarrow> time \<Rightarrow> cdesc list \<Rightarrow> time" where
  "hole_end d e [] = e"
| "hole_end d e (t # ts) =
    (if d < cd_deadline t
     then hole_end d ((if cd_deadline t < e then cd_deadline t else e) - cd_runtime t) ts else e)"

definition hole_avail :: "time \<Rightarrow> time \<Rightarrow> cnode \<Rightarrow> cdesc list \<Rightarrow> 64 word \<times> 64 word" where
  "hole_avail now d nd q =
    (let start = hole_start now d nd q
     in if q = [] \<or> cd_deadline (last q) \<le> d then
          (let av = (if start < d then to_ulong (secs (d - start) * nd_power nd) else 0) in (av, av))
        else
          (let e = hole_end d (cd_deadline (last q)) (rev q);
               tot = to_ulong (secs (e - start) * nd_power nd);
               e' = (if d < e then d else e)
           in (if start < e' then to_ulong (secs (e' - start) * nd_power nd) else 0, tot)))"

definition hole_of :: "nat \<Rightarrow> 64 word \<Rightarrow> 64 word \<times> 64 word \<Rightarrow> hole" where
  "hole_of n a av =
    (let k = ucast (fst av div a) :: 32 word
     in \<lparr>ho_node = n, ho_num = k, ho_remaining = snd av - a * ucast k\<rparr>)"

text \<open>
  Dropping the worst holes while the rest and the new one \<open>h\<close> hold every task. The number of holes
  is the first argument; with none left, the front read by the loop is one that was dropped.
\<close>

fun dp_evict :: "hole heap_ops \<Rightarrow> 32 word \<Rightarrow> hole \<Rightarrow> nat \<Rightarrow> 32 word \<times> hole list \<Rightarrow> (32 word \<times> hole list) option" where
  "dp_evict H num h 0 (cached, hs) = (if 0 < cached then None else Some (cached, hs))"
| "dp_evict H num h (Suc k) (cached, hs) =
    (if 0 < cached \<and> num \<le> cached - ho_num (hd hs) + ho_num h \<and> ho_less h (hd hs)
     then dp_evict H num h k (cached - ho_num (hd hs), butlast (hp_pop H hs))
     else Some (cached, hs))"

definition dp_store :: "hole heap_ops \<Rightarrow> 32 word \<Rightarrow> hole \<Rightarrow> 32 word \<times> hole list \<Rightarrow> (32 word \<times> hole list) option" where
  "dp_store H num h st =
    (if unat num \<le> length (snd st) then None
     else Some (fst st + ho_num h, hp_push H (snd st @ [h])))"

definition dp_add_hole :: "hole heap_ops \<Rightarrow> 32 word \<Rightarrow> hole \<Rightarrow> 32 word \<times> hole list \<Rightarrow> (32 word \<times> hole list) option" where
  "dp_add_hole H num h st =
    (if fst st = 0 \<or> fst st < num then dp_store H num h st
     else if snd st = [] then None
     else if ho_less h (hd (snd st)) then
       Option.bind (dp_evict H num h (length (snd st)) st) (dp_store H num h)
     else Some st)"

fun dp_scan :: "hole heap_ops \<Rightarrow> time \<Rightarrow> taskbag_msg \<Rightarrow> cnode list \<Rightarrow> cdesc list list \<Rightarrow> nat list \<Rightarrow>
    32 word \<times> hole list \<Rightarrow> (32 word \<times> hole list) option" where
  "dp_scan H now m nds qs [] st = Some st"
| "dp_scan H now m nds qs (n # ns) st =
    (let d = tb_minReq m; a = td_length d; av = hole_avail now (td_deadline d) (nds ! n) (qs ! n)
     in if node_check d (nds ! n) \<and> a < fst av then
          (if a = 0 then None
           else Option.bind (dp_add_hole H (num_tasks m) (hole_of n a av) st) (dp_scan H now m nds qs ns))
        else dp_scan H now m nds qs ns st)"

text \<open>
  The holes give out their tasks from the worst to the best; the worst leave out the tasks that
  the cache holds in excess.
\<close>

fun dp_allocate :: "hole heap_ops \<Rightarrow> (resched_msg \<Rightarrow> 32 word) \<Rightarrow> cnode list \<Rightarrow> cdesc \<Rightarrow> nat \<Rightarrow>
    32 word \<Rightarrow> 32 word \<Rightarrow> hole list \<Rightarrow> 'a central_scheme \<Rightarrow> 'a central_scheme option" where
  "dp_allocate H sz nds task 0 i ignore hs c = Some c"
| "dp_allocate H sz nds task (Suc k) i ignore hs c =
    (let hs1 = hp_pop H hs; best = last hs1; n = ho_node best;
         task1 = task\<lparr>cd_runtime := dur_of (of_nat (unat (td_length (tb_minReq (cd_msg task)))) / nd_power (nds ! n))\<rparr>
     in if ho_num best \<le> ignore then dp_allocate H sz nds task k i (ignore - ho_num best) (butlast hs1) c
        else do {
          c1 \<leftarrow> sort_queue sz nds n (push_task n (numbered task1 i (unat (ho_num best - ignore))) c);
          dp_allocate H sz nds task k (i + (ho_num best - ignore)) 0 (butlast hs1) c1
        })"

definition cdp_new_app :: "hole heap_ops \<Rightarrow> (resched_msg \<Rightarrow> 32 word) \<Rightarrow> cnode list \<Rightarrow> time \<Rightarrow>
    taskbag_msg \<Rightarrow> 'a central_scheme \<Rightarrow> 'a central_scheme option" where
  "cdp_new_app H sz nds now m c = do {
     (cached, hs) \<leftarrow> dp_scan H now m nds (ce_queues c) [0..<length nds] (0, []);
     dp_allocate H sz nds ((mk_cdesc now (ce_apps c) m)\<lparr>cd_deadline := td_deadline (tb_minReq m)\<rparr>)
       (length hs) 1 (if cached > num_tasks m then cached - num_tasks m else 0) hs c
   }"

end
