(* ===== verification/Central_Fsp.thy ===== *)
theory Central_Fsp
  imports Central_Policies
begin

text \<open>
  \<open>CentralizedFSP\<close> of \<open>src/oldsim/CentralizedScheduler.cpp\<close>: the scheduler keeps the list of
  proxies of every node (\<open>src/lib/scheduling/policies/FSPTaskList.cpp\<close>) and gives the tasks to the
  nodes whose slowness grows least. \<open>pre\<close> is the static flag \<open>preemptive\<close> of the lists. The
  iterator behind the front of a queue of one task, the front of an empty list or heap, and an
  assertion that does not hold are \<open>None\<close>.
\<close>

record fsp_central = central +
  cf_proxys :: "fsp_list list"
  cf_first :: "time list"

definition mk_fsp_central :: "nat \<Rightarrow> fsp_central" where
  "mk_fsp_central n = central.extend (mk_central n) \<lparr>cf_proxys = replicate n mk_fsp_list, cf_first = replicate n 0\<rparr>"

definition cfsp_finished :: "time \<Rightarrow> nat \<Rightarrow> fsp_central \<Rightarrow> fsp_central option" where
  "cfsp_finished now n c =
    (case fl_tasks (cf_proxys c ! n) of
       [] \<Rightarrow> None
     | p # _ \<Rightarrow>
        (let fl = fl_removeTask (tp_id p) (cf_proxys c ! n);
             c1 = c\<lparr>cf_proxys := (cf_proxys c)[n := fl]\<rparr>
         in if fl_tasks fl = [] then Some (task_finished n c1)
            else if length (ce_queues c ! n) < 2 then None
            else Some (task_finished n
              (c1\<lparr>cf_first := (cf_first c)[n := now + cd_runtime (ce_queues c ! n ! 1)]\<rparr>))))"

section \<open>How many tasks each node gets\<close>

text \<open>\<open>- 1\<close> marks a node that cannot run the tasks.\<close>

fun init_tpn :: "time \<Rightarrow> task_desc \<Rightarrow> cnode list \<Rightarrow> nat list \<Rightarrow> int list \<Rightarrow> fsp_central \<Rightarrow>
    (int list \<times> fsp_central) option" where
  "init_tpn now d nds [] tpn c = Some (tpn, c)"
| "init_tpn now d nds (n # ns) tpn c =
    (if length (fl_tasks (cf_proxys c ! n)) \<noteq> length (ce_queues c ! n) then None
     else if node_check d (nds ! n) then
       init_tpn now d nds ns (tpn[n := 0])
         (case fl_tasks (cf_proxys c ! n) of
            [] \<Rightarrow> c
          | p # ps \<Rightarrow> c\<lparr>cf_proxys := (cf_proxys c)[n := (cf_proxys c ! n)\<lparr>fl_tasks :=
                p\<lparr>tp_t := secs (cf_first c ! n - now)\<rparr> # ps\<rparr>]\<rparr>)
     else init_tpn now d nds ns tpn c)"

text \<open>The slowness a node would have with \<open>k\<close> tasks of the application.\<close>

definition slowness_with :: "bool \<Rightarrow> time \<Rightarrow> rat \<Rightarrow> rat \<Rightarrow> nat \<Rightarrow> fsp_list \<Rightarrow> rat option" where
  "slowness_with pre now a pw k fl = do {
     fl1 \<leftarrow> fl_addTasks pre now (proxy_of_app a pw now) k fl;
     Some (fl_getSlowness now (fl_tasks (fl_sort pre now fl1)))
   }"

definition pair_less :: "rat \<times> nat \<Rightarrow> rat \<times> nat \<Rightarrow> bool" where
  "pair_less l r \<longleftrightarrow> fst l < fst r \<or> (fst l = fst r \<and> snd l < snd r)"

text \<open>The counts per node, the number of tasks placed, the heap of what each task costs.\<close>

type_synonym tpn_state = "int list \<times> nat \<times> (rat \<times> nat) list"

definition tpn_put :: "(rat \<times> nat) heap_ops \<Rightarrow> nat \<Rightarrow> rat \<Rightarrow> nat \<Rightarrow> tpn_state \<Rightarrow> tpn_state" where
  "tpn_put H num sl n st =
    (case st of (tpn, tot, hs) \<Rightarrow>
      (let hs1 = hp_push H (hs @ [(sl, n)]); tpn1 = tpn[n := tpn ! n + 1]; tot1 = tot + 1
       in if num < tot1
          then (tpn1[snd (hd hs1) := tpn1 ! snd (hd hs1) - 1], tot1 - 1, butlast (hp_pop H hs1))
          else (tpn1, tot1, hs1)))"

text \<open>One pass over the nodes that hold \<open>k - 1\<close> tasks; \<open>cost n k\<close> is the slowness of node \<open>n\<close> with \<open>k\<close>.\<close>

fun tpn_pass :: "(rat \<times> nat) heap_ops \<Rightarrow> nat \<Rightarrow> (nat \<Rightarrow> nat \<Rightarrow> rat option) \<Rightarrow> nat \<Rightarrow> nat list \<Rightarrow>
    bool \<times> tpn_state \<Rightarrow> (bool \<times> tpn_state) option" where
  "tpn_pass H num cost k [] r = Some r"
| "tpn_pass H num cost k (n # ns) (again, tpn, tot, hs) =
    (if tpn ! n = int k - 1 then do {
       sl \<leftarrow> cost n k;
       (if tot < num then tpn_pass H num cost k ns (True, tpn_put H num sl n (tpn, tot, hs))
        else if hs = [] then None
        else if sl < fst (hd hs) then tpn_pass H num cost k ns (True, tpn_put H num sl n (tpn, tot, hs))
        else tpn_pass H num cost k ns (again, tpn, tot, hs))
     } else tpn_pass H num cost k ns (again, tpn, tot, hs))"

text \<open>Passes with one more task per node, until a pass adds nothing. The fuel bounds the passes.\<close>

fun tpn_loop :: "nat \<Rightarrow> (rat \<times> nat) heap_ops \<Rightarrow> nat \<Rightarrow> (nat \<Rightarrow> nat \<Rightarrow> rat option) \<Rightarrow> nat \<Rightarrow> nat list \<Rightarrow>
    tpn_state \<Rightarrow> tpn_state option" where
  "tpn_loop 0 H num cost k ns st = None"
| "tpn_loop (Suc fuel) H num cost k ns st = do {
     (again, st1) \<leftarrow> tpn_pass H num cost k ns (False, st);
     (if again then tpn_loop fuel H num cost (k + 1) ns st1 else Some st1)
   }"

definition calculate_tpn :: "(rat \<times> nat) heap_ops \<Rightarrow> bool \<Rightarrow> time \<Rightarrow> task_desc \<Rightarrow> 32 word \<Rightarrow> cnode list \<Rightarrow>
    fsp_central \<Rightarrow> (int list \<times> fsp_central) option" where
  "calculate_tpn H pre now d num nds c = do {
     (tpn, c1) \<leftarrow> init_tpn now d nds [0..<length (ce_queues c)] (replicate (length (ce_queues c)) (- 1)) c;
     (tpn1, _) \<leftarrow> tpn_loop (unat num + 2) H (unat num)
       (\<lambda>n k. slowness_with pre now (of_nat (unat (td_length d))) (nd_power (nds ! n)) k (cf_proxys c1 ! n))
       1 [0..<length (ce_queues c)] (tpn, 0, []);
     Some (tpn1, c1)
   }"

section \<open>A new application\<close>

text \<open>The tasks that a node already has are brought up to date with the new slowness.\<close>

definition update_deadlines :: "int \<Rightarrow> rat \<Rightarrow> cdesc list \<Rightarrow> cdesc list" where
  "update_deadlines first sl q =
    (case q of
       [] \<Rightarrow> []
     | t # ts \<Rightarrow> map (\<lambda>u. u\<lparr>cd_deadline := cd_release u
          + dur_of (sl * of_nat (unat (td_length (tb_minReq (cd_msg u)))))\<rparr>)
         (t\<lparr>cd_runtime := first\<rparr> # ts))"

fun cfsp_assign :: "(resched_msg \<Rightarrow> 32 word) \<Rightarrow> bool \<Rightarrow> cnode list \<Rightarrow> time \<Rightarrow> taskbag_msg \<Rightarrow> int list \<Rightarrow>
    32 word \<Rightarrow> nat list \<Rightarrow> fsp_central \<Rightarrow> fsp_central option" where
  "cfsp_assign sz pre nds now m tpn i [] c = Some c"
| "cfsp_assign sz pre nds now m tpn i (n # ns) c =
    (if 0 < tpn ! n then
       (let k = nat (tpn ! n); a = of_nat (unat (td_length (tb_minReq m))) :: rat;
            pw = nd_power (nds ! n)
        in do {
          fl \<leftarrow> fl_addTasks pre now (proxy_of_app a pw now) k (cf_proxys c ! n);
          let fl1 = fl_sort pre now fl;
          let sl = fl_getSlowness now (fl_tasks fl1);
          let task = (mk_cdesc now (ce_apps c) m)\<lparr>cd_deadline := now + dur_of (sl * a), cd_runtime := dur_of (a / pw)\<rparr>;
          let q = update_deadlines (cf_first c ! n - now) sl (ce_queues c ! n);
          c1 \<leftarrow> sort_queue sz nds n
            (c\<lparr>cf_proxys := (cf_proxys c)[n := fl1], ce_queues := (ce_queues c)[n := q @ numbered task i k]\<rparr>);
          cfsp_assign sz pre nds now m tpn (i + of_nat k) ns
            (c1\<lparr>cf_first := (cf_first c1)[n := now + cd_runtime (hd (ce_queues c1 ! n))]\<rparr>)
        })
     else cfsp_assign sz pre nds now m tpn i ns c)"

definition cfsp_new_app :: "(rat \<times> nat) heap_ops \<Rightarrow> (resched_msg \<Rightarrow> 32 word) \<Rightarrow> bool \<Rightarrow> cnode list \<Rightarrow> time \<Rightarrow>
    taskbag_msg \<Rightarrow> fsp_central \<Rightarrow> fsp_central option" where
  "cfsp_new_app H sz pre nds now m c = do {
     (tpn, c1) \<leftarrow> calculate_tpn H pre now (tb_minReq m) (num_tasks m) nds c;
     cfsp_assign sz pre nds now m tpn 1 [0..<length (ce_queues c)] c1
   }"

end
