(* ===== verification/Central_Best.thy ===== *)
theory Central_Best
  imports Central_Props
begin

text \<open>
  The choice of nodes of the centralised IBP scheduler: the free nodes with the tightest fit.
\<close>

definition free_nodes :: "task_desc \<Rightarrow> cnode list \<Rightarrow> cdesc list list \<Rightarrow> nat list \<Rightarrow> nat set" where
  "free_nodes d nds qs ns = {n \<in> set ns. node_check d (nds ! n) \<and> qs ! n = []}"

text \<open>\<open>us\<close> holds the \<open>k\<close> best of the nodes \<open>D\<close>, or all of them.\<close>

definition best_of :: "task_desc \<Rightarrow> cnode list \<Rightarrow> nat \<Rightarrow> nat set \<Rightarrow> node_avail list \<Rightarrow> bool" where
  "best_of d nds k D us \<longleftrightarrow> distinct us \<and> set us \<subseteq> na_of d nds ` D \<and> length us = min k (card D)
    \<and> (\<forall>u \<in> set us. \<forall>j \<in> D. na_of d nds j \<notin> set us \<longrightarrow> na_a u \<le> na_a (na_of d nds j))"

lemma na_of_inj: "na_of d nds i = na_of d nds j \<longleftrightarrow> i = j"
  by (auto simp: na_of_def)

lemma na_image [simp]: "na_of d nds i \<in> na_of d nds ` D \<longleftrightarrow> i \<in> D"
  by (auto simp: na_of_inj)

lemma card_na_image [simp]: "card (na_of d nds ` D) = card D"
  by (rule card_image) (auto simp: inj_on_def na_of_inj)

lemma distinct_mset: "mset xs = mset ys \<Longrightarrow> distinct xs = distinct ys"
  by (rule mset_eq_imp_distinct_iff)

lemma best_of_cong: "mset us = mset vs \<Longrightarrow> best_of d nds k D us = best_of d nds k D vs"
  unfolding best_of_def
  by (metis mset_eq_imp_distinct_iff mset_eq_length mset_eq_setD)

lemma best_push:
  assumes "best_of d nds k D us" and "length us < k" and "n \<notin> D" and "finite D"
  shows "best_of d nds k (insert n D) (na_of d nds n # us)"
proof -
  have "length us = card D" using assms(1,2) by (auto simp: best_of_def)
  moreover have "card (set us) = length us" using assms(1) by (simp add: best_of_def distinct_card)
  ultimately have "set us = na_of d nds ` D"
    using assms(1,4) by (intro card_subset_eq) (simp_all add: best_of_def)
  with assms \<open>length us = card D\<close> show ?thesis by (auto simp: best_of_def)
qed

lemma best_skip:
  assumes "best_of d nds k D us" and "k \<le> length us" and "n \<notin> D" and "finite D"
    and "\<forall>u \<in> set us. na_a u \<le> na_a (na_of d nds n)"
  shows "best_of d nds k (insert n D) us"
  using assms by (auto simp: best_of_def)

lemma best_replace:
  assumes "best_of d nds k D (w # us)" and "k \<le> Suc (length us)" and "n \<notin> D" and "finite D"
    and "\<forall>u \<in> set us. na_a u \<le> na_a w" and "na_a (na_of d nds n) < na_a w"
  shows "best_of d nds k (insert n D) (na_of d nds n # us)"
  using assms unfolding best_of_def
  by (auto simp: na_of_inj) (force intro: order_trans less_imp_le)+

lemma ibp_scan_best:
  assumes "std_heap na_less H heap" and "0 < k" and "heap us" and "best_of d nds k D us" and "finite D"
    and "distinct ns" and "set ns \<inter> D = {}"
  shows "\<exists>us'. ibp_scan H d nds qs k ns us = Some us' \<and> best_of d nds k (D \<union> free_nodes d nds qs ns) us'"
  using assms(3-)
proof (induction ns arbitrary: us D)
  case Nil
  then show ?case by (simp add: free_nodes_def)
next
  case (Cons n ns)
  let ?av = "na_of d nds n"
  show ?case
  proof (cases "node_check d (nds ! n) \<and> qs ! n = []")
    case False
    then have f: "free_nodes d nds qs (n # ns) = free_nodes d nds qs ns" by (auto simp: free_nodes_def)
    from Cons.IH [of us D] Cons.prems False show ?thesis unfolding f by auto
  next
    case True
    then have f: "D \<union> free_nodes d nds qs (n # ns) = insert n D \<union> free_nodes d nds qs ns"
      by (auto simp: free_nodes_def)
    have step: ?thesis
      if "ibp_scan H d nds qs k (n # ns) us = ibp_scan H d nds qs k ns vs" "heap vs"
        "best_of d nds k (insert n D) vs" for vs
      unfolding f that(1) by (rule Cons.IH) (use that Cons.prems in auto)
    have n: "n \<notin> D" "finite D" using Cons.prems by auto
    show ?thesis
    proof (cases "length us < k")
      case True
      have "mset (hp_push H (us @ [?av])) = mset (?av # us)"
        using std_heap.mset_push [OF assms(1) Cons.prems(1)] by simp
      then have "best_of d nds k (insert n D) (hp_push H (us @ [?av]))"
        using best_push [OF Cons.prems(2) True n] best_of_cong by blast
      then show ?thesis
        using True \<open>node_check d (nds ! n) \<and> qs ! n = []\<close> std_heap.heap_push [OF assms(1) Cons.prems(1)]
        by (intro step) (simp_all add: Let_def)
    next
      case False
      with assms(2) obtain w ws where us: "us = w # ws" by (cases us) auto
      have top: "\<forall>u \<in> set us. na_a u \<le> na_a w"
        using std_heap.heap_front [OF assms(1) Cons.prems(1)] us by (auto simp: na_less_def not_less)
      show ?thesis
      proof (cases "na_a ?av < na_a w")
        case True
        let ?vs = "hp_push H (butlast (hp_pop H us) @ [?av])"
        have "heap ?vs" "mset ?vs = mset (?av # ws)"
          using std_heap.replace_front [OF assms(1) Cons.prems(1), of ?av] us by simp_all
        moreover from this have "best_of d nds k (insert n D) ?vs"
          using best_replace [of d nds k D w ws n] Cons.prems(2) top True False n us best_of_cong by fastforce
        ultimately show ?thesis
          using True False \<open>node_check d (nds ! n) \<and> qs ! n = []\<close> us
          by (intro step) (simp_all add: Let_def)
      next
        case False
        have "\<forall>u \<in> set us. na_a u \<le> na_a ?av" using top False by fastforce
        with best_skip [OF Cons.prems(2) _ n] \<open>\<not> length us < k\<close>
        have "best_of d nds k (insert n D) us" by simp
        then show ?thesis
          using False \<open>\<not> length us < k\<close> \<open>node_check d (nds ! n) \<and> qs ! n = []\<close> us Cons.prems(1)
          by (intro step) (simp_all add: Let_def)
      qed
    qed
  qed
qed

text \<open>Every node of the heap gets one task; its queue was empty.\<close>

lemma sort_one:
  assumes "n < length (ce_queues c)" and "ce_queues c ! n = []"
  shows "\<exists>c'. sort_queue sz nds n (push_task n [t] c) = Some c' \<and> ce_queues c' = (ce_queues c)[n := [t]]"
  using assms by (simp add: sort_queue_def push_task_def Let_def)

lemma ibp_allocate_result:
  assumes "distinct us" and "inj_on na_n (set us)"
    and "\<forall>u \<in> set us. na_n u < length (ce_queues c) \<and> ce_queues c ! na_n u = []"
  shows "\<exists>c'. ibp_allocate sz nds task i us c = Some c' \<and> length (ce_queues c') = length (ce_queues c)
    \<and> (\<forall>u \<in> set us. \<exists>t. ce_queues c' ! na_n u = [t] \<and> cd_msg t = cd_msg task \<and> cd_app t = cd_app task)
    \<and> (\<forall>n. n \<notin> na_n ` set us \<longrightarrow> ce_queues c' ! n = ce_queues c ! n)"
  using assms
proof (induction us arbitrary: i c)
  case Nil
  then show ?case by simp
next
  case (Cons u us)
  let ?t = "task\<lparr>cd_tid := i, cd_runtime :=
          dur_of (of_nat (unat (td_length (tb_minReq (cd_msg task)))) / nd_power (nds ! na_n u))\<rparr>"
  obtain c1 where c1: "sort_queue sz nds (na_n u) (push_task (na_n u) [?t] c) = Some c1"
    "ce_queues c1 = (ce_queues c)[na_n u := [?t]]"
    using sort_one [of "na_n u" c sz nds ?t] Cons.prems(3) by auto
  have other: "na_n v \<noteq> na_n u" if "v \<in> set us" for v
    using Cons.prems(1,2) that by (auto simp: inj_on_def)
  have pre: "\<forall>v \<in> set us. na_n v < length (ce_queues c1) \<and> ce_queues c1 ! na_n v = []"
    using Cons.prems(3) other c1(2) by (metis length_list_update list.set_intros(2) nth_list_update_neq)
  have "distinct us" "inj_on na_n (set us)" using Cons.prems(1,2) by (simp_all add: inj_on_def)
  from Cons.IH [OF this pre, of "i + 1"]
  obtain c' where c': "ibp_allocate sz nds task (i + 1) us c1 = Some c'" "length (ce_queues c') = length (ce_queues c1)"
    "\<forall>u \<in> set us. \<exists>t. ce_queues c' ! na_n u = [t] \<and> cd_msg t = cd_msg task \<and> cd_app t = cd_app task"
    "\<forall>n. n \<notin> na_n ` set us \<longrightarrow> ce_queues c' ! n = ce_queues c1 ! n"
    by blast
  have "na_n u \<notin> na_n ` set us" using other by (metis imageE)
  with c'(4) c1(2) Cons.prems(3) have "ce_queues c' ! na_n u = [?t]" by simp
  with c1 c' show ?case by (simp add: nth_list_update_neq)
qed

text \<open>
  C32. The centralised IBP scheduler sends the tasks of an application to the free nodes that fit it
  best: as many nodes as there are tasks, or all of them when they are fewer, each with one task
  in its queue, and no node left out would leave less memory and disk unused.
\<close>

theorem cibp_best_nodes:
  assumes "std_heap na_less H heap" and "num_tasks m \<noteq> 0" and "length nds = length (ce_queues c)"
    and "F = free_nodes (tb_minReq m) nds (ce_queues c) [0..<length nds]"
  shows "\<exists>c' S. cibp_new_app H sz nds now m c = Some c' \<and> S \<subseteq> F \<and> card S = min (unat (num_tasks m)) (card F)
    \<and> (\<forall>n \<in> S. \<forall>k \<in> F - S. na_a (na_of (tb_minReq m) nds n) \<le> na_a (na_of (tb_minReq m) nds k))
    \<and> (\<forall>n \<in> S. \<exists>t. ce_queues c' ! n = [t] \<and> cd_msg t = m)
    \<and> (\<forall>n. n \<notin> S \<longrightarrow> ce_queues c' ! n = ce_queues c ! n)"
proof -
  let ?d = "tb_minReq m" and ?k = "unat (num_tasks m)"
  have "0 < ?k" using assms(2) by (simp add: unat_gt_0)
  then obtain us where us: "ibp_scan H ?d nds (ce_queues c) ?k [0..<length nds] [] = Some us" "best_of ?d nds ?k F us"
    using ibp_scan_best [OF assms(1) \<open>0 < ?k\<close> std_heap.heap_empty [OF assms(1)], of ?d nds "{}" "[0..<length nds]" "ce_queues c"]
    by (auto simp: best_of_def assms(4))
  let ?S = "na_n ` set us"
  have na: "na_of ?d nds (na_n u) = u \<and> na_n u \<in> F" if "u \<in> set us" for u
    using us(2) that by (auto simp: best_of_def na_of_def)
  have inj: "inj_on na_n (set us)" by (rule inj_on_inverseI [of _ "na_of ?d nds"]) (simp add: na)
  have mem: "na_of ?d nds k \<in> set us \<longleftrightarrow> k \<in> ?S" for k using na by (force simp: na_of_def)
  have "\<forall>u \<in> set us. na_n u < length (ce_queues c) \<and> ce_queues c ! na_n u = []"
    using na assms(3,4) by (fastforce simp: free_nodes_def)
  moreover have "distinct us" using us(2) by (simp add: best_of_def)
  ultimately obtain c' where c': "ibp_allocate sz nds ((mk_cdesc now (ce_apps c) m)\<lparr>cd_deadline := now\<rparr>) 1 us c = Some c'"
    "\<forall>u \<in> set us. \<exists>t. ce_queues c' ! na_n u = [t] \<and> cd_msg t = m"
    "\<forall>n. n \<notin> ?S \<longrightarrow> ce_queues c' ! n = ce_queues c ! n"
    using ibp_allocate_result [OF _ inj, of c sz nds "(mk_cdesc now (ce_apps c) m)\<lparr>cd_deadline := now\<rparr>" 1]
    by (fastforce simp: mk_cdesc_def)
  have "cibp_new_app H sz nds now m c = Some c'"
    using us c'(1) by (simp add: cibp_new_app_def best_of_def)
  moreover have "?S \<subseteq> F" using na by auto
  moreover have "card ?S = min ?k (card F)"
    using card_image [OF inj] us(2) by (simp add: best_of_def distinct_card)
  moreover have "\<forall>n \<in> ?S. \<forall>k \<in> F - ?S. na_a (na_of ?d nds n) \<le> na_a (na_of ?d nds k)"
    using us(2) mem na by (auto simp: best_of_def)
  moreover have "\<forall>n \<in> ?S. \<exists>t. ce_queues c' ! n = [t] \<and> cd_msg t = m" using c'(2) by blast
  ultimately show ?thesis using c'(3) by blast
qed

theorem cibp_best_nodes_witness:
  "\<exists>c' S. cibp_new_app (sorted_heap na_less) (\<lambda>_. 20) example_nodes 5 example_bag (mk_central 3) = Some c'
     \<and> card S = 3 \<and> (\<forall>n \<in> S. \<exists>t. ce_queues c' ! n = [t] \<and> cd_msg t = example_bag)"
proof -
  have f: "free_nodes (tb_minReq example_bag) example_nodes (ce_queues (mk_central 3)) [0..<length example_nodes] = {0, 1, 2}"
    by (auto simp: free_nodes_def node_check_def example_bag_def example_nodes_def mk_central_def mk_taskbag_def
        mk_task_desc_def less_Suc_eq numeral_3_eq_3)
  have n: "num_tasks example_bag = 3" "length example_nodes = length (ce_queues (mk_central 3))"
    by (simp_all add: num_tasks_def example_bag_def example_nodes_def mk_central_def)
  have "num_tasks example_bag \<noteq> 0" by (simp add: n(1))
  from cibp_best_nodes [OF na.std_heap_axioms this n(2) f [symmetric], of "\<lambda>_. 20" 5]
  obtain c' S where r: "cibp_new_app (sorted_heap na_less) (\<lambda>_. 20) example_nodes 5 example_bag (mk_central 3) = Some c'"
    "card S = min (unat (num_tasks example_bag)) (card {0, 1, 2 :: nat})"
    "\<forall>n \<in> S. \<exists>t. ce_queues c' ! n = [t] \<and> cd_msg t = example_bag"
    by (elim exE conjE)
  from r(2) n(1) have "card S = 3" by simp
  with r(1,3) show ?thesis by (intro exI conjI)
qed

end
