(* ===== verification/Central_Greedy.thy ===== *)
theory Central_Greedy
  imports Central_Best
begin

text \<open>
  The distribution of the centralised MMP scheduler is optimal: it gives the tasks one by one to
  the node that would finish the next one first, and no other distribution of as many tasks over
  the same nodes makes the longest of the queues that it uses shorter.
\<close>

section \<open>The loop\<close>

text \<open>\<open>base n\<close> is when the queue of \<open>n\<close> ends before the application arrives.\<close>

definition entry :: "(nat \<Rightarrow> int) \<Rightarrow> (nat \<Rightarrow> int) \<Rightarrow> (nat \<Rightarrow> nat) \<Rightarrow> nat \<Rightarrow> queue_time" where
  "entry base tt tpn n = \<lparr>qt_node = n, qt_time = base n + (int (tpn n) + 1) * tt n\<rparr>"

definition greedy_inv :: "(nat \<Rightarrow> int) \<Rightarrow> (nat \<Rightarrow> int) \<Rightarrow> nat list \<Rightarrow> queue_time list \<Rightarrow> (nat \<Rightarrow> nat) \<Rightarrow> bool" where
  "greedy_inv base tt ns qs tpn \<longleftrightarrow> mset qs = mset (map (entry base tt tpn) ns)
    \<and> (\<forall>n. n \<notin> set ns \<longrightarrow> tpn n = 0)
    \<and> (\<forall>n \<in> set ns. 0 < tpn n \<longrightarrow>
        (\<forall>k \<in> set ns. base n + int (tpn n) * tt n \<le> base k + (int (tpn k) + 1) * tt k))"

lemma mset_map_upd:
  assumes "distinct ns" and "n \<in> set ns"
  shows "mset (map (f(n := x)) ns) = add_mset x (mset (map f ns) - {#f n#})"
proof -
  have n: "mset ns = add_mset n (mset (remove1 n ns))" using assms(2) by simp
  have "map (f(n := x)) (remove1 n ns) = map f (remove1 n ns)" using assms(1) by simp
  then have "image_mset (f(n := x)) (mset (remove1 n ns)) = image_mset f (mset (remove1 n ns))"
    by (metis mset_map)
  then have "image_mset (f(n := x)) (mset ns) = add_mset x (image_mset f (mset (remove1 n ns)))"
    by (subst n) simp
  moreover have "image_mset f (mset ns) = add_mset (f n) (image_mset f (mset (remove1 n ns)))"
    by (subst n) simp
  ultimately show ?thesis unfolding mset_map by simp
qed

lemma entry_upd:
  "entry base tt (tpn(n := tpn n + 1)) =
    (entry base tt tpn)(n := (entry base tt tpn n)\<lparr>qt_time := qt_time (entry base tt tpn n) + tt n\<rparr>)"
  by (auto simp: entry_def fun_eq_iff algebra_simps)

lemma greedy_step:
  assumes "std_heap qt_less H heap" and "heap qs" and "greedy_inv base tt ns qs tpn"
    and "distinct ns" and "ns \<noteq> []" and "\<forall>n \<in> set ns. 0 \<le> tt n"
  shows "\<exists>n qs'. n \<in> set ns \<and> mmp_assign H tt (Suc k) (qs, tpn) = mmp_assign H tt k (qs', tpn(n := tpn n + 1))
    \<and> heap qs' \<and> greedy_inv base tt ns qs' (tpn(n := tpn n + 1))"
proof -
  have m: "mset qs = mset (map (entry base tt tpn) ns)" using assms(3) by (simp add: greedy_inv_def)
  then have ne: "qs \<noteq> []" using assms(5) by (metis list.map_disc_iff mset_zero_iff_right)
  then have "hd qs \<in> set (map (entry base tt tpn) ns)" using m by (metis hd_in_set mset_eq_setD)
  then obtain n where n: "n \<in> set ns" "hd qs = entry base tt tpn n" by auto
  have best: "last (hp_pop H qs) = entry base tt tpn n"
    using std_heap.last_pop [OF assms(1,2) ne] n(2) by simp
  let ?tpn = "tpn(n := tpn n + 1)"
  let ?x = "(entry base tt tpn n)\<lparr>qt_time := qt_time (entry base tt tpn n) + tt n\<rparr>"
  let ?qs = "hp_push H (butlast (hp_pop H qs) @ [?x])"
  have eq: "mmp_assign H tt (Suc k) (qs, tpn) = mmp_assign H tt k (?qs, ?tpn)"
    using best by (simp add: Let_def entry_def)
  have heap: "heap ?qs" and "mset ?qs = add_mset ?x (mset qs - {#hd qs#})"
    using std_heap.replace_front [OF assms(1,2) ne, of ?x] by auto
  then have ms: "mset ?qs = mset (map (entry base tt ?tpn) ns)"
    unfolding entry_upd by (simp only: mset_map_upd [OF assms(4) n(1)] m n(2))
  have first: "base n + (int (tpn n) + 1) * tt n \<le> base k + (int (tpn k) + 1) * tt k" if "k \<in> set ns" for k
  proof -
    have "entry base tt tpn k \<in> set qs" using m that by (metis image_eqI list.set_map mset_eq_setD)
    from std_heap.heap_front [OF assms(1,2) this] n(2) show ?thesis by (simp add: qt_less_def entry_def)
  qed
  have "greedy_inv base tt ns ?qs ?tpn"
    unfolding greedy_inv_def
  proof (intro conjI ms ballI allI impI)
    fix j assume "j \<notin> set ns" then show "?tpn j = 0" using assms(3) n(1) by (auto simp: greedy_inv_def)
  next
    fix j k assume jk: "j \<in> set ns" "0 < ?tpn j" "k \<in> set ns"
    have up: "base k + (int (tpn k) + 1) * tt k \<le> base k + (int (?tpn k) + 1) * tt k"
      using assms(6) jk(3) by (auto simp: algebra_simps)
    show "base j + int (?tpn j) * tt j \<le> base k + (int (?tpn k) + 1) * tt k"
    proof (cases "j = n")
      case True
      then have "base j + int (?tpn j) * tt j = base n + (int (tpn n) + 1) * tt n" by simp
      with first [OF jk(3)] up show ?thesis by linarith
    next
      case False
      with jk assms(3) have "base j + int (tpn j) * tt j \<le> base k + (int (tpn k) + 1) * tt k"
        by (auto simp: greedy_inv_def)
      with up False show ?thesis by simp
    qed
  qed
  with n(1) eq heap show ?thesis by blast
qed

lemma greedy_loop:
  assumes "std_heap qt_less H heap" and "heap qs" and "greedy_inv base tt ns qs tpn"
    and "distinct ns" and "ns \<noteq> []" and "\<forall>n \<in> set ns. 0 \<le> tt n"
    and "mmp_assign H tt k (qs, tpn) = (qs', tpn')"
  shows "greedy_inv base tt ns qs' tpn' \<and> sum tpn' (set ns) = sum tpn (set ns) + k"
  using assms(2,3,7)
proof (induction k arbitrary: qs tpn)
  case 0
  then show ?case by simp
next
  case (Suc k)
  from greedy_step [OF assms(1) Suc.prems(1,2) assms(4-6), of k]
  obtain n qs1 where s: "n \<in> set ns" "mmp_assign H tt (Suc k) (qs, tpn) = mmp_assign H tt k (qs1, tpn(n := tpn n + 1))"
    "heap qs1" "greedy_inv base tt ns qs1 (tpn(n := tpn n + 1))"
    by blast
  have "sum (tpn(n := tpn n + 1)) (set ns) = sum tpn (set ns) + 1"
    using s(1) by (simp add: sum.remove [of "set ns" n])
  moreover have "mmp_assign H tt k (qs1, tpn(n := tpn n + 1)) = (qs', tpn')" using Suc.prems(3) s(2) by simp
  ultimately show ?case using Suc.IH [OF s(3,4)] by (simp del: fun_upd_apply)
qed

text \<open>Any distribution of as many tasks has a queue that ends as late.\<close>

lemma greedy_optimal:
  assumes "greedy_inv base tt ns qs tpn" and "\<forall>n \<in> set ns. 0 \<le> tt n"
    and "sum g (set ns) = sum tpn (set ns)" and "n \<in> set ns" and "0 < tpn n"
  shows "\<exists>k \<in> set ns. 0 < g k \<and> base n + int (tpn n) * tt n \<le> base k + int (g k) * tt k"
proof (cases "\<exists>k \<in> set ns. tpn k < g k")
  case True
  then obtain k where k: "k \<in> set ns" "tpn k < g k" by blast
  have "(int (tpn k) + 1) * tt k \<le> int (g k) * tt k"
    using k assms(2) by (intro mult_right_mono) auto
  with assms(1,4,5) k(1) have "base n + int (tpn n) * tt n \<le> base k + int (g k) * tt k"
    by (fastforce simp: greedy_inv_def)
  moreover from k have "0 < g k" by simp
  ultimately show ?thesis using k(1) by blast
next
  case False
  then have le: "\<forall>k \<in> set ns. g k \<le> tpn k" by (simp add: not_less)
  have "g n = tpn n"
  proof (rule ccontr)
    assume "g n \<noteq> tpn n"
    with le assms(4) have "g n < tpn n" by (simp add: le_neq_implies_less)
    with le assms(4) have "sum g (set ns) < sum tpn (set ns)" by (intro sum_strict_mono_ex1) auto
    with assms(3) show False by simp
  qed
  with assms(4,5) show ?thesis by (intro bexI [of _ n]) auto
qed

section \<open>The queues afterwards\<close>

lemma trunc_int [simp]: "trunc_rat (of_int i) = i"
  by (simp add: trunc_rat_def)

lemma trunc_mult: "trunc_rat (of_int a * of_nat b) = a * int b"
  by (metis of_int_mult of_int_of_nat_eq trunc_int)

definition queue_base :: "time \<Rightarrow> time list \<Rightarrow> nat \<Rightarrow> int" where
  "queue_base now ends n = max now (ends ! n)"

lemma sort_queue_ext:
  assumes "n < length (ce_queues c)" and "ce_queues c ! n \<noteq> []"
  shows "\<exists>c'. sort_queue sz nds n c = Some c' \<and> length (ce_queues c') = length (ce_queues c)
    \<and> mset (ce_queues c' ! n) = mset (ce_queues c ! n)
    \<and> (\<forall>k. k \<noteq> n \<longrightarrow> ce_queues c' ! k = ce_queues c ! k) \<and> central.more c' = central.more c"
  using assms by (simp add: sort_queue_def Let_def mset_std_sort)

lemma more_ends: "central.more c = central.more c' \<Longrightarrow> mm_ends c = mm_ends c'"
  by (cases c; cases c') simp

lemma mmp_allocate_result:
  assumes "distinct ns" and "\<forall>n \<in> set ns. 0 < tpn n \<and> n < length (ce_queues c) \<and> n < length (mm_ends c)"
  shows "\<exists>c'. mmp_allocate sz nds now tt tpn task i ns c = Some c'
    \<and> length (ce_queues c') = length (ce_queues c) \<and> length (mm_ends c') = length (mm_ends c)
    \<and> (\<forall>n \<in> set ns. length (ce_queues c' ! n) = length (ce_queues c ! n) + tpn n
        \<and> mm_ends c' ! n = queue_base now (mm_ends c) n + tt n * int (tpn n))
    \<and> (\<forall>n. n \<notin> set ns \<longrightarrow> ce_queues c' ! n = ce_queues c ! n \<and> mm_ends c' ! n = mm_ends c ! n)"
  using assms
proof (induction ns arbitrary: i c)
  case Nil
  then show ?case by simp
next
  case (Cons n ns)
  let ?c0 = "push_task n (numbered (task\<lparr>cd_runtime := tt n\<rparr>) i (tpn n)) c"
  have n: "0 < tpn n" "n < length (ce_queues c)" "n < length (mm_ends c)" "n \<notin> set ns" "distinct ns"
    using Cons.prems by auto
  have "ce_queues ?c0 ! n \<noteq> []" "n < length (ce_queues ?c0)" using n by (simp_all add: push_task_def numbered_ne)
  from sort_queue_ext [OF this(2,1), of sz nds] obtain c1 where
    c1: "sort_queue sz nds n ?c0 = Some c1" "length (ce_queues c1) = length (ce_queues ?c0)"
    "mset (ce_queues c1 ! n) = mset (ce_queues ?c0 ! n)" "\<forall>k. k \<noteq> n \<longrightarrow> ce_queues c1 ! k = ce_queues ?c0 ! k"
    "central.more c1 = central.more ?c0"
    by blast
  have e1: "mm_ends c1 = mm_ends c" using more_ends [OF c1(5)] by (simp add: push_task_def)
  have l1: "length (ce_queues c1 ! n) = length (ce_queues c ! n) + tpn n"
    using mset_eq_length [OF c1(3)] n by (simp add: push_task_def)
  let ?c2 = "update_lengths now n (trunc_rat (of_int (tt n) * of_nat (tpn n))) c1"
  have c2: "ce_queues ?c2 = ce_queues c1"
    "mm_ends ?c2 = (mm_ends c)[n := queue_base now (mm_ends c) n + tt n * int (tpn n)]"
    by (auto simp: update_lengths_def Let_def e1 trunc_mult queue_base_def max_def)
  have q2: "\<forall>k. k \<noteq> n \<longrightarrow> ce_queues c1 ! k = ce_queues c ! k" "length (ce_queues c1) = length (ce_queues c)"
    using c1(2,4) by (simp_all add: push_task_def)
  have "\<forall>k \<in> set ns. 0 < tpn k \<and> k < length (ce_queues ?c2) \<and> k < length (mm_ends ?c2)"
    using Cons.prems(2) c2 q2(2) by auto
  from Cons.IH [OF n(5) this, of "i + of_nat (tpn n)"] obtain c' where
    c': "mmp_allocate sz nds now tt tpn task (i + of_nat (tpn n)) ns ?c2 = Some c'"
      "length (ce_queues c') = length (ce_queues ?c2)" "length (mm_ends c') = length (mm_ends ?c2)"
      "\<forall>k \<in> set ns. length (ce_queues c' ! k) = length (ce_queues ?c2 ! k) + tpn k
        \<and> mm_ends c' ! k = queue_base now (mm_ends ?c2) k + tt k * int (tpn k)"
      "\<forall>k. k \<notin> set ns \<longrightarrow> ce_queues c' ! k = ce_queues ?c2 ! k \<and> mm_ends c' ! k = mm_ends ?c2 ! k"
    by blast
  have r: "mmp_allocate sz nds now tt tpn task i (n # ns) c = Some c'" using c1(1) c'(1) by simp
  have "length (ce_queues c' ! n) = length (ce_queues c ! n) + tpn n"
    "mm_ends c' ! n = queue_base now (mm_ends c) n + tt n * int (tpn n)"
    using c'(5) n l1 c2 by auto
  moreover have "k \<in> set ns \<Longrightarrow> length (ce_queues c' ! k) = length (ce_queues c ! k) + tpn k
      \<and> mm_ends c' ! k = queue_base now (mm_ends c) k + tt k * int (tpn k)" for k
    using c'(4) n(4) c2 q2(1) by (cases "k = n") (auto simp: queue_base_def)
  moreover have "k \<notin> set (n # ns) \<Longrightarrow> ce_queues c' ! k = ce_queues c ! k \<and> mm_ends c' ! k = mm_ends c ! k" for k
    using c'(5) c2 q2(1) by auto
  ultimately show ?case using r c'(2,3) c2 q2(2) by (intro exI [of _ c']) auto
qed

section \<open>The scheduler\<close>

definition fit_nodes :: "task_desc \<Rightarrow> cnode list \<Rightarrow> nat list" where
  "fit_nodes d nds = filter (\<lambda>n. node_check d (nds ! n)) [0..<length nds]"

lemma queue_cache_entries:
  "queue_cache now d nds ends = map (entry (queue_base now ends) (task_time d nds) (\<lambda>_. 0)) (fit_nodes d nds)"
  by (auto simp: queue_cache_def fit_nodes_def entry_def queue_base_def)

lemma greedy_init:
  "std_heap qt_less H heap \<Longrightarrow>
   greedy_inv base tt ns (hp_make H (map (entry base tt (\<lambda>_. 0)) ns)) (\<lambda>_. 0)"
  by (simp add: greedy_inv_def std_heap.mset_make)

lemma dur_of_nonneg: "0 \<le> x \<Longrightarrow> 0 \<le> dur_of x"
  by (simp add: dur_of_def trunc_rat_def)

lemma task_time_nonneg:
  assumes "\<forall>nd \<in> set nds. 0 \<le> nd_power nd" and "n < length nds"
  shows "0 \<le> task_time d nds n"
  using assms by (auto simp: task_time_def simp del: of_nat_unat intro!: dur_of_nonneg divide_nonneg_nonneg)

text \<open>
  C30. The centralised MMP scheduler is optimal: it gives each node that fits the application some
  number of its tasks, all of them together, and every queue it makes longer ends no later
  than the longest queue of any other distribution of as many tasks over those nodes.
\<close>

theorem cmmp_optimal:
  assumes "std_heap qt_less H heap" and "ns = fit_nodes (tb_minReq m) nds" and "ns \<noteq> []"
    and "length nds = length (ce_queues c)" and "length nds = length (mm_ends c)"
    and "\<forall>nd \<in> set nds. 0 \<le> nd_power nd"
  shows "\<exists>c' f. cmmp_new_app H sz nds now m c = Some c' \<and> sum f (set ns) = unat (num_tasks m)
    \<and> (\<forall>n \<in> set ns. length (ce_queues c' ! n) = length (ce_queues c ! n) + f n)
    \<and> (\<forall>g. sum g (set ns) = unat (num_tasks m) \<longrightarrow> (\<forall>n \<in> set ns. 0 < f n \<longrightarrow>
        (\<exists>k \<in> set ns. 0 < g k \<and>
          mm_ends c' ! n \<le> max now (mm_ends c ! k) + int (g k) * task_time (tb_minReq m) nds k)))"
proof -
  let ?tt = "task_time (tb_minReq m) nds" and ?base = "queue_base now (mm_ends c)"
  let ?qs = "hp_make H (map (entry ?base ?tt (\<lambda>_. 0)) ns)"
  obtain qs f where a: "mmp_assign H ?tt (unat (num_tasks m)) (?qs, \<lambda>_. 0) = (qs, f)" by fastforce
  have d: "distinct ns" by (simp add: assms(2) fit_nodes_def)
  have t: "\<forall>n \<in> set ns. 0 \<le> ?tt n" using task_time_nonneg [OF assms(6)] by (simp add: assms(2) fit_nodes_def)
  have f: "greedy_inv ?base ?tt ns qs f" "sum f (set ns) = unat (num_tasks m)"
    using greedy_loop [OF assms(1) std_heap.heap_make [OF assms(1)] greedy_init [OF assms(1)] d assms(3) t a] by simp_all
  let ?us = "filter (\<lambda>n. 0 < f n) [0..<length nds]"
  let ?task = "(mk_cdesc now (ce_apps c) m)\<lparr>cd_deadline := now\<rparr>"
  have us: "\<forall>n \<in> set ?us. 0 < f n \<and> n < length (ce_queues c) \<and> n < length (mm_ends c)"
    using assms(4,5) by auto
  obtain c' where c': "mmp_allocate sz nds now ?tt f ?task 1 ?us c = Some c'"
    "\<forall>n \<in> set ?us. length (ce_queues c' ! n) = length (ce_queues c ! n) + f n
        \<and> mm_ends c' ! n = ?base n + ?tt n * int (f n)"
    "\<forall>n. n \<notin> set ?us \<longrightarrow> ce_queues c' ! n = ce_queues c ! n \<and> mm_ends c' ! n = mm_ends c ! n"
    using mmp_allocate_result [OF _ us, of sz nds now ?tt ?task 1] by auto
  have r: "cmmp_new_app H sz nds now m c = Some c'"
    using a c'(1) assms(2,3) by (simp add: cmmp_new_app_def queue_cache_entries Let_def)
  have ns: "n < length nds" if "n \<in> set ns" for n using that by (simp add: assms(2) fit_nodes_def)
  have q: "\<forall>n \<in> set ns. length (ce_queues c' ! n) = length (ce_queues c ! n) + f n"
  proof
    fix n assume "n \<in> set ns"
    with ns c'(2,3) show "length (ce_queues c' ! n) = length (ce_queues c ! n) + f n"
      by (cases "0 < f n") auto
  qed
  have e: "\<exists>k \<in> set ns. 0 < g k \<and> mm_ends c' ! n \<le> max now (mm_ends c ! k) + int (g k) * ?tt k"
    if g: "sum g (set ns) = unat (num_tasks m)" "n \<in> set ns" "0 < f n" for g n
  proof -
    have "mm_ends c' ! n = ?base n + int (f n) * ?tt n"
      using c'(2) ns [OF g(2)] g(3) by (simp add: mult.commute)
    with greedy_optimal [OF f(1) t _ g(2,3), of g] g(1) f(2) show ?thesis
      by (simp add: queue_base_def)
  qed
  show ?thesis using r f(2) q e by blast
qed

theorem cmmp_optimal_witness:
  "\<exists>c' f. cmmp_new_app (sorted_heap qt_less) (\<lambda>_. 20) example_nodes 5 example_bag (mk_mmp_central 5 3) = Some c'
     \<and> sum f {0, 1, 2 :: nat} = (3 :: nat)"
proof -
  have ns: "fit_nodes (tb_minReq example_bag) example_nodes = [0, 1, 2]"
    by (simp add: fit_nodes_def node_check_def example_bag_def example_nodes_def mk_taskbag_def
        mk_task_desc_def upt_rec)
  have n: "num_tasks example_bag = 3" by (simp add: num_tasks_def example_bag_def)
  have t: "\<forall>nd \<in> set example_nodes. 0 \<le> nd_power nd" by (simp add: example_nodes_def)
  have l: "length example_nodes = length (ce_queues (mk_mmp_central 5 3))"
    "length example_nodes = length (mm_ends (mk_mmp_central 5 3))"
    by (simp_all add: example_nodes_def mk_mmp_central_def mk_central_def central.defs)
  from cmmp_optimal [OF qt.std_heap_axioms ns [symmetric] _ l t, of "\<lambda>_. 20" 5]
  obtain c' f where "cmmp_new_app (sorted_heap qt_less) (\<lambda>_. 20) example_nodes 5 example_bag (mk_mmp_central 5 3) = Some c'"
    "sum f (set [0, 1, 2 :: nat]) = unat (num_tasks example_bag)"
    by blast
  moreover from this(2) have "sum f {0, 1, 2 :: nat} = 3" by (simp only: n list.set) simp
  ultimately show ?thesis by (intro exI conjI)
qed

end
