(* ===== verification/Central_Holes.thy ===== *)
theory Central_Holes
  imports Central_Greedy
begin

text \<open>
  The centralised DP scheduler places every task that fits: its cache of holes never runs over the
  array that holds it, never forgets room that is needed, and gives out as many tasks as the
  application has or the holes can hold.
\<close>

abbreviation hole_sum :: "hole multiset \<Rightarrow> nat" where
  "hole_sum M \<equiv> \<Sum>h\<in>#M. unat (ho_num h)"

definition hole_count :: "time \<Rightarrow> task_desc \<Rightarrow> cnode list \<Rightarrow> cdesc list list \<Rightarrow> nat \<Rightarrow> nat" where
  "hole_count now d nds qs n =
    (let av = fst (hole_avail now (td_deadline d) (nds ! n) (qs ! n))
     in if node_check d (nds ! n) \<and> td_length d < av then unat (av div td_length d) else 0)"

definition cache_ok :: "(hole list \<Rightarrow> bool) \<Rightarrow> hole multiset \<Rightarrow> 32 word \<times> hole list \<Rightarrow> bool" where
  "cache_ok heap P st \<longleftrightarrow> heap (snd st) \<and> unat (fst st) = hole_sum (mset (snd st))
    \<and> (\<forall>h \<in># P. 0 < unat (ho_num h)) \<and> mset (snd st) \<subseteq># P"

lemma hole_sum_mono: "M \<subseteq># N \<Longrightarrow> hole_sum M \<le> hole_sum N"
  by (metis image_mset_subseteq_mono le_add1 subset_mset.add_diff_inverse sum_mset.union)

lemma size_le_sum: "(\<forall>h \<in># M. 0 < unat (ho_num h)) \<Longrightarrow> size M \<le> hole_sum M"
  by (induction M) auto

lemma cache_len: "cache_ok heap P st \<Longrightarrow> length (snd st) \<le> unat (fst st)"
  unfolding cache_ok_def by (metis mset_subset_eqD size_le_sum size_mset)

lemma cache_pop:
  assumes "std_heap ho_less H heap" and "cache_ok heap P (cached, hs)" and "hs \<noteq> []"
  shows "cache_ok heap P (cached - ho_num (hd hs), butlast (hp_pop H hs))"
    and "unat (cached - ho_num (hd hs)) = unat cached - unat (ho_num (hd hs))"
    and "unat (ho_num (hd hs)) \<le> unat cached"
    and "Suc (length (butlast (hp_pop H hs))) = length hs"
proof -
  have h: "heap hs" using assms(2) by (simp add: cache_ok_def)
  note p = std_heap.pop_split(2,3) [OF assms(1) h assms(3)]
  have c: "unat cached = unat (ho_num (hd hs)) + hole_sum (mset (butlast (hp_pop H hs)))"
    using assms(2) p(1) by (simp add: cache_ok_def)
  then show le: "unat (ho_num (hd hs)) \<le> unat cached" by simp
  then show u: "unat (cached - ho_num (hd hs)) = unat cached - unat (ho_num (hd hs))"
    by (simp add: unat_sub word_le_nat_alt)
  have "mset (butlast (hp_pop H hs)) \<subseteq># mset hs" using p(1) by simp
  then show "cache_ok heap P (cached - ho_num (hd hs), butlast (hp_pop H hs))"
    using assms(2) c u std_heap.heap_pop [OF assms(1) h assms(3)]
    by (auto simp: cache_ok_def intro: subset_mset.order_trans)
  show "Suc (length (butlast (hp_pop H hs))) = length hs" using p(2) assms(3) by (cases hs) auto
qed

lemma cache_store:
  assumes "std_heap ho_less H heap" and "cache_ok heap P st" and "0 < unat (ho_num h)"
    and "length (snd st) < unat num" and "hole_sum (add_mset h P) < 2 ^ 32"
  shows "\<exists>st'. dp_store H num h st = Some st' \<and> cache_ok heap (add_mset h P) st'
    \<and> unat (fst st') = unat (fst st) + unat (ho_num h) \<and> length (snd st') = Suc (length (snd st))"
proof -
  have h: "heap (snd st)" and s: "mset (snd st) \<subseteq># P" "unat (fst st) = hole_sum (mset (snd st))"
    using assms(2) by (simp_all add: cache_ok_def)
  have "unat (fst st) + unat (ho_num h) < 2 ^ 32" using hole_sum_mono [OF s(1)] s(2) assms(5) by simp
  then have u: "unat (fst st + ho_num h) = unat (fst st) + unat (ho_num h)"
    by (simp add: unat_word_ariths)
  show ?thesis
    using assms(2,3,4) u std_heap.heap_push [OF assms(1) h] std_heap.mset_push [OF assms(1) h]
      std_heap.push_length [OF assms(1) h]
    by (auto simp: dp_store_def cache_ok_def)
qed

text \<open>The loop that drops holes leaves enough room for the tasks, and a place for the new hole.\<close>

lemma evict_result:
  assumes "std_heap ho_less H heap" and "cache_ok heap P (cached, hs)"
    and "0 < unat (ho_num h)" and "hole_sum (add_mset h P) < 2 ^ 32" and "unat num \<le> unat cached + unat (ho_num h)"
  shows "\<exists>cached' hs'. dp_evict H num h (length hs) (cached, hs) = Some (cached', hs') \<and> cache_ok heap P (cached', hs')
    \<and> length hs' \<le> length hs \<and> unat num \<le> unat cached' + unat (ho_num h)
    \<and> (hs \<noteq> [] \<and> ho_less h (hd hs) \<and> length hs \<le> unat num \<longrightarrow> length hs' < unat num)"
  using assms(2,5)
proof (induction "length hs" arbitrary: cached hs)
  case 0
  then show ?case by (auto simp: cache_ok_def word_less_nat_alt)
next
  case (Suc k)
  then have ne: "hs \<noteq> []" by auto
  note p = cache_pop [OF assms(1) Suc.prems(1) ne]
  let ?f = "ho_num (hd hs)" and ?hs = "butlast (hp_pop H hs)"
  have "mset hs \<subseteq># P" and c: "unat cached = hole_sum (mset hs)" using Suc.prems(1) by (simp_all add: cache_ok_def)
  with hole_sum_mono [of "mset hs" P] assms(4) have "unat cached + unat (ho_num h) < 2 ^ 32" by simp
  then have u: "unat (cached - ?f + ho_num h) = unat cached - unat ?f + unat (ho_num h)"
    using p(2,3) by (simp add: unat_word_ariths)
  have "0 < unat ?f" using Suc.prems(1) ne \<open>mset hs \<subseteq># P\<close>
    by (metis cache_ok_def hd_in_set in_multiset_in_set mset_subset_eqD)
  then have pos: "0 < cached" using p(3) by (simp add: word_less_nat_alt)
  show ?case
  proof (cases "num \<le> cached - ?f + ho_num h \<and> ho_less h (hd hs)")
    case True
    have eq: "dp_evict H num h (length hs) (cached, hs) = dp_evict H num h (length ?hs) (cached - ?f, ?hs)"
      using Suc.hyps(2) p(4) True pos by (metis dp_evict.simps(2))
    have "unat num \<le> unat (cached - ?f) + unat (ho_num h)" using True u p(2) by (simp add: word_le_nat_alt)
    from Suc.hyps(1) [OF _ p(1) this] p(4) Suc.hyps(2) obtain cached' hs' where
      r: "dp_evict H num h (length ?hs) (cached - ?f, ?hs) = Some (cached', hs')" "cache_ok heap P (cached', hs')"
        "length hs' \<le> length ?hs" "unat num \<le> unat cached' + unat (ho_num h)"
      by auto
    with eq p(4) show ?thesis by auto
  next
    case False
    have eq: "dp_evict H num h (length hs) (cached, hs) = Some (cached, hs)"
      using Suc.hyps(2) False by (metis dp_evict.simps(2))
    have "length hs < unat num" if "ho_less h (hd hs)"
    proof -
      have "unat cached - unat ?f + unat (ho_num h) < unat num"
        using False that u by (simp add: word_le_nat_alt)
      moreover have "length ?hs \<le> unat (cached - ?f)" using cache_len [OF p(1)] by simp
      ultimately show ?thesis using p(2,4) assms(3) by linarith
    qed
    with eq Suc.prems show ?thesis by auto
  qed
qed

text \<open>One hole offered to the cache: there is room for it, and enough tasks stay placed.\<close>

lemma add_hole_result:
  assumes "std_heap ho_less H heap" and "cache_ok heap P st" and "0 < unat (ho_num h)" and "0 < unat num"
    and "hole_sum (add_mset h P) < 2 ^ 32" and "length (snd st) \<le> unat num"
    and "min (unat num) (hole_sum P) \<le> unat (fst st)"
  shows "\<exists>st'. dp_add_hole H num h st = Some st' \<and> cache_ok heap (add_mset h P) st'
    \<and> length (snd st') \<le> unat num \<and> min (unat num) (hole_sum (add_mset h P)) \<le> unat (fst st')"
proof (cases "fst st = 0 \<or> fst st < num")
  case True
  then have l: "unat (fst st) < unat num" using assms(4) by (auto simp: word_less_nat_alt)
  then have "length (snd st) < unat num" using cache_len [OF assms(2)] by linarith
  from cache_store [OF assms(1-3) this assms(5)] True assms(6,7) l \<open>length (snd st) < unat num\<close>
  show ?thesis by (auto simp: dp_add_hole_def)
next
  case False
  then have n: "unat num \<le> unat (fst st)" by (simp add: word_less_nat_alt)
  have ne: "snd st \<noteq> []"
  proof
    assume "snd st = []"
    with assms(2) have "unat (fst st) = 0" by (simp add: cache_ok_def)
    with n assms(4) show False by simp
  qed
  show ?thesis
  proof (cases "ho_less h (hd (snd st))")
    case less: True
    obtain cached hs where st: "st = (cached, hs)" by fastforce
    from evict_result [OF assms(1) assms(2) [unfolded st] assms(3,5), of num] n st
    obtain st' where e: "dp_evict H num h (length hs) (cached, hs) = Some st'" "cache_ok heap P st'"
      "unat num \<le> unat (fst st') + unat (ho_num h)" "length (snd st') < unat num"
      using less ne assms(6) by auto
    from cache_store [OF assms(1) e(2) assms(3) e(4) assms(5)] False ne less e(1,3,4) st
    show ?thesis by (auto simp: dp_add_hole_def)
  next
    case notless: False
    have "cache_ok heap (add_mset h P) st"
      using assms(2,3) by (auto simp: cache_ok_def intro: subset_mset.order_trans)
    with False notless ne n assms(6) show ?thesis by (auto simp: dp_add_hole_def)
  qed
qed

section \<open>All the nodes\<close>

lemma sum_list_mono_later: "set ns \<subseteq> A \<Longrightarrow> finite A \<Longrightarrow> distinct ns \<Longrightarrow> sum f (set ns) \<le> (sum f A :: nat)"
  by (intro sum_mono2) auto

definition hole_at :: "time \<Rightarrow> task_desc \<Rightarrow> cnode list \<Rightarrow> cdesc list list \<Rightarrow> nat \<Rightarrow> hole" where
  "hole_at now d nds qs n = hole_of n (td_length d) (hole_avail now (td_deadline d) (nds ! n) (qs ! n))"

lemma hole_at_num:
  assumes "0 < hole_count now d nds qs n" and "hole_count now d nds qs n < 2 ^ 32"
  shows "unat (ho_num (hole_at now d nds qs n)) = hole_count now d nds qs n"
    and "ho_node (hole_at now d nds qs n) = n"
  using assms by (auto simp: hole_at_def hole_of_def hole_count_def Let_def unsigned_ucast_eq take_bit_nat_eq_self_iff split: if_splits)

lemma count_pos:
  assumes "td_length d \<noteq> 0"
  shows "node_check d (nds ! n) \<and> td_length d < fst (hole_avail now (td_deadline d) (nds ! n) (qs ! n))
    \<longleftrightarrow> 0 < hole_count now d nds qs n"
proof -
  have "0 < unat (av div td_length d)" if "td_length d < av" for av
  proof -
    have "0 < unat (td_length d)" using assms by (simp add: unat_gt_0)
    with that show ?thesis by (simp add: unat_div word_less_nat_alt div_greater_zero_iff)
  qed
  then show ?thesis by (auto simp: hole_count_def Let_def)
qed

lemma dp_scan_result:
  assumes "std_heap ho_less H heap" and "td_length (tb_minReq m) \<noteq> 0" and "num_tasks m \<noteq> 0"
    and "cache_ok heap P st" and "length (snd st) \<le> unat (num_tasks m)"
    and "min (unat (num_tasks m)) (hole_sum P) \<le> unat (fst st)" and "distinct ns"
    and "hole_sum P + sum (hole_count now (tb_minReq m) nds qs) (set ns) < 2 ^ 32"
  shows "\<exists>st' M. dp_scan H now m nds qs ns st = Some st' \<and> cache_ok heap (P + M) st'
    \<and> length (snd st') \<le> unat (num_tasks m) \<and> min (unat (num_tasks m)) (hole_sum (P + M)) \<le> unat (fst st')
    \<and> M = mset (map (hole_at now (tb_minReq m) nds qs) (filter (\<lambda>n. 0 < hole_count now (tb_minReq m) nds qs n) ns))"
  using assms(4-)
proof (induction ns arbitrary: P st)
  case Nil
  then show ?case by simp
next
  case (Cons n ns)
  let ?d = "tb_minReq m" and ?cnt = "hole_count now (tb_minReq m) nds qs"
  let ?h = "hole_at now ?d nds qs n"
  have s: "hole_sum P + ?cnt n + sum ?cnt (set ns) < 2 ^ 32" using Cons.prems(4,5) by (simp add: add.assoc)
  show ?case
  proof (cases "0 < ?cnt n")
    case False
    then have "dp_scan H now m nds qs (n # ns) st = dp_scan H now m nds qs ns st"
      using count_pos [OF assms(2), of nds n now qs] by (auto simp: Let_def)
    moreover have "distinct ns" "hole_sum P + sum ?cnt (set ns) < 2 ^ 32" using Cons.prems(4) s by auto
    ultimately show ?thesis using Cons.IH [OF Cons.prems(1-3)] False by simp
  next
    case True
    have num: "unat (ho_num ?h) = ?cnt n" using hole_at_num(1) [OF True] s by simp
    then have sum: "hole_sum (add_mset ?h P) = hole_sum P + ?cnt n" by simp
    have "0 < unat (num_tasks m)" using assms(3) by (simp add: unat_gt_0)
    from add_hole_result [OF assms(1) Cons.prems(1) _ this _ Cons.prems(2,3), of ?h] num True sum s
    obtain st1 where a: "dp_add_hole H (num_tasks m) ?h st = Some st1" "cache_ok heap (add_mset ?h P) st1"
      "length (snd st1) \<le> unat (num_tasks m)" "min (unat (num_tasks m)) (hole_sum (add_mset ?h P)) \<le> unat (fst st1)"
      by auto
    have eq: "dp_scan H now m nds qs (n # ns) st = dp_scan H now m nds qs ns st1"
      using a(1) True assms(2) count_pos [OF assms(2), of nds n now qs] by (simp add: Let_def hole_at_def)
    have "distinct ns" "hole_sum (add_mset ?h P) + sum ?cnt (set ns) < 2 ^ 32"
      using Cons.prems(4) s sum by auto
    from Cons.IH [OF a(2-4) this] True eq show ?thesis by (auto simp: add_mset_commute)
  qed
qed

section \<open>The tasks\<close>

lemma dp_allocate_result:
  assumes "std_heap ho_less H heap" and "heap hs" and "distinct (map ho_node hs)"
    and "\<forall>h \<in> set hs. ho_node h < length (ce_queues c)" and "unat ignore \<le> hole_sum (mset hs)"
  shows "\<exists>c' f. dp_allocate H sz nds task (length hs) i ignore hs c = Some c'
    \<and> (\<forall>h \<in> set hs. f (ho_node h) \<le> unat (ho_num h)) \<and> (\<forall>n. n \<notin> ho_node ` set hs \<longrightarrow> f n = 0)
    \<and> sum f (ho_node ` set hs) + unat ignore = hole_sum (mset hs)
    \<and> (\<forall>n < length (ce_queues c). length (ce_queues c' ! n) = length (ce_queues c ! n) + f n)"
  using assms(2-)
proof (induction "length hs" arbitrary: hs c i ignore)
  case 0
  then show ?case by (auto intro: exI [of _ "\<lambda>_. 0"])
next
  case (Suc k)
  then have ne: "hs \<noteq> []" by auto
  let ?b = "hd hs" and ?hs = "butlast (hp_pop H hs)"
  note p = std_heap.pop_split(2,3) [OF assms(1) Suc.prems(1) ne]
  have b: "last (hp_pop H hs) = ?b" by (rule std_heap.last_pop [OF assms(1) Suc.prems(1) ne])
  have set: "set hs = insert ?b (set ?hs)" using arg_cong [OF p(1), of set_mset] by simp
  have "mset (map ho_node hs) = add_mset (ho_node ?b) (mset (map ho_node ?hs))"
    using arg_cong [OF p(1), of "image_mset ho_node"] by simp
  then have d: "distinct (ho_node ?b # map ho_node ?hs)"
    using Suc.prems(2) by (metis mset.simps(2) mset_eq_imp_distinct_iff)
  have sum: "hole_sum (mset hs) = unat (ho_num ?b) + hole_sum (mset ?hs)"
    using arg_cong [OF p(1), of hole_sum] by simp
  have h: "heap ?hs" by (rule std_heap.heap_pop [OF assms(1) Suc.prems(1) ne])
  have k: "k = length ?hs" unfolding p(2) Suc.hyps(2) [symmetric] by (rule diff_Suc_1 [symmetric])
  let ?n = "ho_node ?b"
  have nn: "?n \<notin> ho_node ` set ?hs" using d by simp
  show ?case
  proof (cases "ho_num ?b \<le> ignore")
    case True
    have u: "unat (ignore - ho_num ?b) = unat ignore - unat (ho_num ?b)" "unat (ho_num ?b) \<le> unat ignore"
      using True by (simp_all add: unat_sub word_le_nat_alt)
    moreover have "\<forall>h \<in> set ?hs. ho_node h < length (ce_queues c)" using Suc.prems(3) set by simp
    moreover have "unat (ignore - ho_num ?b) \<le> hole_sum (mset ?hs)" using calculation sum Suc.prems(4) by simp
    moreover have "distinct (map ho_node ?hs)" using d by simp
    ultimately obtain c' f where r: "dp_allocate H sz nds task (length ?hs) i (ignore - ho_num ?b) ?hs c = Some c'"
      "\<forall>h \<in> set ?hs. f (ho_node h) \<le> unat (ho_num h)" "\<forall>n. n \<notin> ho_node ` set ?hs \<longrightarrow> f n = 0"
      "sum f (ho_node ` set ?hs) + unat (ignore - ho_num ?b) = hole_sum (mset ?hs)"
      "\<forall>n < length (ce_queues c). length (ce_queues c' ! n) = length (ce_queues c ! n) + f n"
      using Suc.hyps(1) [OF k h, of c "ignore - ho_num ?b" i] by blast
    have "f ?n = 0" using r(3) nn by blast
    then have "sum f (ho_node ` set hs) = sum f (ho_node ` set ?hs)" using set nn by simp
    moreover have "dp_allocate H sz nds task (length hs) i ignore hs c = Some c'"
      using r(1) True b k by (simp add: Suc.hyps(2) [symmetric] Let_def)
    ultimately show ?thesis
      using r(2-5) \<open>f ?n = 0\<close> set sum u by (intro exI [of _ c'] exI [of _ f]) auto
  next
    case False
    then have lt: "unat ignore < unat (ho_num ?b)" by (simp add: word_le_nat_alt)
    let ?k = "unat (ho_num ?b - ignore)"
    have k': "?k = unat (ho_num ?b) - unat ignore" using lt by (simp add: unat_sub word_le_nat_alt)
    let ?task = "task\<lparr>cd_runtime := dur_of (of_nat (unat (td_length (tb_minReq (cd_msg task)))) / nd_power (nds ! ?n))\<rparr>"
    let ?c0 = "push_task ?n (numbered ?task i ?k) c"
    have "?n < length (ce_queues c)" using Suc.prems(3) ne by simp
    then have "?n < length (ce_queues ?c0)" "ce_queues ?c0 ! ?n \<noteq> []"
      using lt k' by (simp_all add: push_task_def numbered_ne)
    from sort_queue_ext [OF this, of sz nds] obtain c1 where
      c1: "sort_queue sz nds ?n ?c0 = Some c1" "length (ce_queues c1) = length (ce_queues ?c0)"
        "mset (ce_queues c1 ! ?n) = mset (ce_queues ?c0 ! ?n)" "\<forall>j. j \<noteq> ?n \<longrightarrow> ce_queues c1 ! j = ce_queues ?c0 ! j"
      by blast
    have l1: "length (ce_queues c1 ! ?n) = length (ce_queues c ! ?n) + ?k"
      using mset_eq_length [OF c1(3)] \<open>?n < length (ce_queues c)\<close> by (simp add: push_task_def)
    have len: "length (ce_queues c1) = length (ce_queues c)" using c1(2) by (simp add: push_task_def)
    have "\<forall>h \<in> set ?hs. ho_node h < length (ce_queues c1)" using Suc.prems(3) set len by simp
    moreover have "unat (0 :: 32 word) \<le> hole_sum (mset ?hs)" by simp
    moreover have "distinct (map ho_node ?hs)" using d by simp
    ultimately obtain c' f where r: "dp_allocate H sz nds task (length ?hs) (i + (ho_num ?b - ignore)) 0 ?hs c1 = Some c'"
      "\<forall>h \<in> set ?hs. f (ho_node h) \<le> unat (ho_num h)" "\<forall>n. n \<notin> ho_node ` set ?hs \<longrightarrow> f n = 0"
      "sum f (ho_node ` set ?hs) + unat (0 :: 32 word) = hole_sum (mset ?hs)"
      "\<forall>n < length (ce_queues c1). length (ce_queues c' ! n) = length (ce_queues c1 ! n) + f n"
      using Suc.hyps(1) [OF k h, of c1 0 "i + (ho_num ?b - ignore)"] by blast
    have e: "dp_allocate H sz nds task (length hs) i ignore hs c = Some c'"
      using r(1) False b k c1(1) by (simp add: Suc.hyps(2) [symmetric] Let_def)
    let ?f = "f(?n := ?k)"
    have "\<forall>x \<in> ho_node ` set ?hs. ?f x = f x" using nn by (metis fun_upd_apply)
    then have "sum ?f (ho_node ` set ?hs) = sum f (ho_node ` set ?hs)" by (intro sum.cong) blast+
    then have "sum ?f (ho_node ` set hs) = ?k + hole_sum (mset ?hs)"
      using set nn r(4) by simp
    moreover have "\<forall>n < length (ce_queues c). length (ce_queues c' ! n) = length (ce_queues c ! n) + ?f n"
    proof (intro allI impI)
      fix n assume n: "n < length (ce_queues c)"
      show "length (ce_queues c' ! n) = length (ce_queues c ! n) + ?f n"
      proof (cases "n = ?n")
        case True
        have "f ?n = 0" using r(3) nn by blast
        with True n r(5) len l1 show ?thesis by simp
      next
        case False
        with n r(5) len c1(4) show ?thesis by (simp add: push_task_def)
      qed
    qed
    moreover have "\<forall>h \<in> set hs. ?f (ho_node h) \<le> unat (ho_num h)"
    proof
      fix h assume "h \<in> set hs"
      then consider "h = ?b" | "h \<in> set ?hs" "ho_node h \<noteq> ?n" using set nn by (metis image_eqI insertE)
      then show "?f (ho_node h) \<le> unat (ho_num h)" by cases (use k' r(2) in simp_all)
    qed
    moreover have "\<forall>n. n \<notin> ho_node ` set hs \<longrightarrow> ?f n = 0" using r(3) set by simp
    moreover have "?k + hole_sum (mset ?hs) + unat ignore = hole_sum (mset hs)" using sum k' lt by simp
    ultimately show ?thesis using e by (intro exI [of _ c'] exI [of _ ?f] conjI) simp_all
  qed
qed

text \<open>What the scan leaves in the cache.\<close>

lemma dp_cache_nodes:
  assumes "std_heap ho_less H heap" and "num_tasks m \<noteq> 0" and "td_length (tb_minReq m) \<noteq> 0"
    and cnt: "cnt = hole_count now (tb_minReq m) nds qs" and small: "sum cnt {0..<N} < 2 ^ 32"
  shows "\<exists>cached hs. dp_scan H now m nds qs [0..<N] (0, []) = Some (cached, hs) \<and> heap hs
    \<and> distinct (map ho_node hs) \<and> (\<forall>h \<in> set hs. ho_node h < N \<and> unat (ho_num h) = cnt (ho_node h))
    \<and> unat cached = hole_sum (mset hs) \<and> hole_sum (mset hs) \<le> sum cnt {0..<N}
    \<and> min (unat (num_tasks m)) (sum cnt {0..<N}) \<le> unat cached"
proof -
  let ?hole = "hole_at now (tb_minReq m) nds qs" and ?used = "filter (\<lambda>n. 0 < cnt n) [0..<N]"
  let ?P = "mset (map ?hole ?used)"
  have "cache_ok heap {#} (0, [])" using std_heap.heap_empty [OF assms(1)] by (simp add: cache_ok_def)
  from dp_scan_result [OF assms(1,3,2) this, of "[0..<N]" now nds qs] cnt small
  obtain cached hs where st: "dp_scan H now m nds qs [0..<N] (0, []) = Some (cached, hs)" "heap hs"
    "unat cached = hole_sum (mset hs)" "mset hs \<subseteq># ?P" "min (unat (num_tasks m)) (hole_sum ?P) \<le> unat cached"
    by (auto simp: cache_ok_def)
  have at: "unat (ho_num (?hole n)) = cnt n" "ho_node (?hole n) = n" if "n \<in> set ?used" for n
  proof -
    have "cnt n < 2 ^ 32" using member_le_sum [of n "{0..<N}" cnt] that small by simp
    with that show "unat (ho_num (?hole n)) = cnt n" "ho_node (?hole n) = n"
      using hole_at_num [of now "tb_minReq m" nds qs n] cnt by auto
  qed
  have "hole_sum ?P = sum_list (map (\<lambda>n. unat (ho_num (?hole n))) ?used)"
    by (simp add: sum_mset_sum_list [symmetric] image_mset.compositionality comp_def)
  also have "\<dots> = sum_list (map cnt ?used)" using at(1) by (metis (no_types, lifting) map_cong)
  also have "\<dots> = sum_list (map cnt [0..<N])" by (rule sum_list_map_filter) simp
  finally have P: "hole_sum ?P = sum cnt {0..<N}" by (simp add: interv_sum_list_conv_sum_set_nat)
  have mem: "\<forall>h \<in> set hs. \<exists>n \<in> set ?used. h = ?hole n"
    using mset_subset_eqD [OF st(4)] by auto
  have "map (ho_node \<circ> ?hole) ?used = ?used" by (rule map_idI) (simp add: at(2))
  then have "mset (map ho_node hs) \<subseteq># mset ?used"
    using image_mset_subseteq_mono [OF st(4), of ho_node] by (metis map_map mset_map)
  then have "distinct (map ho_node hs)"
    by (metis distinct_filter distinct_upt mset_subset_eq_exists_conv distinct_append mset_append ex_mset
        mset_eq_imp_distinct_iff)
  moreover have "\<forall>h \<in> set hs. ho_node h < N \<and> unat (ho_num h) = cnt (ho_node h)" using mem at by fastforce
  ultimately show ?thesis using st P hole_sum_mono [OF st(4)] by auto
qed

text \<open>
  C31. The centralised DP scheduler places all the tasks that fit before the deadline: its cache
  of holes never overflows, and the application gets as many tasks placed as it has or as the
  nodes have room for, on no node more than its hole can hold. The nodes together must not offer
  room for 2^32 tasks, which a 32-bit count could not hold.
\<close>

theorem cdp_places_tasks:
  assumes "std_heap ho_less H heap" and "num_tasks m \<noteq> 0" and "td_length (tb_minReq m) \<noteq> 0"
    and "length nds = length (ce_queues c)" and "cnt = hole_count now (tb_minReq m) nds (ce_queues c)"
    and "sum cnt {0..<length nds} < 2 ^ 32"
  shows "\<exists>c' f. cdp_new_app H sz nds now m c = Some c'
    \<and> sum f {0..<length nds} = min (unat (num_tasks m)) (sum cnt {0..<length nds})
    \<and> (\<forall>n < length nds. f n \<le> cnt n \<and> length (ce_queues c' ! n) = length (ce_queues c ! n) + f n)"
proof -
  let ?N = "unat (num_tasks m)" and ?task = "(mk_cdesc now (ce_apps c) m)\<lparr>cd_deadline := td_deadline (tb_minReq m)\<rparr>"
  from dp_cache_nodes [OF assms(1-3,5,6)] obtain cached hs where
    s: "dp_scan H now m nds (ce_queues c) [0..<length nds] (0, []) = Some (cached, hs)" "heap hs"
      "distinct (map ho_node hs)" "\<forall>h \<in> set hs. ho_node h < length nds \<and> unat (ho_num h) = cnt (ho_node h)"
      "unat cached = hole_sum (mset hs)" "hole_sum (mset hs) \<le> sum cnt {0..<length nds}"
      "min ?N (sum cnt {0..<length nds}) \<le> unat cached"
    by blast
  let ?ig = "if cached > num_tasks m then cached - num_tasks m else 0"
  have ig: "unat ?ig = unat cached - ?N"
    by (auto simp: unat_sub word_le_nat_alt word_less_nat_alt not_less)
  have "\<forall>h \<in> set hs. ho_node h < length (ce_queues c)" using s(4) assms(4) by simp
  moreover have "unat ?ig \<le> hole_sum (mset hs)" using ig s(5) by simp
  ultimately obtain c' f where f: "dp_allocate H sz nds ?task (length hs) 1 ?ig hs c = Some c'"
    "\<forall>h \<in> set hs. f (ho_node h) \<le> unat (ho_num h)"
    "\<forall>n. n \<notin> ho_node ` set hs \<longrightarrow> f n = 0" "sum f (ho_node ` set hs) + unat ?ig = hole_sum (mset hs)"
    "\<forall>n < length (ce_queues c). length (ce_queues c' ! n) = length (ce_queues c ! n) + f n"
    using dp_allocate_result [OF assms(1) s(2,3), of c ?ig sz nds ?task 1] by blast
  have "cdp_new_app H sz nds now m c = Some c'" using s(1) f(1) by (simp add: cdp_new_app_def)
  moreover have "f n \<le> cnt n" if "n < length nds" for n
    using f(2,3) s(4) by (cases "n \<in> ho_node ` set hs") auto
  moreover have "sum f {0..<length nds} = sum f (ho_node ` set hs)"
    using s(4) f(3) by (intro sum.mono_neutral_right) auto
  then have "sum f {0..<length nds} = min ?N (sum cnt {0..<length nds})" using f(4) ig s(5-7) by auto
  ultimately show ?thesis using f(5) assms(4) by auto
qed

text \<open>Three idle nodes and a deadline in a hundred seconds: there is room for 346 tasks of length 1000.\<close>

lemma example_counts:
  "hole_count 0 (tb_minReq example_bag) example_nodes (replicate 3 []) 0 = 99"
  "hole_count 0 (tb_minReq example_bag) example_nodes (replicate 3 []) 1 = 49"
  "hole_count 0 (tb_minReq example_bag) example_nodes (replicate 3 []) 2 = 198"
  by (simp_all add: hole_count_def hole_avail_def hole_start_def to_ulong_def trunc_rat_def dur_of_def secs_def
      example_bag_def example_nodes_def mk_taskbag_def mk_task_desc_def node_check_def Let_def)

theorem cdp_places_tasks_witness:
  "\<exists>c' f. cdp_new_app (sorted_heap ho_less) (\<lambda>_. 20) example_nodes 0 example_bag (mk_central 3) = Some c'
     \<and> sum f {0..<length example_nodes} = (3 :: nat)"
proof -
  let ?cnt = "hole_count 0 (tb_minReq example_bag) example_nodes (replicate 3 [])"
  have l: "length example_nodes = 3" by (simp add: example_nodes_def)
  have "{0..<3} = {0, 1, 2 :: nat}" by auto
  then have c: "sum ?cnt {0..<length example_nodes} = 346"
    unfolding l by (simp only: sum.insert finite.intros) (simp add: example_counts example_counts(2) [simplified])
  have n: "num_tasks example_bag = 3" by (simp add: num_tasks_def example_bag_def)
  have q: "ce_queues (mk_central 3) = replicate 3 []" by (simp add: mk_central_def)
  have a: "td_length (tb_minReq example_bag) \<noteq> 0" by (simp add: example_bag_def)
  have s: "sum ?cnt {0..<length example_nodes} < 2 ^ 32" unfolding c by simp
  have "num_tasks example_bag \<noteq> 0" "length example_nodes = length (ce_queues (mk_central 3))"
    by (simp_all add: n l q)
  from cdp_places_tasks [OF ho.std_heap_axioms this(1) a this(2) _ s, of 0 "\<lambda>_. 20"] q
  obtain c' f where r: "cdp_new_app (sorted_heap ho_less) (\<lambda>_. 20) example_nodes 0 example_bag (mk_central 3) = Some c'"
    "sum f {0..<length example_nodes} = min (unat (num_tasks example_bag)) (sum ?cnt {0..<length example_nodes})"
    by (metis (no_types, lifting))
  have "min (unat (3 :: 32 word)) 346 = 3" by simp
  with r(2) have "sum f {0..<length example_nodes} = 3" by (simp only: c n)
  with r(1) show ?thesis by (intro exI conjI)
qed

end
