(* ===== verification/Central_Slowness.thy ===== *)
theory Central_Slowness
  imports Central_Holes Fsp_Props
begin

text \<open>
  The centralised FSP scheduler: the search for the number of tasks of each node ends and places
  every task, and the lists of proxies stay as long as the queues they describe, which the program
  asserts each time an application arrives.
\<close>

section \<open>The counts\<close>

text \<open>The heap has one entry for every task a node holds.\<close>

definition tpn_ok :: "((rat \<times> nat) list \<Rightarrow> bool) \<Rightarrow> nat \<Rightarrow> nat set \<Rightarrow> nat \<Rightarrow> tpn_state \<Rightarrow> bool" where
  "tpn_ok heap num A L st \<longleftrightarrow> (case st of (tpn, tot, hs) \<Rightarrow>
     heap hs \<and> length hs = tot \<and> tot \<le> num \<and> length tpn = L \<and> snd ` set hs \<subseteq> A
     \<and> (\<forall>n \<in> A. tpn ! n = int (count (image_mset snd (mset hs)) n))
     \<and> (\<forall>n < L. n \<notin> A \<longrightarrow> tpn ! n = - 1))"

lemma put_ok:
  assumes "std_heap pair_less H heap" and "tpn_ok heap num A L (tpn, tot, hs)" and "n \<in> A" and "A \<subseteq> {..<L}"
  shows "tpn_ok heap num A L (tpn_put H num sl n (tpn, tot, hs))"
    and "tot \<le> fst (snd (tpn_put H num sl n (tpn, tot, hs)))"
    and "tot < num \<Longrightarrow> fst (tpn_put H num sl n (tpn, tot, hs)) = tpn[n := tpn ! n + 1]
      \<and> fst (snd (tpn_put H num sl n (tpn, tot, hs))) = tot + 1"
proof -
  let ?hs = "hp_push H (hs @ [(sl, n)])" and ?tpn = "tpn[n := tpn ! n + 1]"
  have h: "heap hs" and tot: "tot = length hs" "tot \<le> num" and L: "length tpn = L" "n < L"
    using assms(2-4) by (auto simp: tpn_ok_def)
  have m: "mset ?hs = add_mset (sl, n) (mset hs)" and h1: "heap ?hs"
    using std_heap.mset_push [OF assms(1) h] std_heap.heap_push [OF assms(1) h] by auto
  then have len: "length ?hs = Suc tot" by (metis size_add_mset size_mset tot(1))
  have set: "set ?hs = insert (sl, n) (set hs)" by (rule std_heap.push_set [OF assms(1) h])
  have cnt: "?tpn ! k = int (count (image_mset snd (mset ?hs)) k)" if "k \<in> A" for k
    using assms(2) that L by (cases "k = n") (auto simp: tpn_ok_def m)
  have out: "?tpn ! k = - 1" if "k < L" "k \<notin> A" for k
  proof -
    have "k \<noteq> n" using assms(3) that by auto
    with assms(2) that show ?thesis by (auto simp: tpn_ok_def)
  qed
  have nodes: "snd ` set ?hs \<subseteq> A" using assms(2,3) set by (auto simp: tpn_ok_def)
  have r: "tpn_ok heap num A L (tpn_put H num sl n (tpn, tot, hs))
      \<and> tot \<le> fst (snd (tpn_put H num sl n (tpn, tot, hs)))"
  proof (cases "num < tot + 1")
    case False
    with h1 len cnt out nodes L show "tpn_ok heap num A L (tpn_put H num sl n (tpn, tot, hs))
      \<and> tot \<le> fst (snd (tpn_put H num sl n (tpn, tot, hs)))"
      by (auto simp: tpn_put_def tpn_ok_def Let_def)
  next
    case True
    have ne: "?hs \<noteq> []" using len by auto
    let ?w = "snd (hd ?hs)" and ?hs2 = "butlast (hp_pop H ?hs)"
    note p = std_heap.pop_split(2,3) [OF assms(1) h1 ne]
    have w: "?w \<in> A" using nodes ne by auto
    have c: "count (image_mset snd (mset ?hs)) k = count (image_mset snd (mset ?hs2)) k + (if k = ?w then 1 else 0)" for k
      by (simp only: p(1) image_mset_add_mset) simp
    have "(?tpn[?w := ?tpn ! ?w - 1]) ! k = int (count (image_mset snd (mset ?hs2)) k)" if "k \<in> A" for k
      using cnt [OF that] c [of k] that assms(4) L by (cases "k = ?w") auto
    moreover have "(?tpn[?w := ?tpn ! ?w - 1]) ! k = - 1" if "k < L" "k \<notin> A" for k
      using out [OF that] w that by (metis nth_list_update_neq)
    moreover have "snd ` set ?hs2 \<subseteq> A"
      using nodes arg_cong [OF p(1), of set_mset] by auto
    moreover have "length ?hs2 = tot" by (simp only: p(2) len)
    ultimately show "tpn_ok heap num A L (tpn_put H num sl n (tpn, tot, hs))
      \<and> tot \<le> fst (snd (tpn_put H num sl n (tpn, tot, hs)))"
      using True tot(2) L std_heap.heap_pop [OF assms(1) h1 ne]
      by (auto simp: tpn_put_def tpn_ok_def Let_def simp del: length_butlast)
  qed
  from r show "tpn_ok heap num A L (tpn_put H num sl n (tpn, tot, hs))" by (rule conjunct1)
  from r show "tot \<le> fst (snd (tpn_put H num sl n (tpn, tot, hs)))" by (rule conjunct2)
  show "tot < num \<Longrightarrow> fst (tpn_put H num sl n (tpn, tot, hs)) = tpn[n := tpn ! n + 1]
      \<and> fst (snd (tpn_put H num sl n (tpn, tot, hs))) = tot + 1"
    by (simp add: tpn_put_def Let_def)
qed

text \<open>One pass. While tasks are missing, every node of the pass gets one more.\<close>

lemma pass_result:
  assumes "std_heap pair_less H heap" and "A \<subseteq> {..<L}" and "0 < num" and "0 < k"
    and "\<forall>n j. cost n j \<noteq> None" and "tpn_ok heap num A L (tpn, tot, hs)" and "distinct ns" and "set ns \<subseteq> {..<L}"
  shows "\<exists>again' tpn' tot' hs'. tpn_pass H num cost k ns (again, tpn, tot, hs) = Some (again', tpn', tot', hs')
    \<and> tpn_ok heap num A L (tpn', tot', hs') \<and> tot \<le> tot'
    \<and> (again' \<longrightarrow> again \<or> k \<le> num + 1) \<and> (\<not> again' \<longrightarrow> \<not> again \<and> (tpn', tot', hs') = (tpn, tot, hs))
    \<and> (tot' < num \<longrightarrow> (\<forall>n < L. tpn' ! n = (if n \<in> set ns \<and> tpn ! n = int k - 1 then int k else tpn ! n)))"
  using assms(6-)
proof (induction ns arbitrary: again tpn tot hs)
  case Nil
  then show ?case by simp
next
  case (Cons n ns)
  have n: "n < L" "n \<notin> set ns" "distinct ns" "set ns \<subseteq> {..<L}" using Cons.prems(2,3) by auto
  have ok: "length hs = tot" "tot \<le> num" "length tpn = L" using Cons.prems(1) by (simp_all add: tpn_ok_def)
  have keep: ?case if e: "tpn_pass H num cost k (n # ns) (again, tpn, tot, hs) = tpn_pass H num cost k ns (again, tpn, tot, hs)"
    and m: "tot < num \<Longrightarrow> tpn ! n \<noteq> int k - 1"
  proof -
    from Cons.IH [OF Cons.prems(1) n(3,4), of again] obtain again' tpn' tot' hs' where
      r: "tpn_pass H num cost k ns (again, tpn, tot, hs) = Some (again', tpn', tot', hs')"
        "tpn_ok heap num A L (tpn', tot', hs')" "tot \<le> tot'" "again' \<longrightarrow> again \<or> k \<le> num + 1"
        "\<not> again' \<longrightarrow> \<not> again \<and> (tpn', tot', hs') = (tpn, tot, hs)"
        "tot' < num \<longrightarrow> (\<forall>n < L. tpn' ! n = (if n \<in> set ns \<and> tpn ! n = int k - 1 then int k else tpn ! n))"
      by blast
    have "tot' < num \<longrightarrow> (\<forall>j < L. tpn' ! j = (if j \<in> set (n # ns) \<and> tpn ! j = int k - 1 then int k else tpn ! j))"
    proof (intro impI allI)
      fix j assume "tot' < num" "j < L"
      with m r(3,6) show "tpn' ! j = (if j \<in> set (n # ns) \<and> tpn ! j = int k - 1 then int k else tpn ! j)"
        by (cases "j = n") auto
    qed
    with r(1-5) show ?thesis unfolding e by blast
  qed
  show ?case
  proof (cases "tpn ! n = int k - 1")
    case False
    then show ?thesis by (intro keep) simp_all
  next
    case True
    obtain sl where sl: "cost n k = Some sl" using assms(5) by fastforce
    have nA: "n \<in> A" using Cons.prems(1) True n(1) assms(4) by (force simp: tpn_ok_def)
    show ?thesis
    proof (cases "tot < num \<or> sl < fst (hd hs)")
      case False
      then have "hs \<noteq> []" using ok assms(3) by auto
      with False True sl show ?thesis by (intro keep) simp_all
    next
      case put: True
      obtain tpn1 tot1 hs1 where st: "tpn_put H num sl n (tpn, tot, hs) = (tpn1, tot1, hs1)" by (rule prod_cases3)
      note p = put_ok [OF assms(1) Cons.prems(1) nA assms(2), of sl, unfolded st]
      have "hs \<noteq> [] \<or> tot < num" using ok assms(3) by auto
      then have e: "tpn_pass H num cost k (n # ns) (again, tpn, tot, hs) = tpn_pass H num cost k ns (True, tpn1, tot1, hs1)"
        using put True sl st by auto
      have "int k - 1 = int (count (image_mset snd (mset hs)) n)"
        using Cons.prems(1) nA True by (simp add: tpn_ok_def)
      also have "\<dots> \<le> int (size (image_mset snd (mset hs)))" by (simp only: of_nat_le_iff count_le_size)
      finally have kn: "k \<le> num + 1" using ok by simp
      from Cons.IH [OF p(1) n(3,4), of True] obtain again' tpn' tot' hs' where
        r: "tpn_pass H num cost k ns (True, tpn1, tot1, hs1) = Some (again', tpn', tot', hs')"
          "tpn_ok heap num A L (tpn', tot', hs')" "tot1 \<le> tot'"
          "\<not> again' \<longrightarrow> \<not> True \<and> (tpn', tot', hs') = (tpn1, tot1, hs1)"
          "tot' < num \<longrightarrow> (\<forall>n < L. tpn' ! n = (if n \<in> set ns \<and> tpn1 ! n = int k - 1 then int k else tpn1 ! n))"
        by blast
      have le: "tot \<le> tot1" using p(2) by simp
      have "tot' < num \<longrightarrow> (\<forall>j < L. tpn' ! j = (if j \<in> set (n # ns) \<and> tpn ! j = int k - 1 then int k else tpn ! j))"
      proof (intro impI allI)
        fix j assume j: "tot' < num" "j < L"
        with le r(3) have "tpn1 = tpn[n := tpn ! n + 1]" using p(3) by simp
        with j r(5) n ok(3) True show "tpn' ! j = (if j \<in> set (n # ns) \<and> tpn ! j = int k - 1 then int k else tpn ! j)"
          by (cases "j = n") auto
      qed
      with r le kn show ?thesis unfolding e
        by (intro exI [of _ again'] exI [of _ tpn'] exI [of _ tot'] exI [of _ hs']) auto
    qed
  qed
qed

text \<open>The passes end and leave no task out when some node can run them.\<close>

lemma loop_result:
  assumes "std_heap pair_less H heap" and "A \<subseteq> {..<L}" and "0 < num" and "\<forall>n j. cost n j \<noteq> None"
    and "tpn_ok heap num A L st" and "0 < k" and "k \<le> num + 2" and "num + 3 \<le> fuel + k"
    and "fst (snd st) < num \<longrightarrow> (\<forall>n \<in> A. fst st ! n = int k - 1)"
  shows "\<exists>st'. tpn_loop fuel H num cost k [0..<L] st = Some st' \<and> tpn_ok heap num A L st'
    \<and> (A \<noteq> {} \<longrightarrow> fst (snd st') = num)"
  using assms(5-)
proof (induction fuel arbitrary: k st)
  case 0
  then show ?case by simp
next
  case (Suc fuel)
  obtain tpn tot hs where st: "st = (tpn, tot, hs)" by (rule prod_cases3)
  from pass_result [OF assms(1-3) Suc.prems(2) assms(4), of tpn tot hs "[0..<L]" False] Suc.prems(1) st
  obtain again tpn' tot' hs' where
    r: "tpn_pass H num cost k [0..<L] (False, tpn, tot, hs) = Some (again, tpn', tot', hs')"
      "tpn_ok heap num A L (tpn', tot', hs')" "tot \<le> tot'" "again \<longrightarrow> k \<le> num + 1"
      "\<not> again \<longrightarrow> (tpn', tot', hs') = (tpn, tot, hs)"
      "tot' < num \<longrightarrow> (\<forall>n < L. tpn' ! n = (if tpn ! n = int k - 1 then int k else tpn ! n))"
    by (auto simp: lessThan_atLeast0)
  have all: "tot' < num \<longrightarrow> (\<forall>n \<in> A. tpn' ! n = int k)"
    using r(3,6) Suc.prems(5) st assms(2) by auto
  show ?case
  proof (cases again)
    case True
    from Suc.IH [OF r(2), of "k + 1"] True r(4) Suc.prems(4) all
    show ?thesis using r(1) True st by simp
  next
    case False
    have "tot = num" if "A \<noteq> {}"
    proof (rule ccontr)
      assume "tot \<noteq> num"
      with Suc.prems(1) st have "tot < num" by (simp add: tpn_ok_def)
      moreover from that obtain n where "n \<in> A" by blast
      ultimately show False using all Suc.prems(5) st r(5) False by force
    qed
    with False r(1,2,5) st show ?thesis by auto
  qed
qed

section \<open>Queues and proxies\<close>

definition proxies_match :: "fsp_central \<Rightarrow> bool" where
  "proxies_match c \<longleftrightarrow> length (cf_proxys c) = length (ce_queues c) \<and> length (cf_first c) = length (ce_queues c)
    \<and> (\<forall>n < length (ce_queues c). length (fl_tasks (cf_proxys c ! n)) = length (ce_queues c ! n))"

lemma add_tasks_some:
  "\<exists>fl'. fl_addTasks pre now p k fl = Some fl' \<and> length (fl_tasks fl') = length (fl_tasks fl) + k"
  by (auto simp: fl_addTasks_def add_boundary_values_def)

lemma fl_sort_length [simp]: "length (fl_tasks (fl_sort pre now fl)) = length (fl_tasks fl)"
  using sort_min_result [of pre "fl_tasks fl" now "fl_bounds (fl_computeBoundaries pre now fl)"]
  by (auto simp: fl_sort_def Let_def same_queue_def fl_computeBoundaries_def split: if_splits)

lemma update_deadlines_length [simp]: "length (update_deadlines e sl q) = length q"
  by (cases q) (simp_all add: update_deadlines_def)

lemma init_tpn_result:
  assumes "proxies_match c" and "distinct ns" and "set ns \<subseteq> {..<length (ce_queues c)}" and "length tpn = length (ce_queues c)"
  shows "\<exists>tpn' c'. init_tpn now d nds ns tpn c = Some (tpn', c') \<and> proxies_match c' \<and> ce_queues c' = ce_queues c
    \<and> length tpn' = length tpn \<and> (\<forall>n < length tpn. tpn' ! n = (if n \<in> set ns \<and> node_check d (nds ! n) then 0 else tpn ! n))"
  using assms
proof (induction ns arbitrary: tpn c)
  case Nil
  then show ?case by simp
next
  case (Cons n ns)
  have n: "n < length (ce_queues c)" "n \<notin> set ns" "distinct ns" "set ns \<subseteq> {..<length (ce_queues c)}"
    "length (fl_tasks (cf_proxys c ! n)) = length (ce_queues c ! n)"
    using Cons.prems by (auto simp: proxies_match_def)
  show ?case
  proof (cases "node_check d (nds ! n)")
    case False
    with Cons.IH [OF Cons.prems(1) n(3,4) Cons.prems(4)] n(2,5) show ?thesis by auto
  next
    case True
    let ?c = "case fl_tasks (cf_proxys c ! n) of [] \<Rightarrow> c
        | p # ps \<Rightarrow> c\<lparr>cf_proxys := (cf_proxys c)[n := (cf_proxys c ! n)\<lparr>fl_tasks := p\<lparr>tp_t := secs (cf_first c ! n - now)\<rparr> # ps\<rparr>]\<rparr>"
    have q: "ce_queues ?c = ce_queues c" by (simp split: list.split)
    have "proxies_match ?c"
      using Cons.prems(1) n(1) by (auto simp: proxies_match_def nth_list_update split: list.split)
    from Cons.IH [OF this n(3), of "tpn[n := 0]"] n(4) Cons.prems(4) q
    obtain tpn' c' where r: "init_tpn now d nds ns (tpn[n := 0]) ?c = Some (tpn', c')" "proxies_match c'"
      "ce_queues c' = ce_queues c" "length tpn' = length tpn"
      "\<forall>j < length tpn. tpn' ! j = (if j \<in> set ns \<and> node_check d (nds ! j) then 0 else tpn[n := 0] ! j)"
      by auto
    have "\<forall>j < length tpn. tpn' ! j = (if j \<in> set (n # ns) \<and> node_check d (nds ! j) then 0 else tpn ! j)"
      using r(5) n(1,2) True Cons.prems(4) by (auto simp: nth_list_update)
    with r True n(5) show ?thesis by (intro exI [of _ tpn'] exI [of _ c']) auto
  qed
qed

lemma calculate_tpn_result:
  assumes "std_heap pair_less H heap" and "num \<noteq> 0" and "proxies_match c"
    and A: "A = {n. n < length (ce_queues c) \<and> node_check d (nds ! n)}"
  shows "\<exists>tpn c'. calculate_tpn H pre now d num nds c = Some (tpn, c') \<and> proxies_match c' \<and> ce_queues c' = ce_queues c
    \<and> length tpn = length (ce_queues c) \<and> (\<forall>n < length (ce_queues c). n \<notin> A \<longrightarrow> tpn ! n = - 1)
    \<and> (\<forall>n \<in> A. 0 \<le> tpn ! n) \<and> (A \<noteq> {} \<longrightarrow> (\<Sum>n\<in>A. nat (tpn ! n)) = unat num)"
proof -
  let ?L = "length (ce_queues c)"
  have "set [0..<?L] \<subseteq> {..<?L}" by auto
  from init_tpn_result [OF assms(3) _ this, of "replicate ?L (- 1)" now d nds] obtain tpn c1 where
    i: "init_tpn now d nds [0..<?L] (replicate ?L (- 1)) c = Some (tpn, c1)" "proxies_match c1" "ce_queues c1 = ce_queues c"
      "length tpn = ?L" "\<forall>n < ?L. tpn ! n = (if n \<in> A then 0 else - 1)"
    by (auto simp: A cong: conj_cong)
  let ?cost = "\<lambda>n k. slowness_with pre now (of_nat (unat (td_length d))) (nd_power (nds ! n)) k (cf_proxys c1 ! n)"
  have cost: "\<forall>n k. ?cost n k \<noteq> None"
  proof (intro allI)
    fix n k
    show "?cost n k \<noteq> None"
      using add_tasks_some [of pre now "proxy_of_app (of_nat (unat (td_length d))) (nd_power (nds ! n)) now" k "cf_proxys c1 ! n"]
      by (auto simp: slowness_with_def simp del: of_nat_unat)
  qed
  have AL: "A \<subseteq> {..<?L}" by (auto simp: A)
  have "0 < unat num" using assms(2) by (simp add: unat_gt_0)
  moreover have "tpn_ok heap (unat num) A ?L (tpn, 0, [])"
    using i(4,5) AL std_heap.heap_empty [OF assms(1)] by (auto simp: tpn_ok_def)
  moreover have "\<forall>n \<in> A. tpn ! n = 0" using i(5) AL by auto
  ultimately obtain tpn' tot hs where
    r: "tpn_loop (unat num + 2) H (unat num) ?cost 1 [0..<?L] (tpn, 0, []) = Some (tpn', tot, hs)"
      "tpn_ok heap (unat num) A ?L (tpn', tot, hs)" "A \<noteq> {} \<longrightarrow> tot = unat num"
    using loop_result [OF assms(1) AL _ cost, of "unat num" "(tpn, 0, [])" 1 "unat num + 2"] by auto
  have e: "calculate_tpn H pre now d num nds c = Some (tpn', c1)"
    using i(1) r(1) unfolding calculate_tpn_def by (simp del: of_nat_unat tpn_loop.simps)
  have ok: "\<forall>n \<in> A. tpn' ! n = int (count (image_mset snd (mset hs)) n)" "snd ` set hs \<subseteq> A" "length hs = tot"
    "length tpn' = ?L" "\<forall>n < ?L. n \<notin> A \<longrightarrow> tpn' ! n = - 1"
    using r(2) by (simp_all add: tpn_ok_def)
  have fin: "finite A" by (simp add: A)
  have "size (image_mset snd (mset hs)) = (\<Sum>n\<in>A. count (image_mset snd (mset hs)) n)"
    unfolding size_multiset_overloaded_eq using ok(2) fin
    by (intro sum.mono_neutral_left) (auto simp: count_eq_zero_iff)
  then have "(\<Sum>n\<in>A. nat (tpn' ! n)) = tot" using ok(1,3) by simp
  with e ok r(3) i(2,3) show ?thesis by (intro exI [of _ tpn'] exI [of _ c1]) auto
qed

lemma more_fsp: "central.more c = central.more c' \<Longrightarrow> cf_proxys c = cf_proxys c' \<and> cf_first c = cf_first c'"
  by (cases c; cases c') simp

lemma cfsp_assign_result:
  assumes "proxies_match c" and "distinct ns" and "set ns \<subseteq> {..<length (ce_queues c)}"
  shows "\<exists>c'. cfsp_assign sz pre nds now m tpn i ns c = Some c' \<and> proxies_match c'
    \<and> length (ce_queues c') = length (ce_queues c)
    \<and> (\<forall>n < length (ce_queues c). length (ce_queues c' ! n) =
        length (ce_queues c ! n) + (if n \<in> set ns then nat (tpn ! n) else 0))"
  using assms
proof (induction ns arbitrary: i c)
  case Nil
  then show ?case by simp
next
  case (Cons n ns)
  have n: "n < length (ce_queues c)" "n \<notin> set ns" "distinct ns" "set ns \<subseteq> {..<length (ce_queues c)}"
    using Cons.prems by auto
  show ?case
  proof (cases "0 < tpn ! n")
    case False
    with Cons.IH [OF Cons.prems(1) n(3,4), of i] show ?thesis by auto
  next
    case True
    let ?k = "nat (tpn ! n)" and ?a = "of_nat (unat (td_length (tb_minReq m))) :: rat" and ?pw = "nd_power (nds ! n)"
    obtain fl where fl: "fl_addTasks pre now (proxy_of_app ?a ?pw now) ?k (cf_proxys c ! n) = Some fl"
      "length (fl_tasks fl) = length (fl_tasks (cf_proxys c ! n)) + ?k"
      using add_tasks_some by blast
    let ?fl1 = "fl_sort pre now fl"
    let ?sl = "fl_getSlowness now (fl_tasks ?fl1)"
    let ?task = "(mk_cdesc now (ce_apps c) m)\<lparr>cd_deadline := now + dur_of (?sl * ?a), cd_runtime := dur_of (?a / ?pw)\<rparr>"
    let ?c0 = "c\<lparr>cf_proxys := (cf_proxys c)[n := ?fl1],
        ce_queues := (ce_queues c)[n := update_deadlines (cf_first c ! n - now) ?sl (ce_queues c ! n) @ numbered ?task i ?k]\<rparr>"
    have "n < length (ce_queues ?c0)" "ce_queues ?c0 ! n \<noteq> []" using n(1) True by (simp_all add: numbered_ne)
    from sort_queue_ext [OF this, of sz nds] obtain c1 where
      c1: "sort_queue sz nds n ?c0 = Some c1" "length (ce_queues c1) = length (ce_queues ?c0)"
        "mset (ce_queues c1 ! n) = mset (ce_queues ?c0 ! n)" "\<forall>k. k \<noteq> n \<longrightarrow> ce_queues c1 ! k = ce_queues ?c0 ! k"
        "central.more c1 = central.more ?c0"
      by blast
    let ?c2 = "c1\<lparr>cf_first := (cf_first c1)[n := now + cd_runtime (hd (ce_queues c1 ! n))]\<rparr>"
    have e: "cfsp_assign sz pre nds now m tpn i (n # ns) c = cfsp_assign sz pre nds now m tpn (i + of_nat ?k) ns ?c2"
      using True fl(1) c1(1) by (simp add: Let_def del: of_nat_unat)
    have px: "cf_proxys c1 = (cf_proxys c)[n := ?fl1]" "cf_first c1 = cf_first c" using more_fsp [OF c1(5)] by simp_all
    have ln: "length (ce_queues c1 ! n) = length (ce_queues c ! n) + ?k"
      using mset_eq_length [OF c1(3)] n(1) by simp
    have lk: "\<forall>k. k \<noteq> n \<longrightarrow> ce_queues c1 ! k = ce_queues c ! k" "length (ce_queues c1) = length (ce_queues c)"
      using c1(2,4) by simp_all
    have "proxies_match ?c2"
      unfolding proxies_match_def
    proof (intro conjI allI impI)
      fix j assume "j < length (ce_queues ?c2)"
      then show "length (fl_tasks (cf_proxys ?c2 ! j)) = length (ce_queues ?c2 ! j)"
        using Cons.prems(1) n(1) fl(2) px lk ln by (cases "j = n") (auto simp: proxies_match_def)
    qed (use Cons.prems(1) px lk in \<open>auto simp: proxies_match_def\<close>)
    moreover have "set ns \<subseteq> {..<length (ce_queues ?c2)}" using n(4) lk by simp
    ultimately obtain c' where c': "cfsp_assign sz pre nds now m tpn (i + of_nat ?k) ns ?c2 = Some c'" "proxies_match c'"
      "length (ce_queues c') = length (ce_queues c1)"
      "\<forall>j < length (ce_queues c1). length (ce_queues c' ! j) = length (ce_queues c1 ! j) + (if j \<in> set ns then nat (tpn ! j) else 0)"
      using Cons.IH [of ?c2 "i + of_nat ?k"] n(3) by auto
    have "\<forall>j < length (ce_queues c). length (ce_queues c' ! j) =
        length (ce_queues c ! j) + (if j \<in> set (n # ns) then nat (tpn ! j) else 0)"
    proof (intro allI impI)
      fix j assume "j < length (ce_queues c)"
      then show "length (ce_queues c' ! j) = length (ce_queues c ! j) + (if j \<in> set (n # ns) then nat (tpn ! j) else 0)"
        using c'(4) lk ln n(2) by (cases "j = n") auto
    qed
    with e c' lk show ?thesis by auto
  qed
qed

section \<open>Applications and finished tasks\<close>

lemma cfsp_new_app_result:
  assumes "std_heap pair_less H heap" and "num_tasks m \<noteq> 0" and "proxies_match c"
    and "A = {n. n < length (ce_queues c) \<and> node_check (tb_minReq m) (nds ! n)}"
  shows "\<exists>c' f. cfsp_new_app H sz pre nds now m c = Some c' \<and> proxies_match c'
    \<and> (A \<noteq> {} \<longrightarrow> sum f A = unat (num_tasks m)) \<and> (\<forall>n. n \<notin> A \<longrightarrow> f n = 0)
    \<and> length (ce_queues c') = length (ce_queues c)
    \<and> (\<forall>n < length (ce_queues c). length (ce_queues c' ! n) = length (ce_queues c ! n) + f n)"
proof -
  from calculate_tpn_result [OF assms, of pre now] obtain tpn c1 where
    r: "calculate_tpn H pre now (tb_minReq m) (num_tasks m) nds c = Some (tpn, c1)" "proxies_match c1"
      "ce_queues c1 = ce_queues c" "\<forall>n < length (ce_queues c). n \<notin> A \<longrightarrow> tpn ! n = - 1"
      "A \<noteq> {} \<longrightarrow> (\<Sum>n\<in>A. nat (tpn ! n)) = unat (num_tasks m)"
    by blast
  let ?f = "\<lambda>n. if n \<in> A then nat (tpn ! n) else 0"
  have "set [0..<length (ce_queues c)] \<subseteq> {..<length (ce_queues c1)}" using r(3) by auto
  from cfsp_assign_result [OF r(2) _ this, of sz pre nds now m tpn 1] obtain c' where
    c': "cfsp_assign sz pre nds now m tpn 1 [0..<length (ce_queues c)] c1 = Some c'" "proxies_match c'"
      "length (ce_queues c') = length (ce_queues c)"
      "\<forall>n < length (ce_queues c). length (ce_queues c' ! n) = length (ce_queues c ! n) + nat (tpn ! n)"
    using r(3) by auto
  have "cfsp_new_app H sz pre nds now m c = Some c'" using r(1) c'(1) by (simp add: cfsp_new_app_def)
  moreover have "\<forall>n < length (ce_queues c). length (ce_queues c' ! n) = length (ce_queues c ! n) + ?f n"
    using c'(4) r(4) by auto
  ultimately show ?thesis using c'(2,3) r(5) by (intro exI [of _ c'] exI [of _ ?f]) simp
qed

text \<open>
  C33. The centralised FSP scheduler places every task of an application when some node can run
  them, and none on a node that cannot: its search over the number of tasks per node ends after
  at most two passes more than there are tasks, whatever the slowness the nodes report.
\<close>

theorem cfsp_places_tasks:
  assumes "std_heap pair_less H heap" and "num_tasks m \<noteq> 0" and "proxies_match c"
    and "A = {n. n < length (ce_queues c) \<and> node_check (tb_minReq m) (nds ! n)}" and "A \<noteq> {}"
  shows "\<exists>c' f. cfsp_new_app H sz pre nds now m c = Some c' \<and> sum f A = unat (num_tasks m)
    \<and> (\<forall>n < length (ce_queues c). length (ce_queues c' ! n) = length (ce_queues c ! n) + f n)
    \<and> (\<forall>n. n \<notin> A \<longrightarrow> f n = 0)"
  using cfsp_new_app_result [OF assms(1-4), of sz pre now] assms(5) by blast

lemma example_fsp_match: "proxies_match (mk_fsp_central 3)"
  by (simp add: proxies_match_def mk_fsp_central_def mk_central_def central.defs mk_fsp_list_def)

theorem cfsp_places_tasks_witness:
  "\<exists>c' f. cfsp_new_app (sorted_heap pair_less) (\<lambda>_. 20) False example_nodes 5 example_bag (mk_fsp_central 3) = Some c'
     \<and> sum f {n. n < 3 \<and> node_check (tb_minReq example_bag) (example_nodes ! n)} = (3 :: nat)"
proof -
  have n: "num_tasks example_bag = 3" by (simp add: num_tasks_def example_bag_def)
  then have "num_tasks example_bag \<noteq> 0" by simp
  have l: "length (ce_queues (mk_fsp_central 3)) = 3" by (simp add: mk_fsp_central_def mk_central_def central.defs)
  let ?A = "{n. n < 3 \<and> node_check (tb_minReq example_bag) (example_nodes ! n)}"
  have A: "?A = {n. n < length (ce_queues (mk_fsp_central 3)) \<and> node_check (tb_minReq example_bag) (example_nodes ! n)}"
    by (simp only: l)
  have "0 \<in> ?A" by (simp add: node_check_def example_bag_def mk_taskbag_def mk_task_desc_def)
  then have "?A \<noteq> {}" by blast
  from cfsp_places_tasks [where sz = "\<lambda>_. 20" and pre = False and now = 5,
      OF pair_heap.std_heap_axioms \<open>num_tasks example_bag \<noteq> 0\<close> example_fsp_match A this]
  obtain c' f where "cfsp_new_app (sorted_heap pair_less) (\<lambda>_. 20) False example_nodes 5 example_bag (mk_fsp_central 3) = Some c'"
    "sum f ?A = unat (num_tasks example_bag)"
    by (elim exE conjE)
  moreover from this(2) have "sum f ?A = (3 :: nat)" by (simp only: n) simp
  ultimately show ?thesis by blast
qed

lemma cfsp_finished_match:
  assumes "cfsp_finished now n c = Some c'" and "proxies_match c" and "n < length (ce_queues c)"
  shows "proxies_match c' \<and> length (ce_queues c') = length (ce_queues c)"
proof -
  obtain p ps where p: "fl_tasks (cf_proxys c ! n) = p # ps"
    using assms(1) by (auto simp: cfsp_finished_def split: list.splits)
  then have fl: "fl_tasks (fl_removeTask (tp_id p) (cf_proxys c ! n)) = ps"
    by (simp add: fl_removeTask_def)
  have l: "length (ce_queues c ! n) = Suc (length ps)" using assms(2,3) p by (auto simp: proxies_match_def)
  then have "ce_queues c ! n \<noteq> []" by auto
  then show ?thesis
    using assms p fl l
    by (auto simp: cfsp_finished_def task_finished_def proxies_match_def nth_list_update Let_def split: if_splits)
qed

text \<open>
  C34. What the program asserts of the centralised FSP scheduler holds at every event: each node has
  as many proxies as tasks in its queue, before and after any message passes through the scheduler,
  be it a new application or the end of a task.
\<close>

theorem cfsp_assertion:
  assumes "std_heap pair_less H heap" and "proxies_match c" and "ev_from ev < length (ce_queues c)"
    and "\<forall>m. ev_msg ev = MTaskBag m \<longrightarrow> num_tasks m \<noteq> 0"
    and "block_event (cfsp_new_app H sz pre nds now) (cfsp_finished now) ev c = Some (b, c')"
  shows "proxies_match c' \<and> length (ce_queues c') = length (ce_queues c)"
proof -
  have frame: "proxies_match (c\<lparr>ce_in := i, ce_apps := a\<rparr>) = proxies_match c"
    "proxies_match (c\<lparr>ce_out := i\<rparr>) = proxies_match c" "proxies_match (c\<lparr>ce_in := i\<rparr>) = proxies_match c" for i a
    by (simp_all add: proxies_match_def)
  show ?thesis
  proof (cases "ev_msg ev")
    case (MTaskBag m)
    let ?c = "c\<lparr>ce_in := ce_in c + ucast (ev_size ev), ce_apps := ce_apps c + 1\<rparr>"
    have "num_tasks m \<noteq> 0" using assms(4) MTaskBag by simp
    from cfsp_new_app_result [where c = ?c and sz = sz and pre = pre and now = now and nds = nds,
        OF assms(1) this _ refl] assms(2) frame
    obtain c1 where c1: "cfsp_new_app H sz pre nds now m ?c = Some c1" "proxies_match c1"
      "length (ce_queues c1) = length (ce_queues c)"
      by auto
    show ?thesis
    proof (cases "tb_forEN m")
      case True
      with assms(2,5) MTaskBag frame show ?thesis by (auto simp: block_event_def)
    next
      case False
      with assms(5) MTaskBag c1(1) have "c' = c1" by (simp add: block_event_def)
      with c1 show ?thesis by simp
    qed
  next
    case (MMonitor m)
    with assms cfsp_finished_match [of now "ev_from ev" "c\<lparr>ce_in := ce_in c + ucast (ev_size ev)\<rparr>"] frame
    show ?thesis by (auto simp: block_event_def bind_Some_iff split: if_splits)
  qed (use assms(2,5) in \<open>auto simp: block_event_def\<close>)
qed

definition example_event :: "nat event" where
  "example_event = \<lparr>ev_msg = MTaskBag example_bag, ev_from = 0, ev_inRecvQueue = False, ev_size = 50\<rparr>"

theorem cfsp_assertion_witness:
  "\<exists>c'. block_event (cfsp_new_app (sorted_heap pair_less) (\<lambda>_. 20) False example_nodes 5) (cfsp_finished 5)
      example_event (mk_fsp_central 3) = Some (True, c') \<and> proxies_match c'"
proof -
  let ?c = "(mk_fsp_central 3)\<lparr>ce_in := ce_in (mk_fsp_central 3) + ucast (ev_size example_event),
      ce_apps := ce_apps (mk_fsp_central 3) + 1\<rparr>"
  have n: "num_tasks example_bag \<noteq> 0" by (simp add: num_tasks_def example_bag_def)
  have f: "ev_from example_event < length (ce_queues (mk_fsp_central 3))"
    by (simp add: mk_fsp_central_def mk_central_def central.defs example_event_def)
  have m: "proxies_match ?c" using example_fsp_match by (simp add: proxies_match_def)
  obtain c' where "cfsp_new_app (sorted_heap pair_less) (\<lambda>_. 20) False example_nodes 5 example_bag ?c = Some c'"
    using cfsp_new_app_result [OF pair_heap.std_heap_axioms n m refl] by blast
  moreover have "\<not> tb_forEN example_bag" by (simp add: example_bag_def mk_taskbag_def)
  ultimately have b: "block_event (cfsp_new_app (sorted_heap pair_less) (\<lambda>_. 20) False example_nodes 5) (cfsp_finished 5)
      example_event (mk_fsp_central 3) = Some (True, c')"
    by (simp add: block_event_def example_event_def)
  from cfsp_assertion [OF pair_heap.std_heap_axioms example_fsp_match f _ b] n b show ?thesis
    by (auto simp: example_event_def)
qed

end
