(* ===== verification/Clustering.thy ===== *)
theory Clustering
  imports Std_Heap
begin

text \<open>
  \<open>include/ClusteringList.hpp\<close>: the list of clusters of a summary, and how it is shortened. Each
  cluster keeps its \<open>K\<close> nearest successors; the nearest pair of all is joined, over and over, until
  the list is short enough or no pair is left.

  The methods of the element type are the fields of \<open>cluster_ops\<close>; \<open>H\<close> is the heap of the C++
  library. A pointer to a cluster is its position. The sums that the program keeps in a pool of
  its own, one slot per stored distance, are kept with the distance. \<open>dl_dsts\<close> are the distances
  from the iterator \<open>dst\<close> on.
\<close>

record 't cluster_ops =
  co_value :: "'t \<Rightarrow> 32 word"
  co_kill :: "'t \<Rightarrow> 't" \<comment> \<open>sets the value to zero\<close>
  co_distance :: "'t \<Rightarrow> 't \<Rightarrow> rat"
  co_sum :: "'t \<Rightarrow> 't \<Rightarrow> 't"
  co_far :: "'t \<Rightarrow> 't \<Rightarrow> bool"

record 't dst =
  ds_d :: rat
  ds_v :: "32 word"
  ds_to :: nat
  ds_sum :: 't

record 't dlist =
  dl_src :: nat
  dl_dsts :: "'t dst list"
  dl_dirty :: bool

definition mk_dst :: "'t cluster_ops \<Rightarrow> 't list \<Rightarrow> nat \<Rightarrow> nat \<Rightarrow> 't dst" where
  "mk_dst C cs i j = \<lparr>ds_d = co_distance C (cs ! i) (cs ! j), ds_v = co_value C (cs ! j), ds_to = j,
     ds_sum = co_sum C (cs ! i) (cs ! j)\<rparr>"

text \<open>The new distance goes behind those that are not greater, from the back.\<close>

definition dl_insert :: "'t dst \<Rightarrow> 't dst list \<Rightarrow> 't dst list" where
  "dl_insert e ds = rev (dropWhile (\<lambda>x. ds_d x > ds_d e) (rev ds)) @ [e]
     @ rev (takeWhile (\<lambda>x. ds_d x > ds_d e) (rev ds))"

definition dl_add :: "nat \<Rightarrow> 't dst \<Rightarrow> 't dst list \<Rightarrow> 't dst list" where
  "dl_add K e ds =
    (if length ds < K then dl_insert e ds
     else if ds \<noteq> [] \<and> ds_d e < ds_d (last ds) then dl_insert e (butlast ds)
     else ds)"

definition dl_of :: "'t cluster_ops \<Rightarrow> nat \<Rightarrow> bool \<Rightarrow> 't list \<Rightarrow> nat \<Rightarrow> 't dlist" where
  "dl_of C K far cs i = \<lparr>dl_src = i,
     dl_dsts = fold (\<lambda>j ds. if far \<or> \<not> co_far C (cs ! i) (cs ! j) then dl_add K (mk_dst C cs i j) ds else ds)
       [Suc i..<length cs] [],
     dl_dirty = False\<rparr>"

text \<open>The comparator of the heap: the least distance is at the front.\<close>

definition comp_dl :: "'t dlist \<Rightarrow> 't dlist \<Rightarrow> bool" where
  "comp_dl l r \<longleftrightarrow> dl_dsts l = [] \<or> (dl_dsts r \<noteq> [] \<and> ds_d (hd (dl_dsts l)) > ds_d (hd (dl_dsts r)))"

text \<open>
  No list on the heap is empty. On the others the comparator is a strict weak order, and \<open>dl_less\<close>
  extends it to the empty ones, which the program would leave at the bottom.
\<close>

definition dl_less :: "'t dlist \<Rightarrow> 't dlist \<Rightarrow> bool" where
  "dl_less l r \<longleftrightarrow> dl_dsts r \<noteq> [] \<and> comp_dl l r"

lemma comp_dl_less: "dl_dsts r \<noteq> [] \<Longrightarrow> comp_dl l r = dl_less l r"
  by (simp add: dl_less_def)

interpretation dl_order: heap_order dl_less
  by unfold_locales (auto simp: dl_less_def comp_dl_def)

text \<open>
  The lists of all the clusters, and whether the next time the far ones must be looked at too
  because too few distances were found. The subtraction is one of unsigned numbers.
\<close>

definition check_additions :: "nat \<Rightarrow> bool \<Rightarrow> 't dlist list \<Rightarrow> bool" where
  "check_additions K far ls =
    (far \<or> (of_nat (sum_list (map (length \<circ> dl_dsts) ls)) :: 64 word)
       < of_nat (length ls) * of_nat K - of_nat ((K + 1) * K div 2))"

definition populate :: "'t cluster_ops \<Rightarrow> 't dlist heap_ops \<Rightarrow> nat \<Rightarrow> bool \<Rightarrow> 't list \<Rightarrow> bool \<times> 't dlist list" where
  "populate C H K far cs =
    (let ls = map (dl_of C K far cs) [0..<length cs]
     in (check_additions K far ls, hp_make H (filter (\<lambda>l. dl_dsts l \<noteq> []) ls)))"

definition update_distance :: "'t cluster_ops \<Rightarrow> 't list \<Rightarrow> 't dlist \<Rightarrow> 't dlist" where
  "update_distance C cs l =
    (case dl_dsts l of [] \<Rightarrow> l | e # es \<Rightarrow> l\<lparr>dl_dsts := mk_dst C cs (dl_src l) (ds_to e) # es\<rparr>)"

definition advance :: "'t cluster_ops \<Rightarrow> 't list \<Rightarrow> 't dlist \<Rightarrow> 't dlist" where
  "advance C cs l = l\<lparr>dl_dsts := dropWhile (\<lambda>e. co_value C (cs ! ds_to e) = 0) (dl_dsts l)\<rparr>"

text \<open>After a join, or over a cluster that was joined elsewhere, to the next distance.\<close>

definition requeue :: "'t cluster_ops \<Rightarrow> 't dlist heap_ops \<Rightarrow> 't list \<Rightarrow> 't dlist \<Rightarrow> 't dlist list \<Rightarrow> 't dlist list" where
  "requeue C H cs l rest =
    (let l1 = advance C cs l
     in case dl_dsts l1 of
          [] \<Rightarrow> rest
        | e # _ \<Rightarrow> hp_push H (rest @ [if dl_dirty l1 \<or> ds_v e \<noteq> co_value C (cs ! ds_to e)
                                     then update_distance C cs l1 else l1]))"

text \<open>
  The loop of joins, at most \<open>num\<close> of them. The distances are finite numbers here, so the test for an
  infinite one has no counterpart. A list of distances on the heap is not empty.
\<close>

partial_function (option) join_loop :: "'t cluster_ops \<Rightarrow> 't dlist heap_ops \<Rightarrow> nat \<Rightarrow> 't list \<Rightarrow> 't dlist list \<Rightarrow>
    nat \<Rightarrow> ('t list \<times> nat) option" where
  "join_loop C H num cs hp joined =
    (if hp = [] \<or> num \<le> joined then Some (cs, joined)
     else
       (let hp1 = hp_pop H hp; best = last hp1; rest = butlast hp1
        in if co_value C (cs ! dl_src best) = 0 then join_loop C H num cs rest joined
           else case dl_dsts best of
             [] \<Rightarrow> None
           | e # es \<Rightarrow>
              (if co_value C (cs ! ds_to e) \<noteq> 0 then
                 (if ds_v e \<noteq> co_value C (cs ! ds_to e)
                  then join_loop C H num cs (hp_push H (rest @ [update_distance C cs best])) joined
                  else
                    (let cs1 = cs[dl_src best := ds_sum e, ds_to e := co_kill C (cs ! ds_to e)]
                     in join_loop C H num cs1 (requeue C H cs1 (best\<lparr>dl_dirty := True\<rparr>) rest) (joined + 1)))
               else join_loop C H num cs (requeue C H cs best rest) joined)))"

definition purge :: "'t cluster_ops \<Rightarrow> 't list \<Rightarrow> 't list" where
  "purge C cs = filter (\<lambda>c. co_value C c \<noteq> 0) cs"

partial_function (option) cluster_loop :: "'t cluster_ops \<Rightarrow> 't dlist heap_ops \<Rightarrow> nat \<Rightarrow> nat \<Rightarrow> bool \<Rightarrow> 't list \<Rightarrow>
    't list option" where
  "cluster_loop C H K limit far cs =
    (if limit < length cs then
       Option.bind (join_loop C H (length cs - limit) cs (snd (populate C H K far cs)) 0)
         (\<lambda>(cs1, joined).
            if joined = 0 then Some cs1
            else cluster_loop C H K limit (fst (populate C H K far cs)) (purge C cs1))
     else Some cs)"

definition cluster_list :: "'t cluster_ops \<Rightarrow> 't dlist heap_ops \<Rightarrow> nat \<Rightarrow> nat \<Rightarrow> 't list \<Rightarrow> 't list option" where
  "cluster_list C H K limit cs = cluster_loop C H K limit False cs"

end
