(* ===== verification/Clustering_Props.thy ===== *)
theory Clustering_Props
  imports Clustering
begin

text \<open>
  Shortening a summary ends, and its result comes from the clusters of the summary by joining
  pairs of them: nothing is lost, counted twice or made up, whatever the distances are.
\<close>

section \<open>Joins\<close>

inductive joins :: "('t \<Rightarrow> 't \<Rightarrow> 't) \<Rightarrow> 't multiset \<Rightarrow> 't multiset \<Rightarrow> bool" for f X where
  none: "joins f X X"
| pair: "joins f X (add_mset a (add_mset b Y)) \<Longrightarrow> joins f X (add_mset (f a b) Y)"

lemma joins_trans: "joins f Y Z \<Longrightarrow> joins f X Y \<Longrightarrow> joins f X Z"
  by (induction rule: joins.induct) (auto intro: joins.pair)

abbreviation alive :: "'t cluster_ops \<Rightarrow> 't list \<Rightarrow> 't multiset" where
  "alive C cs \<equiv> mset (purge C cs)"

definition worth :: "'t cluster_ops \<Rightarrow> 't multiset \<Rightarrow> nat" where
  "worth C M = (\<Sum>c\<in>#M. unat (co_value C c))"

text \<open>What the algorithm relies on: the value of a sum is the sum of the values.\<close>

locale summable =
  fixes C :: "'t cluster_ops"
  assumes value_sum: "co_value C (co_sum C a b) = co_value C a + co_value C b"
    and value_kill: "co_value C (co_kill C a) = 0"
begin

lemma worth_joins:
  assumes "joins (co_sum C) X Y" and "worth C X < 2 ^ 32"
  shows "worth C Y = worth C X"
  using assms(1)
proof (induction rule: joins.induct)
  case none
  then show ?case by simp
next
  case (pair a b Y)
  then have "unat (co_value C a) + unat (co_value C b) < 2 ^ 32" using assms(2) by (simp add: worth_def)
  then have "unat (co_value C (co_sum C a b)) = unat (co_value C a) + unat (co_value C b)"
    by (simp add: value_sum unat_word_ariths)
  with pair.IH show ?case by (simp add: worth_def)
qed

text \<open>A property that a sum has only if both parts have it is true of no more than before.\<close>

lemma worth_filter:
  assumes "joins (co_sum C) X Y" and "worth C X < 2 ^ 32" and "\<forall>c \<in># X. P c"
    and "\<And>a b. P a \<Longrightarrow> P b \<Longrightarrow> P (co_sum C a b) \<and> (Q (co_sum C a b) \<longrightarrow> Q a \<and> Q b)"
  shows "(\<forall>c \<in># Y. P c) \<and> worth C (filter_mset Q Y) \<le> worth C (filter_mset Q X)"
  using assms(1)
proof (induction rule: joins.induct)
  case none
  then show ?case using assms(3) by simp
next
  case (pair a b Y)
  have "worth C (add_mset a (add_mset b Y)) < 2 ^ 32" using worth_joins [OF pair.hyps] assms(2) by simp
  then have "unat (co_value C (co_sum C a b)) = unat (co_value C a) + unat (co_value C b)"
    by (simp add: worth_def value_sum unat_word_ariths)
  with pair.IH show ?case using assms(4) [of a b]
    by (cases "Q a"; cases "Q b") (auto simp: worth_def)
qed

lemma worth_pair:
  assumes "worth C (add_mset a (add_mset b Y)) < 2 ^ 32" and "co_value C b \<noteq> 0"
  shows "co_value C a < co_value C (co_sum C a b)"
proof -
  have "unat (co_value C a) + unat (co_value C b) < 2 ^ 32" using assms(1) by (simp add: worth_def)
  then have "unat (co_value C (co_sum C a b)) = unat (co_value C a) + unat (co_value C b)"
    by (simp add: value_sum unat_word_ariths)
  moreover have "0 < unat (co_value C b)" using assms(2) by (simp add: unat_gt_0)
  ultimately show ?thesis by (simp add: word_less_nat_alt)
qed

end

section \<open>The distances stay right\<close>

text \<open>
  A stored distance is of another cluster; if that cluster has not been joined since, the stored
  sum is the sum of the two. Behind the front of a list whose own cluster has grown it need not be.
\<close>

definition entry_ok :: "'t cluster_ops \<Rightarrow> 't list \<Rightarrow> nat \<Rightarrow> bool \<Rightarrow> 't dst \<Rightarrow> bool" where
  "entry_ok C cs i fresh e \<longleftrightarrow> ds_to e < length cs \<and> ds_to e \<noteq> i
    \<and> (co_value C (cs ! ds_to e) = 0 \<or> ds_v e < co_value C (cs ! ds_to e)
        \<or> (ds_v e = co_value C (cs ! ds_to e) \<and> (fresh \<longrightarrow> ds_sum e = co_sum C (cs ! i) (cs ! ds_to e))))"

definition list_ok :: "'t cluster_ops \<Rightarrow> 't list \<Rightarrow> 't dlist \<Rightarrow> bool" where
  "list_ok C cs l \<longleftrightarrow> dl_src l < length cs \<and> dl_dsts l \<noteq> []
    \<and> (co_value C (cs ! dl_src l) \<noteq> 0 \<longrightarrow> entry_ok C cs (dl_src l) True (hd (dl_dsts l))
        \<and> (\<forall>e \<in> set (tl (dl_dsts l)). entry_ok C cs (dl_src l) (\<not> dl_dirty l) e))"

definition heap_ok :: "'t cluster_ops \<Rightarrow> 't list \<Rightarrow> 't dlist list \<Rightarrow> bool" where
  "heap_ok C cs hp \<longleftrightarrow> (\<forall>l \<in> set hp. list_ok C cs l) \<and> distinct (map dl_src hp)"

lemma entry_weaken: "entry_ok C cs i True e \<Longrightarrow> entry_ok C cs i b e"
  by (auto simp: entry_ok_def)

lemma list_ok_entries:
  "list_ok C cs l \<Longrightarrow> co_value C (cs ! dl_src l) \<noteq> 0 \<Longrightarrow> e \<in> set (dl_dsts l) \<Longrightarrow>
    entry_ok C cs (dl_src l) (\<not> dl_dirty l) e"
  unfolding list_ok_def by (cases "dl_dsts l") (auto intro: entry_weaken)

lemma mk_dst_ok: "j < length cs \<Longrightarrow> j \<noteq> i \<Longrightarrow> entry_ok C cs i b (mk_dst C cs i j)"
  by (simp add: entry_ok_def mk_dst_def)

lemma update_distance_ok:
  "list_ok C cs l \<Longrightarrow> co_value C (cs ! dl_src l) \<noteq> 0 \<Longrightarrow> list_ok C cs (update_distance C cs l)"
  by (cases "dl_dsts l") (auto simp: list_ok_def update_distance_def entry_ok_def mk_dst_def)

lemma update_distance_simps [simp]:
  "dl_src (update_distance C cs l) = dl_src l"
  "length (dl_dsts (update_distance C cs l)) = length (dl_dsts l)"
  "dl_dirty (update_distance C cs l) = dl_dirty l"
  by (auto simp: update_distance_def split: list.split)

text \<open>How the entries fare when two clusters are joined.\<close>

lemma entry_join:
  assumes "entry_ok C cs i b e" and "i \<noteq> s" and "i \<noteq> t" and "s \<noteq> t" and "s < length cs" and "t < length cs"
    and "co_value C (cs ! s) < co_value C x" and "co_value C z = 0" and "co_value C (cs ! s) \<noteq> 0"
  shows "entry_ok C (cs[s := x, t := z]) i b e"
  using assms by (auto simp: entry_ok_def nth_list_update)

lemma list_join:
  assumes "list_ok C cs l" and "dl_src l \<noteq> s" and "s \<noteq> t" and "s < length cs" and "t < length cs"
    and "co_value C (cs ! s) < co_value C x" and "co_value C z = 0" and "co_value C (cs ! s) \<noteq> 0"
  shows "list_ok C (cs[s := x, t := z]) l"
  using assms entry_join [of C cs "dl_src l" _ _ s t x z]
  by (cases "dl_src l = t") (auto simp: list_ok_def)

text \<open>A list goes back on the heap with a front that is right, or not at all.\<close>

lemma requeue_result:
  assumes "std_heap lt H heap" and "heap rest" and "heap_ok C cs rest"
    and "dl_src l \<notin> dl_src ` set rest" and "dl_src l < length cs"
    and "\<forall>e \<in> set (dl_dsts l). entry_ok C cs (dl_src l) (\<not> dl_dirty l) e"
  shows "heap (requeue C H cs l rest)" and "heap_ok C cs (requeue C H cs l rest)"
    and "\<exists>M. mset (requeue C H cs l rest) = mset rest + M
      \<and> (\<Sum>l\<in>#M. length (dl_dsts l)) \<le> length (dl_dsts (advance C cs l))"
proof -
  let ?l = "advance C cs l"
  have "heap (requeue C H cs l rest) \<and> heap_ok C cs (requeue C H cs l rest)
    \<and> (\<exists>M. mset (requeue C H cs l rest) = mset rest + M
      \<and> (\<Sum>l\<in>#M. length (dl_dsts l)) \<le> length (dl_dsts ?l))"
  proof (cases "dl_dsts ?l")
    case Nil
    then have "requeue C H cs l rest = rest" by (simp add: requeue_def Let_def)
    with assms(2,3) show ?thesis by (auto intro: exI [of _ "{#}"])
  next
    case (Cons e es)
    let ?n = "if dl_dirty ?l \<or> ds_v e \<noteq> co_value C (cs ! ds_to e) then update_distance C cs ?l else ?l"
    have r: "requeue C H cs l rest = hp_push H (rest @ [?n])" using Cons by (simp add: requeue_def Let_def)
    have src: "dl_src ?n = dl_src l" "length (dl_dsts ?n) = length (dl_dsts ?l)" by (simp_all add: advance_def)
    have "set (dl_dsts ?l) \<subseteq> set (dl_dsts l)" by (auto simp: advance_def dest: set_dropWhileD)
    then have sub: "set (e # es) \<subseteq> set (dl_dsts l)" using Cons by simp
    have eo: "\<forall>x \<in> set (e # es). entry_ok C cs (dl_src l) (\<not> dl_dirty l) x" using assms(6) sub by blast
    have nz: "co_value C (cs ! ds_to e) \<noteq> 0"
      using Cons hd_dropWhile [of "\<lambda>e. co_value C (cs ! ds_to e) = 0" "dl_dsts l"] by (auto simp: advance_def)
    have "list_ok C cs ?n"
    proof (cases "dl_dirty ?l \<or> ds_v e \<noteq> co_value C (cs ! ds_to e)")
      case True
      then show ?thesis using Cons eo assms(5)
        by (auto simp: list_ok_def update_distance_def advance_def entry_ok_def mk_dst_def)
    next
      case False
      then show ?thesis using Cons eo assms(5) nz by (auto simp: list_ok_def advance_def entry_ok_def)
    qed
    then have "heap_ok C cs (hp_push H (rest @ [?n]))"
      using assms(3,4) std_heap.push_set [OF assms(1,2), of ?n] src(1)
        mset_eq_imp_distinct_iff [of "map dl_src (hp_push H (rest @ [?n]))" "dl_src ?n # map dl_src rest"]
        std_heap.mset_push [OF assms(1,2), of ?n]
      by (auto simp: heap_ok_def)
    then show ?thesis
      using std_heap.heap_push [OF assms(1,2)] std_heap.mset_push [OF assms(1,2), of ?n] src(2)
      unfolding r by (auto intro!: exI [of _ "{#?n#}"])
  qed
  then show "heap (requeue C H cs l rest)" and "heap_ok C cs (requeue C H cs l rest)"
    and "\<exists>M. mset (requeue C H cs l rest) = mset rest + M
      \<and> (\<Sum>l\<in>#M. length (dl_dsts l)) \<le> length (dl_dsts ?l)" by blast+
qed

section \<open>The loop of joins\<close>

lemma entry_self:
  assumes "entry_ok C cs s b e" and "s \<noteq> t" and "co_value C z = 0"
  shows "entry_ok C (cs[s := x, t := z]) s False e"
  using assms by (cases "ds_to e = t") (auto simp: entry_ok_def)

lemma alive_join:
  assumes "s < length cs" and "t < length cs" and "s \<noteq> t"
    and "co_value C (cs ! s) \<noteq> 0" and "co_value C (cs ! t) \<noteq> 0"
  obtains Y where "alive C cs = add_mset (cs ! s) (add_mset (cs ! t) Y)"
    and "\<And>x z. co_value C x \<noteq> 0 \<Longrightarrow> co_value C z = 0 \<Longrightarrow> alive C (cs[s := x, t := z]) = add_mset x Y"
proof -
  define S where "S = {0..<length cs} - {s, t}"
  have ins: "{0..<length cs} = insert s (insert t S)" and fin: "finite S" "s \<notin> insert t S" "t \<notin> S"
    using assms by (auto simp: S_def)
  have nth: "mset ds = image_mset ((!) ds) (mset_set (insert s (insert t S)))" if "length ds = length cs" for ds
    by (metis ins map_nth mset_map mset_upt that)
  have split: "mset ds = add_mset (ds ! s) (add_mset (ds ! t) (image_mset ((!) ds) (mset_set S)))"
    if "length ds = length cs" for ds
    using nth [OF that] fin by simp
  have keep: "image_mset ((!) (cs[s := x, t := z])) (mset_set S) = image_mset ((!) cs) (mset_set S)" for x z
    by (rule image_mset_cong) (auto simp: S_def fin)
  let ?Y = "filter_mset (\<lambda>c. co_value C c \<noteq> 0) (image_mset ((!) cs) (mset_set S))"
  show ?thesis
  proof
    show "alive C cs = add_mset (cs ! s) (add_mset (cs ! t) ?Y)"
      using split [of cs] assms by (simp add: purge_def)
    fix x z
    assume "co_value C x \<noteq> 0" and "co_value C z = 0"
    moreover have "mset (cs[s := x, t := z]) = add_mset x (add_mset z (image_mset ((!) cs) (mset_set S)))"
      using split [of "cs[s := x, t := z]"] keep assms by simp
    ultimately show "alive C (cs[s := x, t := z]) = add_mset x ?Y" by (simp add: purge_def)
  qed
qed

text \<open>How many distances are left, and how many fronts are out of date.\<close>

abbreviation left_over :: "'t dlist list \<Rightarrow> nat" where
  "left_over hp \<equiv> \<Sum>l\<in>#mset hp. length (dl_dsts l)"

definition stale :: "'t cluster_ops \<Rightarrow> 't list \<Rightarrow> 't dlist \<Rightarrow> bool" where
  "stale C cs l \<longleftrightarrow> ds_v (hd (dl_dsts l)) \<noteq> co_value C (cs ! ds_to (hd (dl_dsts l)))"

abbreviation stales :: "'t cluster_ops \<Rightarrow> 't list \<Rightarrow> 't dlist list \<Rightarrow> nat" where
  "stales C cs hp \<equiv> size (filter_mset (stale C cs) (mset hp))"

definition ready :: "'t cluster_ops \<Rightarrow> 't list \<Rightarrow> 't dlist \<Rightarrow> bool" where
  "ready C cs l \<longleftrightarrow> co_value C (cs ! dl_src l) \<noteq> 0 \<and> co_value C (cs ! ds_to (hd (dl_dsts l))) \<noteq> 0
    \<and> \<not> stale C cs l"

lemma advance_shorter:
  "dl_dsts l = e # es \<Longrightarrow> co_value C (cs ! ds_to e) = 0 \<Longrightarrow> length (dl_dsts (advance C cs l)) < length (dl_dsts l)"
  by (simp add: advance_def le_imp_less_Suc length_dropWhile_le)

text \<open>The first lists.\<close>

lemma dl_add_set: "set (dl_add K e ds) \<subseteq> insert e (set ds)"
proof -
  have ins: "set (dl_insert e xs) = insert e (set xs)" for xs
  proof -
    have "set (takeWhile (\<lambda>x. ds_d x > ds_d e) (rev xs)) \<union> set (dropWhile (\<lambda>x. ds_d x > ds_d e) (rev xs)) = set xs"
      by (metis set_append set_rev takeWhile_dropWhile_id)
    then show ?thesis by (auto simp: dl_insert_def)
  qed
  show ?thesis unfolding dl_add_def ins [symmetric]
    by (auto simp: ins dest: in_set_butlastD)
qed

lemma dl_of_all:
  assumes "\<And>j. i < j \<Longrightarrow> j < length cs \<Longrightarrow> P (mk_dst C cs i j)"
  shows "\<forall>e \<in> set (dl_dsts (dl_of C K far cs i)). P e"
proof -
  have all: "\<forall>e \<in> set (fold (\<lambda>j ds. if far \<or> \<not> co_far C (cs ! i) (cs ! j) then dl_add K (mk_dst C cs i j) ds else ds) js ds).
      P e"
    if "\<forall>e \<in> set ds. P e" and "set js \<subseteq> {Suc i..<length cs}" for js ds
    using that
  proof (induction js arbitrary: ds)
    case (Cons j js)
    have "P (mk_dst C cs i j)" using Cons.prems(2) by (intro assms) auto
    then have "\<forall>e \<in> set (dl_add K (mk_dst C cs i j) ds). P e"
      using dl_add_set [of K "mk_dst C cs i j" ds] Cons.prems(1) by blast
    then show ?case using Cons.IH Cons.prems by simp
  qed simp
  show ?thesis using all [of "[]" "[Suc i..<length cs]"] by (simp add: dl_of_def)
qed

lemma dl_of_ok:
  assumes "i < length cs" and "dl_dsts (dl_of C K far cs i) \<noteq> []"
  shows "list_ok C cs (dl_of C K far cs i)"
proof -
  have "\<forall>e \<in> set (dl_dsts (dl_of C K far cs i)). entry_ok C cs i True e"
    by (rule dl_of_all) (simp add: mk_dst_ok)
  with assms show ?thesis
    by (cases "dl_dsts (dl_of C K far cs i)") (simp_all add: list_ok_def, simp_all add: dl_of_def)
qed

lemma dl_of_ready:
  assumes "\<forall>c \<in> set cs. co_value C c \<noteq> 0" and "i < length cs" and "dl_dsts (dl_of C K far cs i) \<noteq> []"
  shows "ready C cs (dl_of C K far cs i)"
proof -
  have "\<forall>e \<in> set (dl_dsts (dl_of C K far cs i)). co_value C (cs ! ds_to e) \<noteq> 0 \<and> ds_v e = co_value C (cs ! ds_to e)"
    by (rule dl_of_all) (use assms(1) in \<open>simp add: mk_dst_def\<close>)
  moreover have "dl_src (dl_of C K far cs i) = i" by (simp add: dl_of_def)
  ultimately show ?thesis using assms hd_in_set [OF assms(3)] by (simp add: ready_def stale_def)
qed

text \<open>A cluster with a near one after it has a distance to store.\<close>

lemma dl_of_nonempty:
  assumes "0 < K" and "i < j" and "j < length cs" and "far \<or> \<not> co_far C (cs ! i) (cs ! j)"
  shows "dl_dsts (dl_of C K far cs i) \<noteq> []"
proof -
  let ?f = "\<lambda>j ds. if far \<or> \<not> co_far C (cs ! i) (cs ! j) then dl_add K (mk_dst C cs i j) ds else ds"
  have add: "dl_add K e ds \<noteq> []" for e and ds :: "'a dst list"
    using assms(1) by (auto simp: dl_add_def dl_insert_def)
  have keep: "fold ?f js ds \<noteq> []" if "ds \<noteq> []" for js ds
    using that by (induction js arbitrary: ds) (simp_all add: add)
  have "[Suc i..<length cs] = [Suc i..<j] @ [j..<length cs]"
    using upt_add_eq_append [of "Suc i" j "length cs - j"] assms(2,3) by simp
  then have "[Suc i..<length cs] = [Suc i..<j] @ j # [Suc j..<length cs]"
    using assms(3) by (simp add: upt_conv_Cons)
  then show ?thesis using assms(4) keep [OF add] by (simp add: dl_of_def)
qed

lemma sum_mset_filter_zero: "(\<Sum>c\<in>#filter_mset (\<lambda>c. f c \<noteq> 0) M. unat (f c)) = (\<Sum>c\<in>#M. unat (f c))"
  by (induction M) auto

definition all_far :: "'t cluster_ops \<Rightarrow> 't list \<Rightarrow> bool" where
  "all_far C cs \<longleftrightarrow> (\<forall>j < length cs. \<forall>i < j. co_far C (cs ! i) (cs ! j))"

locale clusterer = summable C + std_heap lt H heap
  for C :: "'t cluster_ops" and lt and H :: "'t dlist heap_ops" and heap
begin

lemma join_step:
  assumes "list_ok C cs best" and "heap_ok C cs rest" and "dl_src best \<notin> dl_src ` set rest" and "heap rest"
    and "co_value C (cs ! dl_src best) \<noteq> 0" and "dl_dsts best = e # es"
    and "co_value C (cs ! ds_to e) \<noteq> 0" and "ds_v e = co_value C (cs ! ds_to e)" and "worth C (alive C cs) < 2 ^ 32"
  defines "cs1 \<equiv> cs[dl_src best := ds_sum e, ds_to e := co_kill C (cs ! ds_to e)]"
  defines "hp1 \<equiv> requeue C H cs1 (best\<lparr>dl_dirty := True\<rparr>) rest"
  shows "heap hp1" and "heap_ok C cs1 hp1" and "joins (co_sum C) (alive C cs) (alive C cs1)"
    and "size (alive C cs) = Suc (size (alive C cs1))"
proof -
  let ?s = "dl_src best" and ?t = "ds_to e"
  have ok: "?s < length cs" "?t < length cs" "?t \<noteq> ?s" and sum: "ds_sum e = co_sum C (cs ! ?s) (cs ! ?t)"
    using assms(1,5,6,7,8) by (auto simp: list_ok_def entry_ok_def)
  obtain Y where Y: "alive C cs = add_mset (cs ! ?s) (add_mset (cs ! ?t) Y)"
    and Y1: "\<And>x z. co_value C x \<noteq> 0 \<Longrightarrow> co_value C z = 0 \<Longrightarrow> alive C (cs[?s := x, ?t := z]) = add_mset x Y"
    using alive_join [of ?s cs ?t C] ok assms(5,7) by metis
  have grow: "co_value C (cs ! ?s) < co_value C (ds_sum e)"
    using worth_pair [of "cs ! ?s" "cs ! ?t" Y] assms(7,9) by (simp add: Y sum)
  then have nz: "co_value C (ds_sum e) \<noteq> 0" by auto
  have al: "alive C cs1 = add_mset (ds_sum e) Y" using Y1 [OF nz value_kill] by (simp add: cs1_def)
  show "joins (co_sum C) (alive C cs) (alive C cs1)"
    unfolding al sum by (rule joins.pair) (use Y in \<open>simp add: joins.none\<close>)
  show "size (alive C cs) = Suc (size (alive C cs1))" using al Y by simp
  have "list_ok C cs1 l" if "l \<in> set rest" for l
  proof -
    have "dl_src l \<noteq> ?s" using that assms(3) by (metis imageI)
    then show ?thesis unfolding cs1_def
      by (intro list_join) (use that assms(2,5) ok grow value_kill in \<open>auto simp: heap_ok_def\<close>)
  qed
  then have r: "heap_ok C cs1 rest" using assms(2) by (simp add: heap_ok_def)
  have ents: "\<forall>x \<in> set (dl_dsts best). entry_ok C cs1 ?s False x"
    using list_ok_entries [OF assms(1,5)] entry_self [of C cs ?s _ _ ?t] ok value_kill
    by (simp add: cs1_def) metis
  note q = requeue_result [of lt H heap rest C cs1 "best\<lparr>dl_dirty := True\<rparr>", OF std_heap_axioms assms(4) r]
  show "heap hp1" and "heap_ok C cs1 hp1"
    unfolding hp1_def using q(1,2) assms(3) ents ok(1) by (simp_all add: cs1_def)
qed

lemma join_loop_total:
  assumes "heap hp" and "heap_ok C cs hp" and "worth C (alive C cs) < 2 ^ 32"
  shows "\<exists>cs' j. join_loop C H num cs hp joined = Some (cs', j) \<and> joins (co_sum C) (alive C cs) (alive C cs')
    \<and> size (alive C cs') + j = size (alive C cs) + joined \<and> length cs' = length cs
    \<and> joined \<le> j \<and> j \<le> max num joined \<and> (j = joined \<longrightarrow> cs' = cs)
    \<and> (joined < num \<longrightarrow> hp \<noteq> [] \<longrightarrow> ready C cs (hd hp) \<longrightarrow> joined < j)"
  using assms
proof (induction "(num - joined, left_over hp, stales C cs hp)" arbitrary: cs hp joined
    rule: wf_induct_rule [OF wf_lex_prod [OF wf_less_than wf_lex_prod [OF wf_less_than wf_less_than]]])
  case (1 cs hp joined)
  let ?G = "\<lambda>cs hp joined. \<exists>cs' j. join_loop C H num cs hp joined = Some (cs', j)
    \<and> joins (co_sum C) (alive C cs) (alive C cs') \<and> size (alive C cs') + j = size (alive C cs) + joined \<and> length cs' = length cs
    \<and> joined \<le> j \<and> j \<le> max num joined \<and> (j = joined \<longrightarrow> cs' = cs)
    \<and> (joined < num \<longrightarrow> hp \<noteq> [] \<longrightarrow> ready C cs (hd hp) \<longrightarrow> joined < j)"
  have IH: "?G cs2 hp2 j2" if "num - j2 < num - joined \<or> num - j2 = num - joined \<and> (left_over hp2 < left_over hp
      \<or> left_over hp2 = left_over hp \<and> stales C cs2 hp2 < stales C cs hp)"
    and "heap hp2" and "heap_ok C cs2 hp2" and "worth C (alive C cs2) < 2 ^ 32" for cs2 hp2 j2
    using 1(1) [of j2 hp2 cs2] that by (simp add: in_lex_prod)
  show ?case
  proof (cases "hp = [] \<or> num \<le> joined")
    case True
    then show ?thesis by (subst join_loop.simps) (auto intro: joins.none)
  next
    case False
    then have hpne: "hp \<noteq> []" and j: "joined < num" by auto
    let ?hp1 = "hp_pop H hp"
    let ?best = "last ?hp1" and ?rest = "butlast ?hp1"
    have best: "?best = hd hp" and ms: "mset hp = add_mset ?best (mset ?rest)" and hr: "heap ?rest"
      using last_pop pop_split(2) heap_pop 1(2) hpne by auto
    have lo: "list_ok C cs ?best" using 1(3) hpne by (simp add: best heap_ok_def)
    have "mset (map dl_src hp) = add_mset (dl_src ?best) (mset (map dl_src ?rest))" using ms by simp
    then have "distinct (dl_src ?best # map dl_src ?rest)"
      using 1(3) mset_eq_imp_distinct_iff [of "map dl_src hp" "dl_src ?best # map dl_src ?rest"]
      by (simp add: heap_ok_def)
    moreover have "set ?rest \<subseteq> set hp" using arg_cong [OF ms, of set_mset] by auto
    ultimately have ro: "heap_ok C cs ?rest" and src: "dl_src ?best \<notin> dl_src ` set ?rest"
      using 1(3) by (auto simp: heap_ok_def)
    obtain e es where ds: "dl_dsts ?best = e # es" using lo by (cases "dl_dsts ?best") (auto simp: list_ok_def)
    note step = join_loop.simps [of C H num cs hp joined]
    show ?thesis
    proof (cases "co_value C (cs ! dl_src ?best) = 0")
      case True
      have "left_over ?rest < left_over hp" using ms ds by simp
      then have "?G cs ?rest joined" by (intro IH [OF _ hr ro 1(4)]) simp
      moreover have "join_loop C H num cs hp joined = join_loop C H num cs ?rest joined"
        using False True by (subst step) (simp add: Let_def)
      ultimately show ?thesis using True by (auto simp: ready_def best [symmetric])
    next
      case src_live: False
      show ?thesis
      proof (cases "co_value C (cs ! ds_to e) = 0")
        case True
        let ?q = "requeue C H cs ?best ?rest"
        have sl: "dl_src ?best < length cs" using lo by (simp add: list_ok_def)
        have ents: "\<forall>e \<in> set (dl_dsts ?best). entry_ok C cs (dl_src ?best) (\<not> dl_dirty ?best) e"
          using list_ok_entries [OF lo src_live] by blast
        note q = requeue_result [OF std_heap_axioms hr ro src sl ents]
        obtain M where "mset ?q = mset ?rest + M"
          and "(\<Sum>l\<in>#M. length (dl_dsts l)) \<le> length (dl_dsts (advance C cs ?best))" using q(3) by blast
        then have "left_over ?q < left_over hp"
          using advance_shorter [of ?best e es C cs, OF ds True] ms by simp
        then have "?G cs ?q joined" by (intro IH [OF _ q(1,2) 1(4)]) simp
        moreover have "join_loop C H num cs hp joined = join_loop C H num cs ?q joined"
          using False src_live True ds by (subst step) (simp add: Let_def)
        ultimately show ?thesis using True by (auto simp: ready_def best [symmetric] ds)
      next
        case dst_live: False
        show ?thesis
        proof (cases "ds_v e = co_value C (cs ! ds_to e)")
          case True
          note js = join_step [OF lo ro src hr src_live ds dst_live True 1(4)]
          let ?cs1 = "cs[dl_src ?best := ds_sum e, ds_to e := co_kill C (cs ! ds_to e)]"
          let ?q = "requeue C H ?cs1 (?best\<lparr>dl_dirty := True\<rparr>) ?rest"
          have w: "worth C (alive C ?cs1) < 2 ^ 32" using worth_joins [OF js(3) 1(4)] 1(4) by simp
          have "num - Suc joined < num - joined" using j by simp
          then have "?G ?cs1 ?q (Suc joined)" by (intro IH [OF _ js(1,2) w]) simp
          moreover have "join_loop C H num cs hp joined = join_loop C H num ?cs1 ?q (Suc joined)"
            using False src_live dst_live True ds by (subst step) (simp add: Let_def)
          ultimately show ?thesis using joins_trans [OF _ js(3)] js(4) j by fastforce
        next
          case False
          let ?u = "update_distance C cs ?best"
          let ?q = "hp_push H (?rest @ [?u])"
          have uo: "list_ok C cs ?u" by (rule update_distance_ok [OF lo src_live])
          have mq: "mset ?q = add_mset ?u (mset ?rest)" by (rule mset_push [OF hr])
          have "distinct (map dl_src ?q)"
            using src ro mset_eq_imp_distinct_iff [of "map dl_src ?q" "dl_src ?u # map dl_src ?rest"] mq
            by (simp add: heap_ok_def)
          then have qo: "heap_ok C cs ?q" using uo ro push_set [OF hr, of ?u] by (simp add: heap_ok_def)
          have "left_over ?q = left_over hp" using ms mq by simp
          moreover have "stales C cs ?q < stales C cs hp"
            using ms mq ds False by (simp add: stale_def update_distance_def mk_dst_def)
          ultimately have "?G cs ?q joined" by (intro IH [OF _ heap_push [OF hr] qo 1(4)]) simp
          moreover have "join_loop C H num cs hp joined = join_loop C H num cs ?q joined"
            using hpne j src_live dst_live False ds by (subst step) (simp add: Let_def)
          ultimately show ?thesis using False by (auto simp: ready_def stale_def best [symmetric] ds)
        qed
      qed
    qed
  qed
qed

text \<open>The lists of a new round are right.\<close>

lemma populate_ok: "heap (snd (populate C H K far cs))" "heap_ok C cs (snd (populate C H K far cs))"
proof -
  define ls where "ls = filter (\<lambda>l. dl_dsts l \<noteq> []) (map (dl_of C K far cs) [0..<length cs])"
  have snd: "snd (populate C H K far cs) = hp_make H ls" by (simp add: populate_def Let_def ls_def)
  show "heap (snd (populate C H K far cs))" unfolding snd by (rule heap_make)
  have "distinct (map dl_src (map (dl_of C K far cs) [0..<length cs]))" by (simp add: dl_of_def comp_def)
  then have "distinct (map dl_src ls)" unfolding ls_def by (rule distinct_map_filter)
  then have "distinct (map dl_src (hp_make H ls))"
    using mset_eq_imp_distinct_iff [of "map dl_src (hp_make H ls)" "map dl_src ls"] by (simp add: mset_make)
  moreover have "\<forall>l \<in> set ls. list_ok C cs l" using dl_of_ok by (fastforce simp: ls_def)
  ultimately show "heap_ok C cs (snd (populate C H K far cs))" unfolding snd heap_ok_def make_set(1) by blast
qed

lemma populate_ready:
  assumes "0 < K" and "\<forall>c \<in> set cs. co_value C c \<noteq> 0" and "\<not> all_far C cs"
  shows "snd (populate C H K far cs) \<noteq> [] \<and> ready C cs (hd (snd (populate C H K far cs)))"
proof -
  define ls where "ls = filter (\<lambda>l. dl_dsts l \<noteq> []) (map (dl_of C K far cs) [0..<length cs])"
  have set: "set (snd (populate C H K far cs)) = set ls" by (simp add: populate_def Let_def ls_def make_set)
  obtain i j where "i < j" "j < length cs" "\<not> co_far C (cs ! i) (cs ! j)" using assms(3) by (auto simp: all_far_def)
  then have "dl_of C K far cs i \<in> set ls" using dl_of_nonempty [OF assms(1), of i j cs far C] by (simp add: ls_def)
  then have ne: "snd (populate C H K far cs) \<noteq> []" using set by auto
  have "ready C cs l" if "l \<in> set ls" for l using that dl_of_ready [OF assms(2)] by (auto simp: ls_def)
  with hd_in_set [OF ne] set ne show ?thesis by blast
qed

lemma worth_alive: "worth C (alive C xs) = worth C (mset xs)"
  by (simp add: worth_def purge_def sum_mset_filter_zero)

text \<open>One round.\<close>

lemma round:
  assumes "worth C (mset cs) < 2 ^ 32"
  obtains cs1 j where "join_loop C H num cs (snd (populate C H K far cs)) 0 = Some (cs1, j)"
    and "joins (co_sum C) (alive C cs) (alive C cs1)" and "length (purge C cs1) + j = length (purge C cs)"
    and "worth C (mset cs1) = worth C (mset cs)" and "j \<le> num" and "j = 0 \<Longrightarrow> cs1 = cs"
    and "j = 0 \<Longrightarrow> 0 < num \<Longrightarrow> 0 < K \<Longrightarrow> \<forall>c \<in> set cs. co_value C c \<noteq> 0 \<Longrightarrow> all_far C cs"
proof -
  let ?hp = "snd (populate C H K far cs)"
  have w: "worth C (alive C cs) < 2 ^ 32" using assms by (simp only: worth_alive)
  from join_loop_total [OF populate_ok w, of num K far 0] obtain cs1 j
    where loop: "join_loop C H num cs ?hp 0 = Some (cs1, j)"
      and js: "joins (co_sum C) (alive C cs) (alive C cs1)"
      and sz: "size (alive C cs1) + j = size (alive C cs) + 0"
      and j: "j \<le> max num 0" "j = 0 \<longrightarrow> cs1 = cs"
        "0 < num \<longrightarrow> ?hp \<noteq> [] \<longrightarrow> ready C cs (hd ?hp) \<longrightarrow> 0 < j"
    by (elim exE conjE) rule
  have "worth C (mset cs1) = worth C (mset cs)" using worth_joins [OF js w] by (simp only: worth_alive)
  moreover have "all_far C cs" if "j = 0" "0 < num" "0 < K" "\<forall>c \<in> set cs. co_value C c \<noteq> 0"
    using j(3) populate_ready [OF that(3,4)] that(1,2) by blast
  moreover have "length (purge C cs1) + j = length (purge C cs)" using sz by (simp only: size_mset add_0_right)
  ultimately show ?thesis using j(1,2) by (intro that [OF loop js]) simp_all
qed

lemma cluster_loop_total:
  assumes "worth C (mset cs) < 2 ^ 32"
  shows "\<exists>cs'. cluster_loop C H K limit far cs = Some cs' \<and> joins (co_sum C) (alive C cs) (alive C cs')
    \<and> worth C (mset cs') = worth C (mset cs)
    \<and> (0 < K \<longrightarrow> (\<forall>c \<in> set cs. co_value C c \<noteq> 0) \<longrightarrow>
        (\<forall>c \<in> set cs'. co_value C c \<noteq> 0) \<and> (length cs' \<le> limit \<or> all_far C cs') \<and> min limit (length cs) \<le> length cs')"
  using assms
proof (induction "length cs" arbitrary: cs far rule: less_induct)
  case less
  show ?case
  proof (cases "limit < length cs")
    case False
    then show ?thesis by (subst cluster_loop.simps) (simp add: joins.none)
  next
    case True
    obtain cs1 j where loop: "join_loop C H (length cs - limit) cs (snd (populate C H K far cs)) 0 = Some (cs1, j)"
      and js: "joins (co_sum C) (alive C cs) (alive C cs1)" and len: "length (purge C cs1) + j = length (purge C cs)"
      and w: "worth C (mset cs1) = worth C (mset cs)" and j: "j \<le> length cs - limit" "j = 0 \<Longrightarrow> cs1 = cs"
      "j = 0 \<Longrightarrow> 0 < length cs - limit \<Longrightarrow> 0 < K \<Longrightarrow> \<forall>c \<in> set cs. co_value C c \<noteq> 0 \<Longrightarrow> all_far C cs"
      using round [OF less.prems, of "length cs - limit" K far] by metis
    show ?thesis
    proof (cases "j = 0")
      case True
      with loop \<open>limit < length cs\<close> js w j show ?thesis by (subst cluster_loop.simps) simp
    next
      case False
      let ?far = "fst (populate C H K far cs)"
      have "length (purge C cs) \<le> length cs" by (simp add: purge_def)
      with len False have short: "length (purge C cs1) < length cs" by linarith
      have w1: "worth C (mset (purge C cs1)) < 2 ^ 32" using less.prems w by (simp add: worth_alive)
      note IH = less.hyps [OF short w1, of ?far]
      have eq: "cluster_loop C H K limit far cs = cluster_loop C H K limit ?far (purge C cs1)"
        using loop \<open>limit < length cs\<close> False by (subst cluster_loop.simps) simp
      have al: "\<forall>c \<in> set (purge C cs1). co_value C c \<noteq> 0" "purge C (purge C cs1) = purge C cs1"
        by (auto simp: purge_def)
      have long: "min limit (length cs) \<le> length (purge C cs1)" if "\<forall>c \<in> set cs. co_value C c \<noteq> 0"
        using len j(1) \<open>limit < length cs\<close> that by (simp add: purge_def)
      from IH obtain cs' where "cluster_loop C H K limit ?far (purge C cs1) = Some cs'"
        and "joins (co_sum C) (alive C cs1) (alive C cs')" and "worth C (mset cs') = worth C (mset cs)"
        and "0 < K \<Longrightarrow> (\<forall>c \<in> set cs'. co_value C c \<noteq> 0) \<and> (length cs' \<le> limit \<or> all_far C cs')
          \<and> min limit (length (purge C cs1)) \<le> length cs'"
        using al w by (auto simp: worth_alive)
      with eq joins_trans [OF _ js] long show ?thesis by fastforce
    qed
  qed
qed

lemma worth_filter_alive: "worth C (filter_mset Q (alive C xs)) = worth C (mset (filter Q xs))"
proof -
  have "filter_mset Q (alive C xs) = filter_mset (\<lambda>c. co_value C c \<noteq> 0) (mset (filter Q xs))"
    by (simp add: purge_def filter_filter_mset conj_commute)
  then show ?thesis by (simp add: worth_def sum_mset_filter_zero)
qed

text \<open>The result of the whole algorithm.\<close>

lemma cluster_list_result:
  assumes "worth C (mset cs) < 2 ^ 32" and "\<forall>c \<in> set cs. P c"
  shows "\<exists>cs'. cluster_list C H K n cs = Some cs' \<and> worth C (mset cs') = worth C (mset cs)
    \<and> (\<forall>Q. (\<forall>a b. P a \<longrightarrow> P b \<longrightarrow> P (co_sum C a b) \<and> (Q (co_sum C a b) \<longrightarrow> Q a \<and> Q b)) \<longrightarrow>
        worth C (mset (filter Q cs')) \<le> worth C (mset (filter Q cs)))"
proof -
  from cluster_loop_total [OF assms(1), of K n False] obtain cs'
    where c: "cluster_list C H K n cs = Some cs'" and j: "joins (co_sum C) (alive C cs) (alive C cs')"
      and w: "worth C (mset cs') = worth C (mset cs)"
    by (auto simp: cluster_list_def)
  have "worth C (mset (filter Q cs')) \<le> worth C (mset (filter Q cs))"
    if "\<And>a b. P a \<Longrightarrow> P b \<Longrightarrow> P (co_sum C a b) \<and> (Q (co_sum C a b) \<longrightarrow> Q a \<and> Q b)" for Q
  proof -
    have "\<forall>c \<in># alive C cs. P c" using assms(2) by (auto simp: purge_def)
    with worth_filter [OF j _ _ that] assms(1) show ?thesis by (simp only: worth_alive worth_filter_alive)
  qed
  with c w show ?thesis by blast
qed

end

end
