(* ===== verification/Ibp_Clustering.thy ===== *)
theory Ibp_Clustering
  imports Ibp_Info Clustering_Props
begin

text \<open>
  The clusters of free nodes of \<open>include/IBPAvailabilityInformation.hpp\<close> with the clustering of
  \<open>include/ClusteringList.hpp\<close>: \<open>reduce\<close> ends, keeps every node and never promises a task more
  nodes than the summary did before. How short the result is depends on \<open>far\<close>. The distances, which
  the program computes in floating point, are exact here; none of the theorems depends on them.
\<close>

section \<open>The operations of a cluster\<close>

definition mp_norm :: "interval \<Rightarrow> 32 word \<Rightarrow> min_param \<Rightarrow> rat" where
  "mp_norm r n p = (if iv_empty r then 0
    else of_int (sint (mp_mse p)) / (of_int (uint n) * of_int (sint (iv_extent r)) * of_int (sint (iv_extent r))))"

definition mp_cell :: "interval \<Rightarrow> nat \<Rightarrow> min_param \<Rightarrow> 32 word" where
  "mp_cell r k p = word_of_int \<lfloor>(of_int (sint (mp_parameter p - iv_min r)) * of_nat k / of_int (sint (iv_extent r)) :: rat)\<rfloor>"

definition mp_far :: "interval \<Rightarrow> nat \<Rightarrow> min_param \<Rightarrow> min_param \<Rightarrow> bool" where
  "mp_far r k p q \<longleftrightarrow> \<not> iv_empty r \<and> mp_cell r k p \<noteq> mp_cell r k q"

definition md_distance :: "interval \<Rightarrow> interval \<Rightarrow> md_cluster \<Rightarrow> md_cluster \<Rightarrow> rat" where
  "md_distance mem disk c d = (let s = md_aggregate c d
     in mp_norm mem (md_value s) (md_minM s) + mp_norm disk (md_value s) (md_minD s))"

definition md_far :: "interval \<Rightarrow> interval \<Rightarrow> nat \<Rightarrow> md_cluster \<Rightarrow> md_cluster \<Rightarrow> bool" where
  "md_far mem disk k c d \<longleftrightarrow> mp_far mem k (md_minM c) (md_minM d) \<or> mp_far disk k (md_minD c) (md_minD d)"

definition md_ops :: "interval \<Rightarrow> interval \<Rightarrow> nat \<Rightarrow> md_cluster cluster_ops" where
  "md_ops mem disk k = \<lparr>co_value = md_value, co_kill = (\<lambda>c. c\<lparr>md_value := 0\<rparr>),
     co_distance = md_distance mem disk, co_sum = md_aggregate, co_far = md_far mem disk k\<rparr>"

text \<open>\<open>numClusters\<close> and the integer square root of it, \<open>numIntervals\<close>, are static fields.\<close>

definition md_reduce :: "md_cluster dlist heap_ops \<Rightarrow> nat \<Rightarrow> nat \<Rightarrow> nat \<Rightarrow> ibp_info \<Rightarrow> ibp_info option" where
  "md_reduce H K n k i = map_option (\<lambda>cs. i\<lparr>ii_summary := cs\<rparr>)
     (cluster_list (md_ops (ii_memory i) (ii_disk i) k) H K n (ii_summary i))"

lemma md_ops_simps [simp]:
  "co_value (md_ops mem disk k) = md_value" "co_sum (md_ops mem disk k) = md_aggregate"
  "co_far (md_ops mem disk k) = md_far mem disk k"
  "md_value (md_aggregate c d) = md_value c + md_value d"
  "mp_parameter (md_minM (md_aggregate c d)) = mp_reduce (mp_parameter (md_minM c)) (mp_parameter (md_minM d))"
  "mp_parameter (md_minD (md_aggregate c d)) = mp_reduce (mp_parameter (md_minD c)) (mp_parameter (md_minD d))"
  by (simp_all add: md_ops_def md_aggregate_def mp_aggregate_def Let_def)

interpretation md: summable "md_ops mem disk k" for mem disk k
  by unfold_locales (simp_all add: md_ops_def md_aggregate_def)

interpretation md_sorted: clusterer "md_ops mem disk k" dl_less "sorted_heap dl_less"
    "sorted_wrt (\<lambda>a b. \<not> dl_less a b)" for mem disk k
  by (intro clusterer.intro md.summable_axioms dl_order.sorted_range)

section \<open>What a join keeps\<close>

text \<open>The nodes that a summary promises to a request; the parameters are sizes, not negative.\<close>

definition nodes_for :: "task_desc \<Rightarrow> md_cluster list \<Rightarrow> nat" where
  "nodes_for req cs = (\<Sum>c \<leftarrow> filter (md_fulfills req) cs. unat (md_value c))"

definition param_ok :: "md_cluster \<Rightarrow> bool" where
  "param_ok c \<longleftrightarrow> mp_parameter (md_minM c) < 2 ^ 31 \<and> mp_parameter (md_minD c) < 2 ^ 31"

lemma worth_nodes:
  "worth (md_ops mem disk k) (mset cs) = total_nodes cs"
  "worth (md_ops mem disk k) (mset (filter (md_fulfills req) cs)) = nodes_for req cs"
proof -
  have w: "worth (md_ops mem disk k) (mset xs) = total_nodes xs" for xs
    by (induction xs) (simp_all add: worth_def total_nodes_def)
  show "worth (md_ops mem disk k) (mset cs) = total_nodes cs" by (rule w)
  show "worth (md_ops mem disk k) (mset (filter (md_fulfills req) cs)) = nodes_for req cs"
    unfolding w by (simp add: nodes_for_def total_nodes_def)
qed

lemma sint_small: "a < 2 ^ 31 \<Longrightarrow> sint (a :: 32 word) = uint a"
  using signed_take_bit_int_eq_self [of 31 "uint a"] uint_ge_0 [of a] by (simp add: sint_uint word_less_def)

lemma sless_small: "a < 2 ^ 31 \<Longrightarrow> b < 2 ^ 31 \<Longrightarrow> (a :: 32 word) <s b \<longleftrightarrow> a < b"
  by (simp only: word_sless_alt sint_small word_less_def)

lemma mp_reduce_min: "a < 2 ^ 31 \<Longrightarrow> b < 2 ^ 31 \<Longrightarrow> mp_reduce a b = min a b"
  by (simp add: mp_reduce_def sless_small del: power_numeral)

lemma fulfills_aggregate:
  assumes "param_ok c" and "param_ok d"
  shows "param_ok (md_aggregate c d)"
    and "md_fulfills req (md_aggregate c d) \<longleftrightarrow> md_fulfills req c \<and> md_fulfills req d"
  using assms by (simp_all add: param_ok_def md_fulfills_def mp_reduce_min min_less_iff_disj) blast

lemma reduce_total:
  assumes "std_heap dl_less H heap" and "total_nodes (ii_summary i) < 2 ^ 32"
  obtains cs where "md_reduce H K n k i = Some (i\<lparr>ii_summary := cs\<rparr>)"
    and "joins md_aggregate (alive (md_ops (ii_memory i) (ii_disk i) k) (ii_summary i))
      (alive (md_ops (ii_memory i) (ii_disk i) k) cs)"
    and "total_nodes cs = total_nodes (ii_summary i)"
    and "0 < K \<Longrightarrow> \<forall>c \<in> set (ii_summary i). md_value c \<noteq> 0 \<Longrightarrow> (\<forall>c \<in> set cs. md_value c \<noteq> 0)
      \<and> (length cs \<le> n \<or> all_far (md_ops (ii_memory i) (ii_disk i) k) cs) \<and> min n (length (ii_summary i)) \<le> length cs"
proof -
  let ?C = "md_ops (ii_memory i) (ii_disk i) k"
  have cl: "clusterer ?C dl_less H heap" by (intro clusterer.intro md.summable_axioms assms(1))
  have w: "worth ?C (mset (ii_summary i)) < 2 ^ 32" using assms(2) by (simp only: worth_nodes)
  from clusterer.cluster_loop_total [OF cl w, of K n False] obtain cs
    where c: "cluster_loop ?C H K n False (ii_summary i) = Some cs"
      and r: "joins (co_sum ?C) (alive ?C (ii_summary i)) (alive ?C cs)" "worth ?C (mset cs) = worth ?C (mset (ii_summary i))"
        "0 < K \<longrightarrow> (\<forall>c \<in> set (ii_summary i). co_value ?C c \<noteq> 0) \<longrightarrow> (\<forall>c \<in> set cs. co_value ?C c \<noteq> 0)
          \<and> (length cs \<le> n \<or> all_far ?C cs) \<and> min n (length (ii_summary i)) \<le> length cs"
    by (elim exE conjE) rule
  have "md_reduce H K n k i = Some (i\<lparr>ii_summary := cs\<rparr>)" using c by (simp add: md_reduce_def cluster_list_def)
  with r show ?thesis by (intro that) (simp_all add: worth_nodes)
qed

text \<open>
  C12. Reducing a summary of free nodes ends, keeps the number of nodes, and is conservative: whatever
  the request, the clusters of the result that fulfil it have at most as many nodes as those of the
  summary had, so no task is routed to nodes that cannot run it. This holds for any distances and
  any heap that keeps the promise of the C++ library. The sizes must be below \<open>2\<^sup>3\<^sup>1\<close>, since the minimum is
  taken of signed numbers and the comparison with the request is of unsigned ones.
\<close>

theorem ibp_reduce_safe:
  assumes "std_heap dl_less H heap" and "total_nodes (ii_summary i) < 2 ^ 32"
    and "list_all param_ok (ii_summary i)"
  shows "\<exists>i'. md_reduce H K n k i = Some i' \<and> total_nodes (ii_summary i') = total_nodes (ii_summary i)
    \<and> (\<forall>req. nodes_for req (ii_summary i') \<le> nodes_for req (ii_summary i))"
proof -
  let ?C = "md_ops (ii_memory i) (ii_disk i) k"
  have cl: "clusterer ?C dl_less H heap" by (intro clusterer.intro md.summable_axioms assms(1))
  have w: "worth ?C (mset (ii_summary i)) < 2 ^ 32" using assms(2) by (simp only: worth_nodes)
  have p: "\<forall>c \<in> set (ii_summary i). param_ok c" using assms(3) by (simp add: list_all_iff)
  from clusterer.cluster_list_result [OF cl w p, of K n] obtain cs
    where cs: "cluster_list ?C H K n (ii_summary i) = Some cs" "total_nodes cs = total_nodes (ii_summary i)"
      and Q: "\<And>Q. (\<And>a b. param_ok a \<Longrightarrow> param_ok b \<Longrightarrow> param_ok (md_aggregate a b) \<and> (Q (md_aggregate a b) \<longrightarrow> Q a \<and> Q b))
        \<Longrightarrow> worth ?C (mset (filter Q cs)) \<le> worth ?C (mset (filter Q (ii_summary i)))"
    unfolding worth_nodes md_ops_simps by blast
  have "nodes_for req cs \<le> nodes_for req (ii_summary i)" for req
    using Q [of "md_fulfills req"] fulfills_aggregate
    by (simp only: worth_nodes(1) nodes_for_def total_nodes_def [symmetric]) blast
  with cs show ?thesis by (intro exI [of _ "i\<lparr>ii_summary := cs\<rparr>"]) (simp add: md_reduce_def)
qed

definition duo :: ibp_info where
  "duo = mk_ibp\<lparr>ii_summary := [mk_cluster 4 8, mk_cluster 6 2],
     ii_memory := \<lparr>iv_min = 4, iv_max = 6\<rparr>, ii_disk := \<lparr>iv_min = 2, iv_max = 8\<rparr>\<rparr>"

lemma duo_nodes: "total_nodes (ii_summary duo) = 2"
  by (simp add: duo_def total_nodes_def mk_cluster_def)

lemma ibp_reduce_safe_witness:
  "\<exists>i'. md_reduce (sorted_heap dl_less) 10 1 1 duo = Some i' \<and> total_nodes (ii_summary i') = 2"
  using ibp_reduce_safe [OF dl_order.sorted_range, of duo 10 1 1] duo_nodes
  by (auto simp: duo_def param_ok_def mk_cluster_def mk_param_def)

section \<open>How short\<close>

lemma joins_closed:
  "joins f X Y \<Longrightarrow> \<forall>c \<in># X. P c \<Longrightarrow> (\<And>a b. P a \<Longrightarrow> P b \<Longrightarrow> P (f a b)) \<Longrightarrow> \<forall>c \<in># Y. P c"
  by (induction rule: joins.induct) auto

definition summary_ok :: "ibp_info \<Rightarrow> bool" where
  "summary_ok i \<longleftrightarrow> ii_covered i \<and> list_all (\<lambda>c. md_value c \<noteq> 0 \<and> param_ok c) (ii_summary i)
    \<and> iv_max (ii_memory i) < 2 ^ 31 \<and> iv_max (ii_disk i) < 2 ^ 31
    \<and> iv_min (ii_memory i) < 2 ^ 31 \<and> iv_min (ii_disk i) < 2 ^ 31"

lemma mp_cell_bound:
  assumes "iv_in (mp_parameter p) r" and "mp_parameter p < 2 ^ 31" and "iv_max r < 2 ^ 31" and "iv_min r < 2 ^ 31"
  shows "mp_cell r k p \<in> word_of_int ` {0..int k}"
proof -
  define a b x where "a = uint (iv_min r)" and "b = uint (iv_max r)" and "x = uint (mp_parameter p)"
  have le: "a \<le> x" "x \<le> b" using assms by (simp_all add: iv_in_def word_sle_eq sint_small a_def b_def x_def)
  have sub: "sint (u - v) = uint u - uint v" if "uint v \<le> uint u" and "u < 2 ^ 31" for u v :: "32 word"
  proof -
    have "v \<le> u" using that(1) by (simp only: word_le_def)
    then have "uint (u - v) = uint u - uint v" by (simp only: uint_sub_if')  (simp add: that)
    moreover have "u - v < 2 ^ 31" using \<open>v \<le> u\<close> that(2) word_sub_le order.strict_trans1 by blast
    ultimately show ?thesis by (simp only: sint_small)
  qed
  have "(of_int (x - a) * of_nat k / of_int (b - a) :: rat) \<le> of_nat k" "0 \<le> (of_int (x - a) * of_nat k / of_int (b - a) :: rat)"
    using le by (cases "a = b"; simp add: field_simps mult_right_mono)+
  then have "\<lfloor>(of_int (x - a) * of_nat k / of_int (b - a) :: rat)\<rfloor> \<in> {0..int k}"
    by (simp add: floor_le_iff)
  moreover have "sint (mp_parameter p - iv_min r) = x - a" "sint (iv_extent r) = b - a"
    using sub le assms by (simp_all add: iv_extent_def a_def b_def x_def)
  ultimately show ?thesis by (simp add: mp_cell_def)
qed

text \<open>Pairwise far clusters are in cells of their own.\<close>

lemma all_far_bound:
  assumes "summary_ok i" and "all_far (md_ops (ii_memory i) (ii_disk i) k) (ii_summary i)"
  shows "length (ii_summary i) \<le> (k + 1) ^ 2"
proof -
  let ?m = "ii_memory i" and ?d = "ii_disk i" and ?S = "ii_summary i"
  define g where "g c = (if iv_empty ?m then 0 else mp_cell ?m k (md_minM c),
    if iv_empty ?d then 0 else mp_cell ?d k (md_minD c))" for c :: md_cluster
  let ?W = "word_of_int ` {0..int k} :: 32 word set"
  have far: "g (?S ! a) \<noteq> g (?S ! b)" if "a < b" "b < length ?S" for a b
    using assms(2) that by (force simp: all_far_def g_def md_far_def mp_far_def)
  have "distinct (map g ?S)"
    unfolding distinct_conv_nth length_map using far by (metis linorder_neqE_nat nth_map)
  then have "length ?S = card (g ` set ?S)" by (metis distinct_card length_map set_map)
  moreover have "g ` set ?S \<subseteq> ?W \<times> ?W"
  proof -
    have "0 \<in> ?W" by (rule image_eqI [of _ _ 0]) simp_all
    then show ?thesis using assms(1) mp_cell_bound
      by (auto simp: g_def summary_ok_def ii_covered_def list_all_iff param_ok_def simp del: word_of_int_0)
  qed
  then have "card (g ` set ?S) \<le> card (?W \<times> ?W)" by (rule card_mono [rotated]) simp
  moreover have "card ?W \<le> k + 1" using card_image_le [of "{0..int k}" "word_of_int :: int \<Rightarrow> 32 word"]
    by (simp add: nat_add_distrib)
  then have "card ?W * card ?W \<le> (k + 1) ^ 2" unfolding power2_eq_square by (intro mult_le_mono)
  ultimately show ?thesis by (simp add: card_cartesian_product)
qed

text \<open>
  How short the reduced summary is: at most \<open>numClusters\<close> clusters, or, where only far clusters were
  left, one for each pair of a memory and a disk interval, of which there are \<open>(numIntervals + 1)\<^sup>2\<close>
  because the maximum of a range is in an interval of its own. It is not made shorter than asked
  for, no cluster is empty, and the ranges still cover it.
\<close>

theorem ibp_reduce_bound:
  assumes "std_heap dl_less H heap" and "total_nodes (ii_summary i) < 2 ^ 32"
    and "summary_ok i" and "0 < K"
  shows "\<exists>i'. md_reduce H K n k i = Some i' \<and> summary_ok i'
    \<and> min n (length (ii_summary i)) \<le> length (ii_summary i') \<and> length (ii_summary i') \<le> max n ((k + 1) ^ 2)"
proof -
  let ?C = "md_ops (ii_memory i) (ii_disk i) k"
  let ?P = "\<lambda>c. iv_in (mp_parameter (md_minM c)) (ii_memory i) \<and> iv_in (mp_parameter (md_minD c)) (ii_disk i) \<and> param_ok c"
  have nz: "\<forall>c \<in> set (ii_summary i). md_value c \<noteq> 0" and P: "\<forall>c \<in># alive ?C (ii_summary i). ?P c"
    using assms(3) by (auto simp: summary_ok_def ii_covered_def list_all_iff purge_def)
  obtain cs where cs: "md_reduce H K n k i = Some (i\<lparr>ii_summary := cs\<rparr>)"
    and j: "joins md_aggregate (alive ?C (ii_summary i)) (alive ?C cs)"
    and nz': "\<forall>c \<in> set cs. md_value c \<noteq> 0" and len: "length cs \<le> n \<or> all_far ?C cs"
      "min n (length (ii_summary i)) \<le> length cs"
    using reduce_total [OF assms(1,2), of K n k] assms(4) nz by metis
  have "purge ?C cs = cs" using nz' by (simp add: purge_def)
  then have "\<forall>c \<in> set cs. ?P c"
    using joins_closed [OF j P] fulfills_aggregate(1) by (simp add: mp_reduce_def)
  then have ok: "summary_ok (i\<lparr>ii_summary := cs\<rparr>)"
    using assms(3) nz' by (simp add: summary_ok_def ii_covered_def list_all_iff)
  have "length cs \<le> max n ((k + 1) ^ 2)" using len(1) all_far_bound [OF ok, of k] by auto
  with cs ok len(2) show ?thesis by (intro exI [of _ "i\<lparr>ii_summary := cs\<rparr>"]) simp
qed

lemma ibp_reduce_bound_witness:
  "\<exists>i'. md_reduce (sorted_heap dl_less) 1 1 0 duo = Some i' \<and> length (ii_summary i') = 1"
proof -
  have "summary_ok duo"
    by (simp add: summary_ok_def ii_covered_def duo_def param_ok_def mk_cluster_def mk_param_def iv_in_def)
  moreover have "length (ii_summary duo) = 2" by (simp add: duo_def)
  ultimately obtain i' where "md_reduce (sorted_heap dl_less) 1 1 0 duo = Some i'"
    and "1 \<le> length (ii_summary i')" and "length (ii_summary i') \<le> 1"
    using ibp_reduce_bound [OF dl_order.sorted_range, of duo 1 1 0] duo_nodes by auto
  then show ?thesis by auto
qed

section \<open>Over the limit\<close>

text \<open>The first round looks at no far pair, and a round that joins nothing is the last.\<close>

lemma cluster_all_far:
  assumes "std_heap dl_less H heap" and "all_far C cs"
  shows "cluster_list C H K n cs = Some cs"
proof -
  have "dl_dsts (dl_of C K False cs i) = []" for i
  proof -
    have skip: "fold (\<lambda>j ds. if False \<or> \<not> co_far C (cs ! i) (cs ! j) then dl_add K (mk_dst C cs i j) ds else ds) js [] = []"
      if "set js \<subseteq> {Suc i..<length cs}" for js
      using that assms(2) by (induction js) (auto simp: all_far_def)
    show ?thesis using skip [of "[Suc i..<length cs]"] by (simp add: dl_of_def)
  qed
  then have "snd (populate C H K False cs) = hp_make H []" by (simp add: populate_def Let_def)
  then have "snd (populate C H K False cs) = []" using std_heap.make_set(1) [OF assms(1), of "[]"] by simp
  then have "join_loop C H (length cs - n) cs (snd (populate C H K False cs)) 0 = Some (cs, 0)"
    by (subst join_loop.simps) simp
  then show ?thesis by (simp add: cluster_list_def cluster_loop.simps [of C H K n False cs])
qed

definition grid :: ibp_info where
  "grid = mk_ibp\<lparr>ii_summary := map (\<lambda>a. mk_cluster (of_nat (a div 17)) (of_nat (a mod 17))) [0..<289],
     ii_memory := \<lparr>iv_min = 0, iv_max = 16\<rparr>, ii_disk := \<lparr>iv_min = 0, iv_max = 16\<rparr>\<rparr>"

lemma grid_cell: "mp_cell \<lparr>iv_min = 0, iv_max = 16\<rparr> 16 (mk_param p) = p"
  by (simp add: mp_cell_def iv_extent_def mk_param_def scast_eq [symmetric] del: of_int_sint)

lemma of_nat_small: "a < 17 \<Longrightarrow> b < 17 \<Longrightarrow> (of_nat a :: 32 word) = of_nat b \<longleftrightarrow> a = b"
  by (simp add: word_of_nat_eq_iff take_bit_nat_eq_self)

lemma grid_far: "all_far (md_ops (ii_memory grid) (ii_disk grid) 16) (ii_summary grid)"
proof -
  have inj: "a = b" if "a < 289" "b < 289" "(of_nat (a div 17) :: 32 word) = of_nat (b div 17)"
    "(of_nat (a mod 17) :: 32 word) = of_nat (b mod 17)" for a b :: nat
  proof -
    have "a div 17 < 17" "b div 17 < 17" using that(1,2) by auto
    then have "a div 17 = b div 17" "a mod 17 = b mod 17"
      using that(3,4) of_nat_small by simp_all
    then show ?thesis by (metis mod_div_decomp)
  qed
  have "(of_nat (a div 17) :: 32 word) \<noteq> of_nat (b div 17) \<or> (of_nat (a mod 17) :: 32 word) \<noteq> of_nat (b mod 17)"
    if "a < b" "b < 289" for a b :: nat
    using that inj [of a b] by auto
  then show ?thesis
    by (simp add: all_far_def grid_def md_far_def mp_far_def mk_cluster_def grid_cell iv_empty_def)
qed

lemma grid_ok: "summary_ok grid" "length (ii_summary grid) = 289"
proof -
  have p: "of_nat a < (2 ^ 31 :: 32 word) \<and> iv_in (of_nat a) \<lparr>iv_min = 0, iv_max = 16\<rparr>" if "a < 17" for a :: nat
  proof -
    have u: "uint (of_nat a :: 32 word) = int a" using that by (simp add: uint_nat unat_of_nat)
    then have "of_nat a < (2 ^ 31 :: 32 word)" using that by (simp add: word_less_def)
    moreover from this have "sint (of_nat a :: 32 word) = int a" using sint_small u by simp
    ultimately show ?thesis using that by (simp add: iv_in_def word_sle_eq)
  qed
  have "a div 17 < 17" if "a < 289" for a :: nat using that by auto
  then show "summary_ok grid" using p
    by (auto simp: summary_ok_def ii_covered_def grid_def mk_ibp_def list_all_iff param_ok_def mk_cluster_def mk_param_def)
  show "length (ii_summary grid) = 289" by (simp add: grid_def)
qed

text \<open>
  C13. The bound that the interface promises is not kept: with the default limit of 256 clusters and 16
  intervals there is a well-formed summary of 289 clusters that \<open>reduce\<close> leaves as it is. All its
  pairs are far, so the first round joins nothing and is the last one, although it has just found
  out that the far clusters must be looked at.
\<close>

theorem ibp_reduce_over_limit:
  assumes "std_heap dl_less H heap"
  shows "\<exists>i. summary_ok i \<and> length (ii_summary i) = 289 \<and> md_reduce H K 256 16 i = Some i"
  using grid_ok cluster_all_far [OF assms grid_far, of K 256]
  by (intro exI [of _ grid]) (simp add: md_reduce_def)

lemma ibp_reduce_over_limit_witness:
  "\<exists>i. length (ii_summary i) = 289 \<and> md_reduce (sorted_heap dl_less) 10 256 16 i = Some i"
  using ibp_reduce_over_limit [OF dl_order.sorted_range, of 10] by blast

end
