(* ===== verification/Mmp_Info.thy ===== *)
theory Mmp_Info
  imports Dispatcher Ibp_Clustering
begin

text \<open>
  \<open>include/MMPAvailabilityInformation.hpp\<close> and its implementation: the summary of queues that the
  first-come policy sends up the tree, with its clusters, its reduction and the search for the
  queue length at which a number of tasks fits. Times are microseconds; \<open>now\<close> is the current
  time. The product of a time in seconds and a power, a \<open>double\<close>, is exact.
\<close>

section \<open>Ranges and maxima of times\<close>

record time_range =
  tr_min :: time
  tr_max :: time

definition tr_setLimits :: "time \<Rightarrow> time_range" where
  "tr_setLimits t = \<lparr>tr_min = t, tr_max = t\<rparr>"

definition tr_setMinimum :: "time \<Rightarrow> time_range \<Rightarrow> time_range" where
  "tr_setMinimum t r = r\<lparr>tr_min := t, tr_max := (if tr_max r < t then t else tr_max r)\<rparr>"

definition tr_setMaximum :: "time \<Rightarrow> time_range \<Rightarrow> time_range" where
  "tr_setMaximum t r = r\<lparr>tr_max := t, tr_min := (if tr_min r > t then t else tr_min r)\<rparr>"

definition tr_extend :: "time_range \<Rightarrow> time_range \<Rightarrow> time_range" where
  "tr_extend o' r = r\<lparr>tr_min := (if tr_min r > tr_min o' then tr_min o' else tr_min r),
     tr_max := (if tr_max r < tr_max o' then tr_max o' else tr_max r)\<rparr>"

definition tr_extend_value :: "time \<Rightarrow> time_range \<Rightarrow> time_range" where
  "tr_extend_value t r = r\<lparr>tr_min := (if tr_min r > t then t else tr_min r),
     tr_max := (if tr_max r < t then t else tr_max r)\<rparr>"

text \<open>Whole seconds, rounded to zero.\<close>

definition whole_secs :: "time \<Rightarrow> int" where
  "whole_secs d = (if d < 0 then - ((- d) div 1000000) else d div 1000000)"

record max_time =
  xt_parameter :: time
  xt_mse :: "64 word"
  xt_linear :: "64 word"

definition mk_max_time :: "time \<Rightarrow> max_time" where
  "mk_max_time t = \<lparr>xt_parameter = t, xt_mse = 0, xt_linear = 0\<rparr>"

definition xt_reduce :: "time \<Rightarrow> time \<Rightarrow> time" where
  "xt_reduce p r = (if p > r then p else r)"

definition xt_aggregate :: "64 word \<Rightarrow> max_time \<Rightarrow> 64 word \<Rightarrow> max_time \<Rightarrow> max_time" where
  "xt_aggregate n r k p =
    (let q = xt_reduce (xt_parameter p) (xt_parameter r);
         d = word_of_int (whole_secs (q - xt_parameter p)) :: 64 word;
         e = word_of_int (whole_secs (q - xt_parameter r)) :: 64 word
     in p\<lparr>xt_mse := xt_mse p + (n * d * d + 2 * d * xt_linear p + xt_mse r + k * e * e + 2 * e * xt_linear r),
          xt_linear := xt_linear p + (n * d + xt_linear r + k * e),
          xt_parameter := q\<rparr>)"

text \<open>
  A range shorter than a second is not empty, yet its extent is zero: the program then divides zero
  by zero, here zero.
\<close>

definition xt_norm :: "time_range \<Rightarrow> 32 word \<Rightarrow> max_time \<Rightarrow> rat" where
  "xt_norm r n p = (if tr_min r = tr_max r then 0
    else of_int (sint (xt_mse p)) / (of_int (uint n) * of_int (whole_secs (tr_max r - tr_min r))
      * of_int (whole_secs (tr_max r - tr_min r))))"

definition xt_cell :: "time_range \<Rightarrow> nat \<Rightarrow> max_time \<Rightarrow> 32 word" where
  "xt_cell r k p = word_of_int \<lfloor>(of_int (whole_secs (xt_parameter p - tr_min r)) * of_nat k
     / of_int (whole_secs (tr_max r - tr_min r)) :: rat)\<rfloor>"

definition xt_far :: "time_range \<Rightarrow> nat \<Rightarrow> max_time \<Rightarrow> max_time \<Rightarrow> bool" where
  "xt_far r k p q \<longleftrightarrow> tr_min r \<noteq> tr_max r \<and> xt_cell r k p \<noteq> xt_cell r k q"

section \<open>Clusters of queues\<close>

record mq_cluster =
  mq_value :: "32 word"
  mq_minM :: min_param
  mq_minD :: min_param
  mq_minP :: min_param
  mq_maxT :: max_time

definition mk_mq :: "32 word \<Rightarrow> 32 word \<Rightarrow> 32 word \<Rightarrow> time \<Rightarrow> mq_cluster" where
  "mk_mq m d p t = \<lparr>mq_value = 1, mq_minM = mk_param m, mq_minD = mk_param d, mq_minP = mk_param p,
     mq_maxT = mk_max_time t\<rparr>"

definition mq_less :: "mq_cluster \<Rightarrow> mq_cluster \<Rightarrow> bool" where
  "mq_less c r \<longleftrightarrow> xt_parameter (mq_maxT c) < xt_parameter (mq_maxT r)"

definition mq_eq :: "mq_cluster \<Rightarrow> mq_cluster \<Rightarrow> bool" where
  "mq_eq c r \<longleftrightarrow> mq_minM c = mq_minM r \<and> mq_minD c = mq_minD r \<and> mq_minP c = mq_minP r
     \<and> mq_maxT c = mq_maxT r \<and> mq_value c = mq_value r"

definition mq_aggregate :: "mq_cluster \<Rightarrow> mq_cluster \<Rightarrow> mq_cluster" where
  "mq_aggregate c r =
    (let n = ucast (mq_value c); k = ucast (mq_value r)
     in c\<lparr>mq_minM := mp_aggregate n (mq_minM r) k (mq_minM c),
          mq_minD := mp_aggregate n (mq_minD r) k (mq_minD c),
          mq_minP := mp_aggregate n (mq_minP r) k (mq_minP c),
          mq_maxT := xt_aggregate n (mq_maxT r) k (mq_maxT c),
          mq_value := mq_value c + mq_value r\<rparr>)"

definition mq_fulfills :: "task_desc \<Rightarrow> mq_cluster \<Rightarrow> bool" where
  "mq_fulfills req c \<longleftrightarrow> td_maxMemory req \<le> mp_parameter (mq_minM c)
     \<and> td_maxDisk req \<le> mp_parameter (mq_minD c)"

definition mq_lostMemory :: "task_desc \<Rightarrow> mq_cluster \<Rightarrow> 32 word" where
  "mq_lostMemory req c = mp_parameter (mq_minM c) - td_maxMemory req"

definition mq_lostDisk :: "task_desc \<Rightarrow> mq_cluster \<Rightarrow> 32 word" where
  "mq_lostDisk req c = mp_parameter (mq_minD c) - td_maxDisk req"

definition mq_updateMaximumQueue :: "time \<Rightarrow> mq_cluster \<Rightarrow> mq_cluster" where
  "mq_updateMaximumQueue t c = c\<lparr>mq_maxT := mk_max_time t\<rparr>"

section \<open>The summary\<close>

record mmp_info =
  mi_seq :: "32 word"
  mi_fromSch :: bool
  mi_maxQueue :: time
  mi_summary :: "mq_cluster list"
  mi_memory :: interval
  mi_disk :: interval
  mi_power :: interval
  mi_queue :: time_range

definition mk_mmp :: "time \<Rightarrow> mmp_info" where
  "mk_mmp now = \<lparr>mi_seq = 0, mi_fromSch = True, mi_maxQueue = now, mi_summary = [],
     mi_memory = iv_default, mi_disk = iv_default, mi_power = iv_default, mi_queue = tr_setLimits now\<rparr>"

definition mi_reset :: "time \<Rightarrow> mmp_info \<Rightarrow> mmp_info" where
  "mi_reset now i = i\<lparr>mi_memory := iv_setLimits 0 (mi_memory i), mi_disk := iv_setLimits 0 (mi_disk i),
     mi_power := iv_setLimits 0 (mi_power i), mi_maxQueue := now, mi_queue := tr_setLimits now, mi_summary := []\<rparr>"

definition mi_setSeq :: "32 word \<Rightarrow> mmp_info \<Rightarrow> mmp_info" where
  "mi_setSeq n i = i\<lparr>mi_seq := n\<rparr>"

definition mi_setFromSch :: "bool \<Rightarrow> mmp_info \<Rightarrow> mmp_info" where
  "mi_setFromSch f i = i\<lparr>mi_fromSch := f\<rparr>"

definition mi_setQueueEnd :: "32 word \<Rightarrow> 32 word \<Rightarrow> 32 word \<Rightarrow> time \<Rightarrow> mmp_info \<Rightarrow> mmp_info" where
  "mi_setQueueEnd mem disk pw end i = i\<lparr>mi_memory := iv_setLimits mem (mi_memory i),
     mi_disk := iv_setLimits disk (mi_disk i), mi_power := iv_setLimits pw (mi_power i),
     mi_queue := tr_setLimits end, mi_summary := [mk_mq mem disk pw end]\<rparr>"

definition mi_setMaxQueueLength :: "time \<Rightarrow> mmp_info \<Rightarrow> mmp_info" where
  "mi_setMaxQueueLength q i = i\<lparr>mi_maxQueue := q\<rparr>"

definition mi_updateMaxT :: "time \<Rightarrow> mmp_info \<Rightarrow> mmp_info" where
  "mi_updateMaxT m i = i\<lparr>mi_queue := tr_extend_value m (mi_queue i)\<rparr>"

text \<open>\<open>std::list::merge\<close>: an element of the second list goes before the first one that it precedes.\<close>

fun list_merge :: "('a \<Rightarrow> 'a \<Rightarrow> bool) \<Rightarrow> 'a list \<Rightarrow> 'a list \<Rightarrow> 'a list" where
  "list_merge lt xs [] = xs"
| "list_merge lt [] ys = ys"
| "list_merge lt (x # xs) (y # ys) =
    (if lt y x then y # list_merge lt (x # xs) ys else x # list_merge lt xs (y # ys))"

definition mi_current :: "time \<Rightarrow> mq_cluster \<Rightarrow> mq_cluster" where
  "mi_current now c = (if xt_parameter (mq_maxT c) < now then mq_updateMaximumQueue now c else c)"

definition mi_join :: "time \<Rightarrow> mmp_info \<Rightarrow> mmp_info \<Rightarrow> mmp_info" where
  "mi_join now r i =
    (if mi_summary r \<noteq> [] then
       (let i1 = i\<lparr>mi_maxQueue := (if mi_maxQueue r > mi_maxQueue i then mi_maxQueue r else mi_maxQueue i)\<rparr>;
            i2 = (if mi_summary i = []
                  then i1\<lparr>mi_memory := mi_memory r, mi_disk := mi_disk r, mi_power := mi_power r, mi_queue := mi_queue r\<rparr>
                  else i1\<lparr>mi_memory := iv_extend (mi_memory i) (mi_memory r),
                          mi_disk := iv_extend (mi_disk i) (mi_disk r),
                          mi_power := iv_extend (mi_power i) (mi_power r),
                          mi_queue := tr_extend (mi_queue r) (mi_queue i)\<rparr>);
            i3 = i2\<lparr>mi_summary := map (mi_current now) (list_merge mq_less (mi_summary i) (mi_summary r))\<rparr>
        in if tr_min (mi_queue i3) < now then i3\<lparr>mi_queue := tr_setMinimum now (mi_queue i3)\<rparr> else i3)
     else i)"

definition mi_eq :: "mmp_info \<Rightarrow> mmp_info \<Rightarrow> bool" where
  "mi_eq i r \<longleftrightarrow> mi_maxQueue i = mi_maxQueue r \<and> list_all2 mq_eq (mi_summary i) (mi_summary r)"

section \<open>Reduction\<close>

definition mq_distance :: "mmp_info \<Rightarrow> mq_cluster \<Rightarrow> mq_cluster \<Rightarrow> rat" where
  "mq_distance i c r = (let s = mq_aggregate c r
     in mp_norm (mi_memory i) (mq_value s) (mq_minM s) + mp_norm (mi_disk i) (mq_value s) (mq_minD s)
       + mp_norm (mi_power i) (mq_value s) (mq_minP s) + xt_norm (mi_queue i) (mq_value s) (mq_maxT s))"

definition mq_far :: "mmp_info \<Rightarrow> nat \<Rightarrow> mq_cluster \<Rightarrow> mq_cluster \<Rightarrow> bool" where
  "mq_far i k c r \<longleftrightarrow> mp_far (mi_memory i) k (mq_minM c) (mq_minM r) \<or> mp_far (mi_disk i) k (mq_minD c) (mq_minD r)
     \<or> mp_far (mi_power i) k (mq_minP c) (mq_minP r) \<or> xt_far (mi_queue i) k (mq_maxT c) (mq_maxT r)"

definition mq_ops :: "mmp_info \<Rightarrow> nat \<Rightarrow> mq_cluster cluster_ops" where
  "mq_ops i k = \<lparr>co_value = mq_value, co_kill = (\<lambda>c. c\<lparr>mq_value := 0\<rparr>), co_distance = mq_distance i,
     co_sum = mq_aggregate, co_far = mq_far i k\<rparr>"

text \<open>\<open>numClusters\<close> and \<open>numIntervals\<close>, the fourth root of it, are static fields.\<close>

definition mi_reduce :: "mq_cluster dlist heap_ops \<Rightarrow> nat \<Rightarrow> nat \<Rightarrow> nat \<Rightarrow> mmp_info \<Rightarrow> mmp_info option" where
  "mi_reduce H K n k i = map_option (\<lambda>cs. i\<lparr>mi_summary := cs\<rparr>) (cluster_list (mq_ops i k) H K n (mi_summary i))"

lemma mq_simps [simp]:
  "co_value (mq_ops i k) = mq_value" "co_sum (mq_ops i k) = mq_aggregate"
  "mq_value (mq_aggregate c d) = mq_value c + mq_value d"
  "mp_parameter (mq_minM (mq_aggregate c d)) = mp_reduce (mp_parameter (mq_minM c)) (mp_parameter (mq_minM d))"
  "mp_parameter (mq_minD (mq_aggregate c d)) = mp_reduce (mp_parameter (mq_minD c)) (mp_parameter (mq_minD d))"
  "mp_parameter (mq_minP (mq_aggregate c d)) = mp_reduce (mp_parameter (mq_minP c)) (mp_parameter (mq_minP d))"
  "xt_parameter (mq_maxT (mq_aggregate c d)) = max (xt_parameter (mq_maxT c)) (xt_parameter (mq_maxT d))"
  by (simp_all add: mq_ops_def mq_aggregate_def mp_aggregate_def xt_aggregate_def xt_reduce_def Let_def)

interpretation mq: summable "mq_ops i k" for i k
  by unfold_locales (simp_all add: mq_ops_def mq_aggregate_def Let_def)

definition queues :: "mq_cluster list \<Rightarrow> nat" where
  "queues cs = (\<Sum>c \<leftarrow> cs. unat (mq_value c))"

definition mq_ok :: "mq_cluster \<Rightarrow> bool" where
  "mq_ok c \<longleftrightarrow> mp_parameter (mq_minM c) < 2 ^ 31 \<and> mp_parameter (mq_minD c) < 2 ^ 31 \<and> mp_parameter (mq_minP c) < 2 ^ 31"

text \<open>The queues that fulfil a request, are at least as fast and are free at a time.\<close>

definition serves :: "task_desc \<Rightarrow> 32 word \<Rightarrow> time \<Rightarrow> mq_cluster \<Rightarrow> bool" where
  "serves req p t c \<longleftrightarrow> mq_fulfills req c \<and> p \<le> mp_parameter (mq_minP c) \<and> xt_parameter (mq_maxT c) \<le> t"

lemma worth_queues: "worth (mq_ops i k) (mset cs) = queues cs"
  by (induction cs) (simp_all add: worth_def queues_def)

lemma serves_aggregate:
  assumes "mq_ok c" and "mq_ok d"
  shows "mq_ok (mq_aggregate c d)"
    and "serves req p t (mq_aggregate c d) \<longleftrightarrow> serves req p t c \<and> serves req p t d"
proof -
  show "mq_ok (mq_aggregate c d)" using assms unfolding mq_ok_def mq_simps mp_reduce_def by presburger
  have m: "mp_reduce (mp_parameter (mq_minM c)) (mp_parameter (mq_minM d)) = min (mp_parameter (mq_minM c)) (mp_parameter (mq_minM d))"
    "mp_reduce (mp_parameter (mq_minD c)) (mp_parameter (mq_minD d)) = min (mp_parameter (mq_minD c)) (mp_parameter (mq_minD d))"
    "mp_reduce (mp_parameter (mq_minP c)) (mp_parameter (mq_minP d)) = min (mp_parameter (mq_minP c)) (mp_parameter (mq_minP d))"
    using assms by (intro mp_reduce_min; simp only: mq_ok_def)+
  show "serves req p t (mq_aggregate c d) \<longleftrightarrow> serves req p t c \<and> serves req p t d"
    unfolding serves_def mq_fulfills_def mq_simps m min.bounded_iff max.bounded_iff
    by (simp only: conj_ac)
qed

text \<open>
  C14. Reducing a summary of queues ends, keeps the number of queues, and is conservative: of the queues
  that fulfil a request, have at least a given power and are free at a given time, the reduced
  summary shows at most as many as there were.
\<close>

theorem mmp_reduce_safe:
  assumes "std_heap dl_less H heap" and "queues (mi_summary i) < 2 ^ 32" and "list_all mq_ok (mi_summary i)"
  shows "\<exists>i'. mi_reduce H K n k i = Some i' \<and> queues (mi_summary i') = queues (mi_summary i)
    \<and> (\<forall>req p t. queues (filter (serves req p t) (mi_summary i')) \<le> queues (filter (serves req p t) (mi_summary i)))"
proof -
  let ?C = "mq_ops i k"
  have cl: "clusterer ?C dl_less H heap" by (intro clusterer.intro mq.summable_axioms assms(1))
  have w: "worth ?C (mset (mi_summary i)) < 2 ^ 32" using assms(2) by (simp only: worth_queues)
  have p: "\<forall>c \<in> set (mi_summary i). mq_ok c" using assms(3) by (simp add: list_all_iff)
  from clusterer.cluster_list_result [OF cl w p, of K n] obtain cs
    where cs: "cluster_list ?C H K n (mi_summary i) = Some cs" "queues cs = queues (mi_summary i)"
      and Q: "\<And>Q. (\<And>a b. mq_ok a \<Longrightarrow> mq_ok b \<Longrightarrow> mq_ok (mq_aggregate a b) \<and> (Q (mq_aggregate a b) \<longrightarrow> Q a \<and> Q b))
        \<Longrightarrow> queues (filter Q cs) \<le> queues (filter Q (mi_summary i))"
    unfolding worth_queues mq_simps by blast
  have "queues (filter (serves req p t) cs) \<le> queues (filter (serves req p t) (mi_summary i))" for req p t
    by (rule Q) (simp add: serves_aggregate)
  with cs show ?thesis by (intro exI [of _ "i\<lparr>mi_summary := cs\<rparr>"]) (simp add: mi_reduce_def)
qed

section \<open>Availability\<close>

text \<open>How many tasks a queue has room for until the deadline: positions and their sum.\<close>

definition mq_start :: "time \<Rightarrow> mq_cluster \<Rightarrow> time" where
  "mq_start now c = (if xt_parameter (mq_maxT c) > now then xt_parameter (mq_maxT c) else now)"

definition mq_tasks :: "time \<Rightarrow> task_desc \<Rightarrow> mq_cluster \<Rightarrow> 64 word" where
  "mq_tasks now req c =
    (if mq_start now c < td_deadline req \<and> mq_fulfills req c then
       (let l = (if td_length req \<noteq> 0 then td_length req else 1000)
        in word_of_int \<lfloor>(of_int (td_deadline req - mq_start now c) / 1000000 * of_int (sint (mp_parameter (mq_minP c)))
             / of_int (uint l) :: rat)\<rfloor>)
     else 0)"

definition mi_available :: "time \<Rightarrow> task_desc \<Rightarrow> mmp_info \<Rightarrow> nat list \<times> 32 word" where
  "mi_available now req i =
    (filter (\<lambda>k. mq_tasks now req (mi_summary i ! k) \<noteq> 0) [0..<length (mi_summary i)],
     (\<Sum>c \<leftarrow> mi_summary i. ucast (mq_tasks now req c)))"

definition mi_room :: "time \<Rightarrow> task_desc \<Rightarrow> mmp_info \<Rightarrow> time \<Rightarrow> 32 word" where
  "mi_room now req i t = snd (mi_available now (req\<lparr>td_deadline := t\<rparr>) i)"

text \<open>The deadline at which \<open>n\<close> tasks fit: first the step doubles, then it is halved.\<close>

partial_function (option) room_up :: "(time \<Rightarrow> 32 word) \<Rightarrow> 32 word \<Rightarrow> time \<Rightarrow> time \<Rightarrow> int \<Rightarrow> 32 word \<Rightarrow>
    (time \<times> time \<times> int \<times> 32 word) option" where
  "room_up f n mn mx d t =
    (if t < n \<and> d < 1000000000000000000 then room_up f n mx (mx + d) (d * 2) (f (mx + d))
     else Some (mn, mx, d, t))"

partial_function (option) room_down :: "(time \<Rightarrow> 32 word) \<Rightarrow> 32 word \<Rightarrow> time \<Rightarrow> time \<Rightarrow> int \<Rightarrow> 32 word \<Rightarrow> 32 word \<Rightarrow>
    time option" where
  "room_down f n mn mx d prev t =
    (if prev \<noteq> t then
       (let d1 = d div 2; med = mn + d1
        in if f med < n then room_down f n med mx d1 t (f med) else room_down f n mn med d1 t (f med))
     else Some mx)"

definition mi_search :: "time \<Rightarrow> 32 word \<Rightarrow> task_desc \<Rightarrow> mmp_info \<Rightarrow> time option" where
  "mi_search now n req i =
    Option.bind (room_up (mi_room now req i) n 0 now 300000000 0)
      (\<lambda>(mn, mx, d, t). room_down (mi_room now req i) n mn mx d 0 t)"

definition mi_updateAvailability :: "time \<Rightarrow> task_desc \<Rightarrow> mmp_info \<Rightarrow> mmp_info" where
  "mi_updateAvailability now req i =
    (let ks = fst (mi_available now req i);
         i1 = i\<lparr>mi_summary := fold (\<lambda>k cs. cs[k := mq_updateMaximumQueue (td_deadline req) (cs ! k)]) ks (mi_summary i)\<rparr>
     in if ks \<noteq> [] \<and> tr_max (mi_queue i1) < td_deadline req
        then i1\<lparr>mi_queue := tr_setMaximum (td_deadline req) (mi_queue i1)\<rparr> else i1)"

section \<open>The search\<close>

text \<open>There is room only after now.\<close>

lemma room_later: "0 < mi_room now req i t \<Longrightarrow> now < t"
proof -
  have "mq_tasks now (req\<lparr>td_deadline := t\<rparr>) c = 0" if "t \<le> now" for c
    using that by (auto simp: mq_tasks_def mq_start_def)
  then have "mi_room now req i t = 0" if "t \<le> now"
    using that by (simp add: mi_room_def mi_available_def sum_list_0)
  then show "0 < mi_room now req i t \<Longrightarrow> now < t" by (metis linorder_not_less word_gt_0)
qed

text \<open>The deadlines that are tried.\<close>

definition tried :: "time \<Rightarrow> nat \<Rightarrow> time" where
  "tried now k = now + 300000000 * (2 ^ k - 1)"

lemma tried_step: "tried now (Suc k) = tried now k + 300000000 * 2 ^ k"
  by (simp add: tried_def algebra_simps)

lemma step_limit: "(300000000 * 2 ^ k < (1000000000000000000 :: int)) \<longleftrightarrow> k < 32"
proof
  assume "300000000 * 2 ^ k < (1000000000000000000 :: int)"
  then show "k < 32" using power_increasing [of 32 k "2 :: int"] by (cases "k < 32") auto
next
  assume "k < 32"
  then show "300000000 * 2 ^ k < (1000000000000000000 :: int)"
    using power_increasing [of k 31 "2 :: int"] by simp
qed

lemma room_up_result:
  assumes "k \<le> 32" and "t = (if k = 0 then 0 else f (tried now k))"
    and "\<forall>j \<in> {1..<k}. f (tried now j) < n" and "0 < n"
  shows "\<exists>j mn. room_up f n (if k = 0 then a else tried now (k - 1)) (tried now k) (300000000 * 2 ^ k) t
      = Some (tried now (j - 1), tried now j, 300000000 * 2 ^ j, f (tried now j))
    \<and> 1 \<le> j \<and> j \<le> 32 \<and> (\<forall>i \<in> {1..<j}. f (tried now i) < n) \<and> (n \<le> f (tried now j) \<or> j = 32)"
  using assms
proof (induction "32 - k" arbitrary: k t a)
  case 0
  then show ?case using step_limit [of k]
    by (subst room_up.simps) (auto intro!: exI [of _ 32])
next
  case (Suc m)
  show ?case
  proof (cases "t < n")
    case False
    then have "k \<noteq> 0" using Suc.prems(2,4) by (cases "k = 0") auto
    with False Suc.prems show ?thesis by (subst room_up.simps) (auto intro!: exI [of _ k])
  next
    case True
    let ?t = "f (tried now (Suc k))"
    have "k < 32" using Suc.hyps(2) by simp
    have "room_up f n (if k = 0 then a else tried now (k - 1)) (tried now k) (300000000 * 2 ^ k) t
      = room_up f n (tried now k) (tried now (Suc k)) (300000000 * 2 ^ Suc k) ?t"
      using True \<open>k < 32\<close> step_limit [of k] by (subst room_up.simps) (simp add: tried_step algebra_simps)
    moreover have "\<forall>j \<in> {1..<Suc k}. f (tried now j) < n"
      using Suc.prems(2,3) True by (auto simp: less_Suc_eq)
    ultimately show ?thesis
      using Suc.hyps(1) [of "Suc k" ?t a] Suc.hyps(2) Suc.prems(4) by (simp split: if_splits)
  qed
qed

text \<open>
  C16. The search for the deadline at which \<open>n\<close> tasks fit always ends. It returns the first of the deadlines
  300 seconds, 900 seconds, 2100 seconds and so on from now that has the room, or the 32nd one
  when none has. It never refines the answer between two of them: the first probe of the halving
  loop is the deadline already found, and the loop stops at once since the room is the same.
\<close>

theorem mmp_search_result:
  assumes "0 < n"
  shows "\<exists>k. mi_search now n req i = Some (tried now k) \<and> 1 \<le> k \<and> k \<le> 32
    \<and> (\<forall>j \<in> {1..<k}. mi_room now req i (tried now j) < n) \<and> (n \<le> mi_room now req i (tried now k) \<or> k = 32)"
proof -
  let ?f = "mi_room now req i"
  obtain k where up: "room_up ?f n 0 now 300000000 0
      = Some (tried now (k - 1), tried now k, 300000000 * 2 ^ k, ?f (tried now k))"
    and k: "1 \<le> k" "k \<le> 32" "\<forall>j \<in> {1..<k}. ?f (tried now j) < n" "n \<le> ?f (tried now k) \<or> k = 32"
    using room_up_result [of 0 0 ?f now n 0] assms by (auto simp: tried_def)
  have stop: "room_down ?f n mn mx d t t = Some mx" for mn mx d t by (subst room_down.simps) simp
  have "tried now (k - 1) + 300000000 * 2 ^ k div 2 = tried now k"
    using k(1) tried_step [of now "k - 1"] by (cases k) simp_all
  then have "room_down ?f n (tried now (k - 1)) (tried now k) (300000000 * 2 ^ k) 0 (?f (tried now k)) = Some (tried now k)"
    by (subst room_down.simps) (simp add: Let_def stop)
  with up have "mi_search now n req i = Some (tried now k)" by (simp add: mi_search_def)
  with k show ?thesis by blast
qed

end
