(* ===== verification/Mmp_Dispatcher.thy ===== *)
theory Mmp_Dispatcher
  imports Mmp_Info Dispatcher_Props Sched_Policies
begin

text \<open>
  \<open>src/lib/scheduling/policies/MMPDispatcher.cpp\<close>: the dispatcher of the first-come policy. A bag goes
  up when the branch has too little room before the queue of the rest of the tree; otherwise the
  queues are balanced and the bag is divided between the children. The parameters of the clustering
  and \<open>beta\<close> are static fields; a group is a pointer to a cluster, that is a branch and a position.
\<close>

section \<open>The instance of the template\<close>

definition mi_reduced :: "mq_cluster dlist heap_ops \<Rightarrow> nat \<Rightarrow> nat \<Rightarrow> nat \<Rightarrow> mmp_info \<Rightarrow> mmp_info" where
  "mi_reduced H K n k i = (case mi_reduce H K n k i of Some r \<Rightarrow> r | None \<Rightarrow> i)"

text \<open>What a child is told of the rest of the tree: only the longest queue.\<close>

definition mmp_child_info :: "time \<Rightarrow> mmp_info option \<Rightarrow> mmp_info option \<Rightarrow> mmp_info option" where
  "mmp_child_info now father other =
    (case father of
       Some f \<Rightarrow> Some (mi_setMaxQueueLength
         (case other of
            Some q \<Rightarrow> (if mi_maxQueue f > mi_maxQueue q then mi_maxQueue f else mi_maxQueue q)
          | None \<Rightarrow> mi_maxQueue f) (mk_mmp now))
     | None \<Rightarrow> map_option (\<lambda>q. mi_setMaxQueueLength (mi_maxQueue q) (mk_mmp now)) other)"

definition mmp_ops :: "(mmp_info \<Rightarrow> mmp_info) \<Rightarrow> time \<Rightarrow> mmp_info avail_ops" where
  "mmp_ops red now = \<lparr>ao_seq = mi_seq, ao_setSeq = mi_setSeq, ao_fromSch = mi_fromSch,
     ao_setFromSch = mi_setFromSch, ao_join = mi_join now, ao_reduce = red, ao_eq = mi_eq,
     ao_childInfo = Some (mmp_child_info now)\<rparr>"

text \<open>What a node with the first-come policy publishes: its only queue.\<close>

definition mmp_availability :: "('x, mmp_info) backend \<Rightarrow> ('x, mmp_info, 'p) sched_scheme \<Rightarrow> mmp_info option" where
  "mmp_availability B s =
    (let e = mmp_queue_end B s
     in Some (mi_setMaxQueueLength e (mi_setQueueEnd (ucast (be_memory B)) (ucast (be_disk B))
          (word_of_int \<lfloor>be_power B\<rfloor>) e (mk_mmp (sc_now s)))))"

section \<open>Groups of queues\<close>

record mq_group =
  mg_branch :: nat
  mg_cluster :: nat
  mg_distance :: rat
  mg_availability :: rat
  mg_tasks :: "32 word"

definition mg_secs :: "task_desc \<Rightarrow> mq_cluster \<Rightarrow> rat" where
  "mg_secs req c = of_int (td_deadline req - xt_parameter (mq_maxT c)) / 1000000"

definition mk_group :: "branch \<Rightarrow> addr \<Rightarrow> task_desc \<Rightarrow> nat \<Rightarrow> mmp_info \<Rightarrow> nat \<Rightarrow> mq_group" where
  "mk_group b requester req c i k =
    (let cl = mi_summary i ! k;
         one = of_int (uint (td_length req)) / of_int (sint (mp_parameter (mq_minP cl)))
     in \<lparr>mg_branch = c, mg_cluster = k, mg_distance = br_distance b c requester,
         mg_availability = of_int (uint (10 * mq_lostMemory req cl + 1 * mq_lostDisk req cl))
           + 100 / (mg_secs req cl + one),
         mg_tasks = word_of_int \<lfloor>of_int (uint (mq_value cl)) * (mg_secs req cl / one)\<rfloor>\<rparr>)"

definition mg_less :: "mq_group \<Rightarrow> mq_group \<Rightarrow> bool" where
  "mg_less l r \<longleftrightarrow> mg_availability l < mg_availability r
     \<or> (mg_availability l = mg_availability r \<and> mg_distance l < mg_distance r)"

definition mmp_groups :: "branch \<Rightarrow> addr \<Rightarrow> task_desc \<Rightarrow> nat \<Rightarrow> mmp_info disp \<Rightarrow> mq_group list" where
  "mmp_groups b requester req c s =
    (case lk_avail (dp_child s c) of
       None \<Rightarrow> []
     | Some i \<Rightarrow> map (mk_group b requester req c i) (fst (mi_available (c_now (dp_comm s)) req i)))"

section \<open>Division\<close>

definition use_group :: "time \<Rightarrow> mq_group \<Rightarrow> mmp_info disp \<Rightarrow> mmp_info disp" where
  "use_group t g s = s\<lparr>dp_child := (dp_child s)(mg_branch g := (dp_child s (mg_branch g))\<lparr>lk_avail :=
     map_option (\<lambda>i. i\<lparr>mi_summary := (mi_summary i)[mg_cluster g :=
       mq_updateMaximumQueue t (mi_summary i ! mg_cluster g)]\<rparr>) (lk_avail (dp_child s (mg_branch g)))\<rparr>)\<rparr>"

fun mmp_divide :: "time \<Rightarrow> mq_group list \<Rightarrow> 32 word \<Rightarrow> (nat \<Rightarrow> 32 word) \<Rightarrow> mmp_info disp \<Rightarrow>
    32 word \<times> (nat \<Rightarrow> 32 word) \<times> mmp_info disp" where
  "mmp_divide t [] n parts s = (n, parts, s)"
| "mmp_divide t (g # gs) n parts s =
    (if n = 0 then (n, parts, s)
     else if n > mg_tasks g then
       mmp_divide t gs (n - mg_tasks g) (parts(mg_branch g := parts (mg_branch g) + mg_tasks g)) (use_group t g s)
     else
       mmp_divide t gs 0 (parts(mg_branch g := parts (mg_branch g) + n)) (use_group t g s))"

definition mmp_mark :: "time \<Rightarrow> (nat \<Rightarrow> 32 word) \<Rightarrow> nat \<Rightarrow> mmp_info disp \<Rightarrow> mmp_info disp" where
  "mmp_mark t parts c s =
    (if parts c > 0 then s\<lparr>dp_child := (dp_child s)(c := (dp_child s c)
       \<lparr>lk_avail := map_option (mi_updateMaxT t) (lk_avail (dp_child s c))\<rparr>)\<rparr> else s)"

section \<open>Handling a bag\<close>

text \<open>The queue length in the rest of the tree, scaled by \<open>beta\<close>.\<close>

definition father_queue :: "rat \<Rightarrow> mmp_info disp \<Rightarrow> time" where
  "father_queue beta s =
    (let now = c_now (dp_comm s);
         q = (case lk_avail (dp_father s) of
                Some f \<Rightarrow> if mi_maxQueue f > now then mi_maxQueue f else now
              | None \<Rightarrow> now)
     in now + \<lfloor>of_int (q - now) * beta\<rfloor>)"

definition goes_up :: "rat \<Rightarrow> addr \<Rightarrow> taskbag_msg \<Rightarrow> mmp_info \<Rightarrow> mmp_info disp \<Rightarrow> bool" where
  "goes_up beta src m info s \<longleftrightarrow> lk_addr (dp_father s) \<noteq> null_addr
     \<and> mi_room (c_now (dp_comm s)) (tb_minReq m) info (father_queue beta s) < tb_lastTask m - tb_firstTask m + 1
     \<and> (src \<noteq> lk_addr (dp_father s) \<or> tb_fromEN m)"

definition mmp_handle_bag :: "(mmp_info \<Rightarrow> mmp_info) \<Rightarrow> rat \<Rightarrow> branch \<Rightarrow> addr \<Rightarrow> taskbag_msg \<Rightarrow>
    mmp_info disp \<Rightarrow> mmp_info disp option" where
  "mmp_handle_bag red beta b src m s =
    (let now = c_now (dp_comm s) in
     if tb_forEN m \<or> \<not> br_inNetwork b then Some s
     else case branch_info s of
       None \<Rightarrow> Some s
     | Some info \<Rightarrow>
        if goes_up beta src m info s then
          Some (s\<lparr>dp_comm := send_message (lk_addr (dp_father s)) (MTaskBag (m\<lparr>tb_fromEN := False\<rparr>)) (dp_comm s)\<rparr>)
        else do {
          let n = tb_lastTask m - tb_firstTask m + 1;
          balanced \<leftarrow> mi_search now n (tb_minReq m) info;
          (if balanced = 0 then Some s
           else do {
             let req = (tb_minReq m)\<lparr>td_deadline := balanced\<rparr>;
             let s1 = s\<lparr>dp_father := (dp_father s)\<lparr>lk_waiting := Some (mi_updateAvailability now req info)\<rparr>\<rparr>;
             let gs = std_sort mg_less (mmp_groups b (tb_requester m) req 0 s1 @ mmp_groups b (tb_requester m) req 1 s1);
             let (left, parts, s2) = mmp_divide balanced gs n (\<lambda>_. 0) s1;
             let s3 = mmp_mark balanced parts 1 (mmp_mark balanced parts 0 s2);
             send_tasks (mmp_ops red now) b m parts True s3
           })
        })"

definition mmp_receive :: "(mmp_info \<Rightarrow> mmp_info) \<Rightarrow> (mmp_info msg \<Rightarrow> 32 word) \<Rightarrow> rat \<Rightarrow> rat \<Rightarrow> branch \<Rightarrow>
    mmp_info disp \<Rightarrow> addr \<Rightarrow> mmp_info msg \<Rightarrow> (bool \<times> mmp_info disp) option" where
  "mmp_receive red sz ubw beta b s src m =
    (let T = mmp_ops red (c_now (dp_comm s))
     in case m of
       MTaskBag tm \<Rightarrow> map_option (Pair True) (mmp_handle_bag red beta b src tm s)
     | MUpdateTimer \<Rightarrow> Some (True, disp_handle_timer T sz ubw b s)
     | MAvail i \<Rightarrow> Some (True, disp_handle_info T sz ubw b src i False s)
     | _ \<Rightarrow> Some (False, s))"

end
