(* ===== verification/Mmp_Props.thy ===== *)
theory Mmp_Props
  imports Mmp_Dispatcher
begin

text \<open>
  Where the dispatcher of the first-come policy sends the tasks of a bag.
\<close>

section \<open>Division\<close>

abbreviation group_room :: "mq_group list \<Rightarrow> nat" where
  "group_room gs \<equiv> \<Sum>g \<leftarrow> gs. unat (mg_tasks g)"

lemma use_group_frame [simp]:
  "dp_comm (use_group t g s) = dp_comm s"
  "lk_avail (dp_child (use_group t g s) c) = None \<longleftrightarrow> lk_avail (dp_child s c) = None"
  by (auto simp: use_group_def)

lemma mmp_mark_frame [simp]:
  "dp_comm (mmp_mark t parts c s) = dp_comm s"
  "lk_avail (dp_child (mmp_mark t parts c s) k) = None \<longleftrightarrow> lk_avail (dp_child s k) = None"
  by (auto simp: mmp_mark_def)

lemma mmp_divide_step:
  assumes "n \<noteq> 0"
  shows "mmp_divide t (g # gs) n parts s = mmp_divide t gs (n - min n (mg_tasks g))
    (parts(mg_branch g := parts (mg_branch g) + min n (mg_tasks g))) (use_group t g s)"
  using assms by (auto simp: min_def dest: leD)

lemma mmp_divide_result:
  assumes "mmp_divide t gs n parts s = (left, parts', s')" and "\<forall>g \<in> set gs. mg_branch g \<in> {0, 1}"
    and "unat (parts 0) + unat (parts 1) + unat n < 2 ^ 32"
  shows "unat (parts' 0) + unat (parts' 1) = unat (parts 0) + unat (parts 1) + min (unat n) (group_room gs)
    \<and> dp_comm s' = dp_comm s \<and> (\<forall>c. lk_avail (dp_child s' c) = None \<longleftrightarrow> lk_avail (dp_child s c) = None)
    \<and> (\<forall>c. parts' c \<noteq> parts c \<longrightarrow> c \<in> mg_branch ` set gs)"
  using assms
proof (induction gs arbitrary: n parts s)
  case Nil
  then show ?case by simp
next
  case (Cons g gs)
  show ?case
  proof (cases "n = 0")
    case True
    with Cons.prems(1) show ?thesis by simp
  next
    case False
    let ?k = "min n (mg_tasks g)"
    let ?p = "parts(mg_branch g := parts (mg_branch g) + ?k)"
    have k: "unat ?k = min (unat n) (unat (mg_tasks g))" by (auto simp: min_def word_le_nat_alt)
    have k2: "unat (n - ?k) = unat n - unat ?k" by (rule unat_sub) simp
    have "unat (?p 0) + unat (?p 1) = unat (parts 0) + unat (parts 1) + unat ?k"
      by (rule parts_add) (use Cons.prems(2,3) k in auto)
    note p = take_then_rest [OF this [unfolded k]]
    have room: "unat (?p 0) + unat (?p 1) + unat (n - ?k) < 2 ^ 32"
      unfolding k2 k p(2) by (rule Cons.prems(3))
    have sum: "unat (?p 0) + unat (?p 1) + min (unat (n - ?k)) (group_room gs)
        = unat (parts 0) + unat (parts 1) + min (unat n) (group_room (g # gs))"
      unfolding k2 k p(1) by simp
    have d: "mmp_divide t gs (n - ?k) ?p (use_group t g s) = (left, parts', s')"
      using Cons.prems(1) mmp_divide_step [OF False, of t g gs parts s] by simp
    have br: "\<forall>g \<in> set gs. mg_branch g \<in> {0, 1}" using Cons.prems(2) by simp
    note ih = Cons.IH [OF d br room]
    have "c \<in> mg_branch ` set (g # gs)" if "parts' c \<noteq> parts c" for c
      using ih that by (cases "c = mg_branch g") auto
    with ih sum show ?thesis by simp
  qed
qed

lemma group_branch: "g \<in> set (mmp_groups b a req c s) \<Longrightarrow> mg_branch g = c \<and> lk_avail (dp_child s c) \<noteq> None"
  by (cases "lk_avail (dp_child s c)") (auto simp: mmp_groups_def mk_group_def Let_def)


section \<open>Updates\<close>

lemma mi_reduced_frame: "mi_seq (mi_reduced H K n k i) = mi_seq i"
  by (cases "cluster_list (mq_ops i k) H K n (mi_summary i)") (simp_all add: mi_reduced_def mi_reduce_def)

interpretation mmp_avail: avail_info "mmp_ops (mi_reduced H K n k) now" for H K n k now
  by unfold_locales (simp_all add: mmp_ops_def mi_setSeq_def mi_setFromSch_def mi_reduced_frame)

section \<open>An example\<close>

definition one_queue :: mmp_info where
  "one_queue = mi_setQueueEnd 100 100 1000 0 (mk_mmp 0)"

definition small_task :: task_desc where
  "small_task = mk_task_desc\<lparr>td_maxMemory := 60, td_length := 1000\<rparr>"

text \<open>The branch is told by its father to take the bag.\<close>

definition mmp_example :: "mmp_info disp" where
  "mmp_example = (mk_disp example_branch \<lparr>c_local = Addr 1 1, c_now = 10, c_queue = [],
       c_net = [], c_timers = [], c_timerId = 0, c_rand = (\<lambda>n. 7), c_drawn = 0, c_exit = False\<rparr>)
     \<lparr>dp_child := (\<lambda>k. if k = 0 then (mk_link (Addr 2 1))\<lparr>lk_avail := Some one_queue\<rparr> else mk_link (Addr 3 1)),
      dp_father := (mk_link (Addr 9 1))\<lparr>lk_notified := Some one_queue\<rparr>\<rparr>"

definition mmp_bag :: taskbag_msg where
  "mmp_bag = example_bag\<lparr>tb_fromEN := False\<rparr>"

lemma example_search: "mi_search 10 4 small_task one_queue = Some 300000010"
proof -
  let ?f = "mi_room 10 small_task one_queue"
  have room: "?f 300000010 = 300" by code_simp
  have "room_up ?f 4 0 10 300000000 0 = room_up ?f 4 10 300000010 600000000 (?f 300000010)"
    by (subst room_up.simps) simp
  also have "\<dots> = Some (10, 300000010, 600000000, 300)"
    unfolding room by (subst room_up.simps) simp
  finally have up: "room_up ?f 4 0 10 300000000 0 = Some (10, 300000010, 600000000, 300)" .
  have "room_down ?f 4 10 300000010 600000000 0 300 = room_down ?f 4 10 300000010 300000000 300 (?f 300000010)"
    by (subst room_down.simps) (simp add: Let_def room)
  also have "\<dots> = Some 300000010" unfolding room by (subst room_down.simps) simp
  finally show ?thesis by (simp add: mi_search_def up)
qed

lemma mmp_search_result_witness:
  "\<exists>k. mi_search 10 4 small_task one_queue = Some (tried 10 k) \<and> k = 1"
proof -
  obtain k where k: "mi_search 10 4 small_task one_queue = Some (tried 10 k)"
    "\<forall>j \<in> {1..<k}. mi_room 10 small_task one_queue (tried 10 j) < 4" "1 \<le> k"
    using mmp_search_result [of 4 10 small_task one_queue] by auto
  have "\<not> mi_room 10 small_task one_queue (tried 10 1) < 4" by code_simp
  with k(2,3) have "k = 1" by (metis atLeastLessThan_iff le_eq_less_or_eq order_refl)
  with k(1) show ?thesis by blast
qed


lemma mmp_reduce_safe_witness:
  "\<exists>i'. mi_reduce (sorted_heap dl_less) 10 1 1 (mi_join 5 one_queue one_queue) = Some i' \<and> queues (mi_summary i') = 2"
proof -
  have "queues (mi_summary (mi_join 5 one_queue one_queue)) = 2" "list_all mq_ok (mi_summary (mi_join 5 one_queue one_queue))"
    by code_simp+
  with mmp_reduce_safe [OF dl_order.sorted_range, of "mi_join 5 one_queue one_queue" 10 1 1] show ?thesis by auto
qed

end
