(* ===== verification/Ld_Function.thy ===== *)
theory Ld_Function
  imports Sched_Policies Fsp_Tasks
begin

text \<open>
  \<open>src/lib/scheduling/policies/LDeltaFunction.cpp\<close>: the piecewise linear function that gives, for each
  moment, how many operations a node can do before it without missing a deadline. Values and slopes,
  \<open>double\<close>s in the program, are exact rationals.
\<close>

record ld =
  ld_points :: "(time \<times> rat) list"
  ld_slope :: rat

definition mk_ld :: ld where
  "mk_ld = \<lparr>ld_points = [], ld_slope = 0\<rparr>"

section \<open>The function of a queue\<close>

text \<open>
  From the last task of the queue to the second one, each as late as possible: \<open>ns\<close> is the latest
  start of the tasks seen so far, and a task that must end before it leaves a hole.
\<close>

fun hole_ends :: "(time \<times> int) list \<Rightarrow> time \<Rightarrow> time list \<Rightarrow> time \<times> time list" where
  "hole_ends [] ns ends = (ns, ends)"
| "hole_ends ((dl, c) # q) ns ends =
    (if dl < ns then hole_ends q (dl - c) (dl # ns # ends) else hole_ends q (ns - c) ends)"

definition ld_endpoints :: "time \<Rightarrow> (time \<times> int) list \<Rightarrow> time list" where
  "ld_endpoints now q =
    (case q of [] \<Rightarrow> []
     | t # ts \<Rightarrow> (now + snd t) #
         (if ts = [] then []
          else (let (ns, ends) = hole_ends (rev ts) (fst (last ts)) [fst (last ts)] in ns # ends)))"

fun hole_points :: "rat \<Rightarrow> rat \<Rightarrow> time list \<Rightarrow> (time \<times> rat) list" where
  "hole_points pw av (a # b # r) = (a, av) # (b, av + secs (b - a) * pw) # hole_points pw (av + secs (b - a) * pw) r"
| "hole_points pw av [a] = [(a, av)]"
| "hole_points pw av [] = []"

definition ld_make :: "rat \<Rightarrow> time \<Rightarrow> (time \<times> int) list \<Rightarrow> ld" where
  "ld_make pw now q = \<lparr>ld_points = hole_points pw 0 (ld_endpoints now q), ld_slope = pw\<rparr>"

section \<open>Availability before a deadline\<close>

fun ld_seek :: "rat \<Rightarrow> time \<times> rat \<Rightarrow> (time \<times> rat) list \<Rightarrow> time \<Rightarrow> rat" where
  "ld_seek slope prev [] d = snd prev + secs (d - fst prev) * slope"
| "ld_seek slope prev (p # ps) d =
    (if fst p < d then ld_seek slope p ps d
     else snd prev + secs (d - fst prev) *
       (if fst p \<noteq> fst prev then (snd p - snd prev) / secs (fst p - fst prev) else 0))"

definition ld_before :: "time \<Rightarrow> ld \<Rightarrow> time \<Rightarrow> rat" where
  "ld_before now f d =
    (if ld_points f = [] \<and> d > now then ld_slope f * (secs (d - now) - 1)
     else if d \<le> now \<or> d < fst (hd (ld_points f)) then 0
     else ld_seek (ld_slope f) (hd (ld_points f)) (tl (ld_points f)) d)"

definition ld_isFree :: "ld \<Rightarrow> bool" where
  "ld_isFree f \<longleftrightarrow> ld_points f = []"

definition ld_horizon :: "time \<Rightarrow> ld \<Rightarrow> time" where
  "ld_horizon now f = (if ld_points f = [] then now + dur_of 1 else fst (last (ld_points f)))"

definition ld_eq :: "ld \<Rightarrow> ld \<Rightarrow> bool" where
  "ld_eq f g \<longleftrightarrow> ld_slope f = ld_slope g \<and> ld_points f = ld_points g"

section \<open>Stepping through several functions\<close>

text \<open>
  What the stepper keeps of a function: the points to come, the last one, the value at the current
  time and the slope. \<open>step\<close> gets a segment, the values at its start, the slopes, and which of the
  first two functions is below.
\<close>

record ld_cursor =
  lc_rest :: "(time \<times> rat) list"
  lc_last :: "time \<times> rat"
  lc_f :: rat
  lc_m :: rat
  lc_slope :: rat

type_synonym 's ld_step = "'s \<Rightarrow> time \<Rightarrow> time \<Rightarrow> rat list \<Rightarrow> rat list \<Rightarrow> nat \<Rightarrow> 's"

definition ld_first :: "time \<Rightarrow> ld list \<Rightarrow> time" where
  "ld_first ref fs = fold (\<lambda>f a. if ld_points f \<noteq> [] \<and> fst (hd (ld_points f)) < a then fst (hd (ld_points f)) else a) fs ref"

definition ld_start :: "time \<Rightarrow> ld \<Rightarrow> ld_cursor" where
  "ld_start a f = \<lparr>lc_rest = ld_points f, lc_last = (a, 0), lc_f = 0,
     lc_m = (if ld_points f \<noteq> [] then 0 else ld_slope f), lc_slope = ld_slope f\<rparr>"

fun ld_pick :: "nat \<Rightarrow> ld_cursor list \<Rightarrow> time \<times> nat \<Rightarrow> time \<times> nat" where
  "ld_pick i [] bn = bn"
| "ld_pick i (c # cs) bn =
    ld_pick (Suc i) cs (if lc_rest c \<noteq> [] \<and> fst (hd (lc_rest c)) < fst bn then (fst (hd (lc_rest c)), i) else bn)"

definition lc_at :: "time \<Rightarrow> ld_cursor \<Rightarrow> rat" where
  "lc_at b c = snd (lc_last c) + lc_m c * secs (b - fst (lc_last c))"

definition ld_move :: "time \<Rightarrow> ld_cursor list \<Rightarrow> ld_cursor list" where
  "ld_move b cs = map (\<lambda>c. c\<lparr>lc_f := lc_at b c\<rparr>) cs"

definition ld_order :: "ld_cursor list \<Rightarrow> nat" where
  "ld_order cs = (if lc_f (cs ! 0) < lc_f (cs ! 1) \<or> (lc_f (cs ! 0) = lc_f (cs ! 1) \<and> lc_m (cs ! 0) < lc_m (cs ! 1))
     then 0 else 1)"

definition ld_segment :: "'s ld_step \<Rightarrow> time \<Rightarrow> time \<Rightarrow> 's \<times> ld_cursor list \<Rightarrow> 's \<times> ld_cursor list" where
  "ld_segment step a b x =
    (let (st, cs) = x; fa = (\<lambda>cs. map lc_f cs); m = map lc_m cs in
     if b > a then
       (if (lc_at b (cs ! 0) - lc_at b (cs ! 1)) * (lc_f (cs ! 0) - lc_f (cs ! 1)) < 0 then
          (let order = ld_order cs;
               bb = a + dur_of ((lc_f (cs ! 1) - lc_f (cs ! 0)) / (lc_m (cs ! 0) - lc_m (cs ! 1)));
               (st1, cs1) = (if bb > a then (step st a bb (fa cs) m order, ld_move bb cs) else (st, cs))
           in if b > bb then (step st1 bb b (fa cs1) m (1 - order), ld_move b cs1) else (st1, cs1))
        else (step st a b (fa cs) m (ld_order cs), ld_move b cs))
     else x)"

definition ld_advance :: "time \<Rightarrow> ld_cursor \<Rightarrow> ld_cursor" where
  "ld_advance a c =
    (let c1 = (case lc_rest c of [] \<Rightarrow> c | p # ps \<Rightarrow> c\<lparr>lc_last := p, lc_f := snd p, lc_rest := ps\<rparr>)
     in c1\<lparr>lc_m := (case lc_rest c1 of [] \<Rightarrow> lc_slope c1
                   | p # ps \<Rightarrow> (snd p - lc_f c1) / secs (fst p - a))\<rparr>)"

text \<open>The loop ends because each turn uses up a point or reaches the horizon.\<close>

lemma ld_pick_result:
  "ld_pick i cs (b, n) = (b', n') \<Longrightarrow>
    (b', n') = (b, n) \<or> (i \<le> n' \<and> n' < i + length cs \<and> lc_rest (cs ! (n' - i)) \<noteq> [] \<and> b' = fst (hd (lc_rest (cs ! (n' - i)))))"
proof (induction cs arbitrary: i b n)
  case (Cons c cs)
  let ?b = "if lc_rest c \<noteq> [] \<and> fst (hd (lc_rest c)) < b then (fst (hd (lc_rest c)), i) else (b, n)"
  have "ld_pick (Suc i) cs (fst ?b, snd ?b) = (b', n')" using Cons.prems by simp
  from Cons.IH [OF this] show ?case
  proof
    assume "(b', n') = (fst ?b, snd ?b)"
    then show ?thesis by (auto split: if_splits)
  next
    assume n: "Suc i \<le> n' \<and> n' < Suc i + length cs \<and> lc_rest (cs ! (n' - Suc i)) \<noteq> []
      \<and> b' = fst (hd (lc_rest (cs ! (n' - Suc i))))"
    then have "(c # cs) ! (n' - i) = cs ! (n' - Suc i)" by (simp add: nth_Cons')
    with n show ?thesis by auto
  qed
qed simp

lemma ld_segment_rest:
  "ld_segment step a b (st, cs) = (st', cs') \<Longrightarrow> map lc_rest cs' = map lc_rest cs"
  by (auto simp: ld_segment_def Let_def ld_move_def comp_def split: if_splits)

function ld_stepper :: "'s ld_step \<Rightarrow> time \<Rightarrow> time \<Rightarrow> 's \<times> ld_cursor list \<Rightarrow> 's" where
  "ld_stepper step h a x =
    (if a < h then
       (let (b, n) = ld_pick 0 (snd x) (h, 0);
            (st1, cs1) = ld_segment step a b x
        in ld_stepper step h b (st1, cs1[n := ld_advance b (cs1 ! n)]))
     else fst x)"
  by pat_completeness auto

termination
proof (relation "measure (\<lambda>(step, h, a, x). sum_list (map length (map lc_rest (snd x))) + (if a < h then 1 else 0))")
  show "wf (measure (\<lambda>(step :: 's ld_step, h, a, x). sum_list (map length (map lc_rest (snd x))) + (if a < h then 1 else 0)))"
    by simp
next
  fix step :: "'s ld_step" and h a x st1 cs1 b n p q
  assume lt: "a < h" and p: "p = ld_pick 0 (snd x) (h, 0)" "(b, n) = p"
    and q: "q = ld_segment step a b x" "(st1, cs1) = q"
  let ?cs = "snd x" and ?new = "cs1[n := ld_advance b (cs1 ! n)]"
  have rest: "map lc_rest cs1 = map lc_rest ?cs" using q ld_segment_rest [of step a b "fst x" ?cs st1 cs1] by simp
  have adv: "lc_rest (ld_advance b c) = tl (lc_rest c)" for c
    by (cases "lc_rest c") (simp_all add: ld_advance_def Let_def)
  have len: "length cs1 = length ?cs" using arg_cong [OF rest, of length] by simp
  have nth: "lc_rest (cs1 ! k) = lc_rest (?cs ! k)" if "k < length ?cs" for k
    using arg_cong [OF rest, of "\<lambda>l. l ! k"] that len by simp
  have new: "map lc_rest ?new = (map lc_rest ?cs)[n := tl (lc_rest (?cs ! n))]" if "n < length ?cs"
    using that by (simp add: map_update adv rest nth)
  have out: "map lc_rest ?new = map lc_rest ?cs" if "\<not> n < length ?cs"
    using that len rest by (simp add: list_update_beyond)
  from ld_pick_result [of 0 ?cs h 0 b n] p consider "b = h"
    | "n < length ?cs" "lc_rest (?cs ! n) \<noteq> []" by auto
  then show "((step, h, b, st1, ?new), step, h, a, x)
      \<in> measure (\<lambda>(step, h, a, x). sum_list (map length (map lc_rest (snd x))) + (if a < h then 1 else 0))"
  proof cases
    case 1
    have "sum_list (map length (map lc_rest ?new)) \<le> sum_list (map length (map lc_rest ?cs))"
      using new out sum_tl(1) [of n "map lc_rest ?cs"] by (cases "n < length ?cs") simp_all
    with 1 lt show ?thesis by (simp del: map_map)
  next
    case 2
    then have "sum_list (map length (map lc_rest ?new)) < sum_list (map length (map lc_rest ?cs))"
      using new sum_tl(2) [of n "map lc_rest ?cs"] by (simp del: map_map)
    with lt show ?thesis by (simp del: map_map)
  qed
qed

declare ld_stepper.simps [simp del]

definition ld_run :: "'s ld_step \<Rightarrow> ld list \<Rightarrow> time \<Rightarrow> time \<Rightarrow> 's \<Rightarrow> 's" where
  "ld_run step fs ref h st = (let a = ld_first ref fs in ld_stepper step h a (st, map (ld_start a) fs))"

section \<open>Minimum and maximum\<close>

record ld_build =
  lb_points :: "(time \<times> rat) list"
  lb_mm :: rat
  lb_lasty :: rat

definition mk_build :: ld_build where
  "mk_build = \<lparr>lb_points = [], lb_mm = 0, lb_lasty = 0\<rparr>"

definition min_step :: "ld_build ld_step" where
  "min_step s a b fa m i =
    (let s1 = (if lb_mm s \<noteq> m ! i then s\<lparr>lb_points := lb_points s @ [(a, fa ! i)], lb_mm := m ! i\<rparr> else s)
     in s1\<lparr>lb_lasty := fa ! i + m ! i * secs (b - a)\<rparr>)"

definition max_step :: "ld_build ld_step" where
  "max_step s a b fa m i = min_step s a b fa m (1 - i)"

definition either_points :: "ld \<Rightarrow> ld \<Rightarrow> bool" where
  "either_points l r \<longleftrightarrow> ld_points l \<noteq> [] \<or> ld_points r \<noteq> []"

text \<open>The horizon is that of the left function, if it has points.\<close>

definition ld_reach :: "ld \<Rightarrow> ld \<Rightarrow> time" where
  "ld_reach l r = (if ld_points l = [] then fst (last (ld_points r)) else fst (last (ld_points l)))"

definition ld_build_with :: "ld_build ld_step \<Rightarrow> time \<Rightarrow> ld \<Rightarrow> ld \<Rightarrow> ld \<Rightarrow> ld" where
  "ld_build_with step now l r self =
    (if either_points l r then
       (let h = ld_reach l r; s = ld_run step [l, r] now h mk_build
        in self\<lparr>ld_points := lb_points s @ [(h, lb_lasty s)]\<rparr>)
     else self)"

text \<open>The points of \<open>self\<close>, the object that gets the result, stay when neither function has any.\<close>

definition ld_min :: "time \<Rightarrow> ld \<Rightarrow> ld \<Rightarrow> ld \<Rightarrow> ld" where
  "ld_min now l r self = (ld_build_with min_step now l r self)
     \<lparr>ld_slope := (if ld_slope l < ld_slope r then ld_slope l else ld_slope r)\<rparr>"

definition ld_max :: "time \<Rightarrow> ld \<Rightarrow> ld \<Rightarrow> ld \<Rightarrow> ld" where
  "ld_max now l r self = (ld_build_with max_step now l r self)
     \<lparr>ld_slope := (if ld_slope l < ld_slope r then ld_slope r else ld_slope l)\<rparr>"

section \<open>Distances\<close>

definition clip :: "rat \<Rightarrow> rat" where
  "clip r = (if r < 0 then 0 else r)"

definition sq_term :: "nat list \<Rightarrow> time \<Rightarrow> time \<Rightarrow> rat list \<Rightarrow> rat list \<Rightarrow> nat \<Rightarrow> rat" where
  "sq_term v a b fa m i =
    (let k = 1 - i; n1 = fa ! k - fa ! i; n2 = m ! k - m ! i; dt = secs (b - a)
     in of_nat (v ! k) * ((n2 * n2 * dt / 3 + n2 * n1) * dt + n1 * n1) * dt)"

definition sq_step :: "nat list \<Rightarrow> rat ld_step" where
  "sq_step v s a b fa m i = s + clip (sq_term v a b fa m i)"

definition ld_sqdiff :: "ld \<Rightarrow> ld \<Rightarrow> time \<Rightarrow> time \<Rightarrow> rat" where
  "ld_sqdiff f r ref h = ld_run (sq_step [1, 1]) [f, r] ref h 0"

definition loss_term :: "time \<Rightarrow> time \<Rightarrow> rat list \<Rightarrow> rat list \<Rightarrow> nat \<Rightarrow> rat" where
  "loss_term a b fa m i =
    (let k = 1 - i; n1 = fa ! k - fa ! i; n2 = m ! k - m ! i; dt = secs (b - a); mc = m ! (3 - i); ca = fa ! (3 - i)
     in ((n2 * mc * dt / 3 + (n1 * mc + n2 * ca) / 2) * dt + n1 * ca) * dt)"

definition loss_step :: "nat list \<Rightarrow> rat ld_step" where
  "loss_step v s a b fa m i = sq_step v s a b fa m i + clip (loss_term a b fa m i)"

definition min_loss_step :: "nat list \<Rightarrow> (ld_build \<times> rat) ld_step" where
  "min_loss_step v s a b fa m i = (min_step (fst s) a b fa m i, loss_step v (snd s) a b fa m i)"

definition ld_minAndLoss :: "ld \<Rightarrow> ld \<Rightarrow> nat \<Rightarrow> nat \<Rightarrow> ld \<Rightarrow> ld \<Rightarrow> time \<Rightarrow> time \<Rightarrow> ld \<Rightarrow> rat \<times> ld" where
  "ld_minAndLoss l r lv rv lc rc ref h self =
    (let (s, loss) = ld_run (min_loss_step [lv, rv]) [l, r, lc, rc] ref h (mk_build, 0)
     in (loss, self\<lparr>ld_points := (if either_points l r then lb_points s @ [(h, lb_lasty s)] else []),
           ld_slope := (if ld_slope l < ld_slope r then ld_slope l else ld_slope r)\<rparr>))"

section \<open>Linear combinations\<close>

definition comb_step :: "rat \<Rightarrow> rat \<Rightarrow> ld_build ld_step" where
  "comb_step c0 c1 s a b fa m i =
    (let newm = c0 * m ! 0 + c1 * m ! 1;
         s1 = (if lb_mm s \<noteq> newm then s\<lparr>lb_points := lb_points s @ [(a, c0 * fa ! 0 + c1 * fa ! 1)], lb_mm := newm\<rparr> else s)
     in s1\<lparr>lb_lasty := c0 * (fa ! 0 + m ! 0 * secs (b - a)) + c1 * (fa ! 1 + m ! 1 * secs (b - a))\<rparr>)"

definition ld_lc :: "time \<Rightarrow> ld \<Rightarrow> ld \<Rightarrow> rat \<Rightarrow> rat \<Rightarrow> ld \<Rightarrow> ld" where
  "ld_lc now l r c0 c1 self =
    (let later = (\<lambda>f h. if ld_points f \<noteq> [] \<and> h < fst (last (ld_points f)) then fst (last (ld_points f)) else h);
         h = later r (later l now);
         self1 = (if either_points l r
                  then (let s = ld_run (comb_step c0 c1) [l, r] now h mk_build
                        in self\<lparr>ld_points := lb_points s @ [(h, lb_lasty s)]\<rparr>)
                  else self)
     in self1\<lparr>ld_slope := c0 * ld_slope l + c1 * ld_slope r\<rparr>)"

section \<open>Assigning tasks\<close>

text \<open>
  The points between two positions are replaced by two new ones. The last loop subtracts the length
  from the position \<open>lastElim\<close> on, where the old points after the deadline were, not where they are.
  \<open>None\<close> is a point past the end, or the quotient of two zeros where the task takes all there is.
\<close>

definition ld_lastElim :: "time \<Rightarrow> (time \<times> rat) list \<Rightarrow> nat" where
  "ld_lastElim deadline ps = length (takeWhile (\<lambda>p. fst p \<le> deadline) ps)"

definition ld_finalAvail :: "time \<Rightarrow> (time \<times> rat) list \<Rightarrow> rat" where
  "ld_finalAvail deadline ps =
    (let k = ld_lastElim deadline ps; prev = (if k = 0 then hd ps else ps ! (k - 1))
     in if k = length ps then snd prev
        else snd prev + secs (deadline - fst prev) * (snd (ps ! k) - snd prev) / secs (fst (ps ! k) - fst prev))"

definition ld_firstElim :: "nat \<Rightarrow> rat \<Rightarrow> (time \<times> rat) list \<Rightarrow> nat" where
  "ld_firstElim k final ps = length (takeWhile (\<lambda>p. snd p < final) (take k ps))"

definition ld_insert_task :: "rat \<Rightarrow> time \<Rightarrow> (time \<times> rat) list \<Rightarrow> (time \<times> rat) list option" where
  "ld_insert_task len deadline ps =
    (let k = ld_lastElim deadline ps;
         final = ld_finalAvail deadline ps - len;
         j = ld_firstElim k final ps;
         prev = (if j = 0 then hd ps else ps ! (j - 1))
     in if j < length ps \<and> snd (ps ! j) \<noteq> snd prev then
          (let start = fst prev + dur_of ((final - snd prev) * secs (fst (ps ! j) - fst prev) / (snd (ps ! j) - snd prev));
               qs = take j ps @ [(start, final), (deadline, final)] @ drop k ps
           in Some (take k qs @ map (\<lambda>p. (fst p, snd p - len)) (drop k qs)))
        else None)"

definition ld_update :: "time \<Rightarrow> 64 word \<Rightarrow> time \<Rightarrow> time \<Rightarrow> ld \<Rightarrow> ld option" where
  "ld_update now len deadline horizon f =
    (if ld_points f = [] then
       (let t = now + dur_of (of_int (uint len) / ld_slope f)
        in Some (f\<lparr>ld_points := [(t, 0), (horizon, ld_slope f * secs (horizon - t))]\<rparr>))
     else map_option (\<lambda>ps. f\<lparr>ld_points := ps\<rparr>) (ld_insert_task (of_int (uint len)) deadline (ld_points f)))"

end
