(* ===== verification/Dp_Info.thy ===== *)
theory Dp_Info
  imports Ld_Function Dispatcher Clustering_Props
begin

text \<open>
  \<open>include/DPAvailabilityInformation.hpp\<close> and its implementation: the summary of the free time of
  nodes with deadlines. The ranges that \<open>reduce\<close> computes are arguments of the operations of a
  cluster (\<open>dp_ref\<close>); \<open>now\<close> is the current time. A conversion of a negative \<open>double\<close> to an unsigned
  number, undefined in the source, wraps.
\<close>

section \<open>Clusters\<close>

record df_cluster =
  df_value :: "32 word"
  df_minM :: "32 word"
  df_minD :: "32 word"
  df_minA :: ld
  df_accumMsq :: rat
  df_accumDsq :: rat
  df_accumMln :: rat
  df_accumDln :: rat
  df_accumAsq :: rat
  df_accumMaxA :: ld

definition mk_df :: "32 word \<Rightarrow> 32 word \<Rightarrow> ld \<Rightarrow> df_cluster" where
  "mk_df m d f = \<lparr>df_value = 1, df_minM = m, df_minD = d, df_minA = f, df_accumMsq = 0, df_accumDsq = 0,
     df_accumMln = 0, df_accumDln = 0, df_accumAsq = 0, df_accumMaxA = f\<rparr>"

definition df_eq :: "df_cluster \<Rightarrow> df_cluster \<Rightarrow> bool" where
  "df_eq c r \<longleftrightarrow> df_value c = df_value r
     \<and> df_minM c = df_minM r \<and> df_accumMsq c = df_accumMsq r \<and> df_accumMln c = df_accumMln r
     \<and> df_minD c = df_minD r \<and> df_accumDsq c = df_accumDsq r \<and> df_accumDln c = df_accumDln r
     \<and> df_accumAsq c = df_accumAsq r \<and> ld_eq (df_minA c) (df_minA r) \<and> ld_eq (df_accumMaxA c) (df_accumMaxA r)"

definition df_fulfills :: "task_desc \<Rightarrow> df_cluster \<Rightarrow> bool" where
  "df_fulfills req c \<longleftrightarrow> td_maxMemory req \<le> df_minM c \<and> td_maxDisk req \<le> df_minD c"

text \<open>What the clusters read of the information that is being reduced.\<close>

record dp_ref =
  dr_minM :: "32 word"
  dr_minD :: "32 word"
  dr_minA :: ld
  dr_horizon :: time
  dr_memRange :: "32 word"
  dr_diskRange :: "32 word"
  dr_availRange :: rat
  dr_time :: time
  dr_intervals :: "32 word"

text \<open>The squares and linear terms of a scalar whose new minimum is \<open>q\<close>.\<close>

definition df_sq :: "32 word \<Rightarrow> 32 word \<Rightarrow> 32 word \<Rightarrow> rat \<Rightarrow> rat \<Rightarrow> rat" where
  "df_sq q v p sq lt = (let d = of_int (uint (p - q)) in sq + of_int (uint v) * d * d + 2 * d * lt)"

definition df_ln :: "32 word \<Rightarrow> 32 word \<Rightarrow> 32 word \<Rightarrow> rat \<Rightarrow> rat" where
  "df_ln q v p lt = lt + of_int (uint v) * of_int (uint (p - q))"

text \<open>\<open>self\<close> is the object that gets the sum; the maximum keeps its points if no operand has any.\<close>

definition df_aggregate :: "dp_ref \<Rightarrow> df_cluster \<Rightarrow> df_cluster \<Rightarrow> df_cluster \<Rightarrow> df_cluster" where
  "df_aggregate R l r self =
    (let m = min (df_minM l) (df_minM r); d = min (df_minD l) (df_minD r);
         (loss, a) = ld_minAndLoss (df_minA l) (df_minA r) (unat (df_value l)) (unat (df_value r))
           (df_accumMaxA l) (df_accumMaxA r) (dr_time R) (dr_horizon R) mk_ld
     in self\<lparr>df_accumMsq := df_sq m (df_value l) (df_minM l) (df_accumMsq l) (df_accumMln l)
             + df_sq m (df_value r) (df_minM r) (df_accumMsq r) (df_accumMln r),
           df_accumMln := df_ln m (df_value l) (df_minM l) (df_accumMln l) + df_ln m (df_value r) (df_minM r) (df_accumMln r),
           df_accumDsq := df_sq d (df_value l) (df_minD l) (df_accumDsq l) (df_accumDln l)
             + df_sq d (df_value r) (df_minD r) (df_accumDsq r) (df_accumDln r),
           df_accumDln := df_ln d (df_value l) (df_minD l) (df_accumDln l) + df_ln d (df_value r) (df_minD r) (df_accumDln r),
           df_accumAsq := df_accumAsq l + df_accumAsq r + loss,
           df_accumMaxA := ld_max (dr_time R) (df_accumMaxA l) (df_accumMaxA r) (df_accumMaxA self),
           df_minM := m, df_minD := d, df_minA := a, df_value := df_value l + df_value r\<rparr>)"

definition df_distance :: "dp_ref \<Rightarrow> df_cluster \<Rightarrow> rat" where
  "df_distance R s =
    (let norm = (\<lambda>sq rg. if rg = 0 then 0 else sq / of_int (uint (df_value s * rg * rg)))
     in norm (df_accumMsq s) (dr_memRange R) + norm (df_accumDsq s) (dr_diskRange R)
       + (if dr_availRange R = 0 then 0 else df_accumAsq s / dr_availRange R / of_int (uint (df_value s))))"

definition df_cell :: "32 word \<Rightarrow> 32 word \<Rightarrow> 32 word \<Rightarrow> 32 word \<Rightarrow> 32 word" where
  "df_cell low rg k p = (p - low) * k div rg"

definition df_far :: "dp_ref \<Rightarrow> df_cluster \<Rightarrow> df_cluster \<Rightarrow> bool" where
  "df_far R c r \<longleftrightarrow>
     (dr_memRange R \<noteq> 0 \<and> df_cell (dr_minM R) (dr_memRange R) (dr_intervals R) (df_minM c)
        \<noteq> df_cell (dr_minM R) (dr_memRange R) (dr_intervals R) (df_minM r))
   \<or> (dr_diskRange R \<noteq> 0 \<and> df_cell (dr_minD R) (dr_diskRange R) (dr_intervals R) (df_minD c)
        \<noteq> df_cell (dr_minD R) (dr_diskRange R) (dr_intervals R) (df_minD r))
   \<or> ld_isFree (df_minA c) \<noteq> ld_isFree (df_minA r)
   \<or> (let g = (\<lambda>x. \<lfloor>ld_sqdiff (df_minA x) (dr_minA R) (dr_time R) (dr_horizon R) * of_int (uint (dr_intervals R))
            / dr_availRange R\<rfloor>)
      in dr_availRange R \<noteq> 0 \<and> g c \<noteq> g r)"

section \<open>The summary\<close>

record dp_info =
  da_seq :: "32 word"
  da_fromSch :: bool
  da_summary :: "df_cluster list"
  da_minM :: "32 word"
  da_maxM :: "32 word"
  da_minD :: "32 word"
  da_maxD :: "32 word"
  da_minA :: ld
  da_maxA :: ld
  da_horizon :: time

definition mk_dp :: "time \<Rightarrow> dp_info" where
  "mk_dp now = \<lparr>da_seq = 0, da_fromSch = True, da_summary = [], da_minM = 0, da_maxM = 0, da_minD = 0, da_maxD = 0,
     da_minA = mk_ld, da_maxA = mk_ld, da_horizon = now\<rparr>"

definition da_setSeq :: "32 word \<Rightarrow> dp_info \<Rightarrow> dp_info" where
  "da_setSeq n i = i\<lparr>da_seq := n\<rparr>"

definition da_setFromSch :: "bool \<Rightarrow> dp_info \<Rightarrow> dp_info" where
  "da_setFromSch f i = i\<lparr>da_fromSch := f\<rparr>"

definition da_addNode :: "time \<Rightarrow> 32 word \<Rightarrow> 32 word \<Rightarrow> ld \<Rightarrow> dp_info \<Rightarrow> dp_info" where
  "da_addNode now m d f i =
    (let i1 = i\<lparr>da_summary := da_summary i @ [mk_df m d f]\<rparr>
     in if length (da_summary i1) = 1
        then i1\<lparr>da_minM := m, da_maxM := m, da_minD := d, da_maxD := d, da_minA := f, da_maxA := f,
                da_horizon := ld_horizon now f\<rparr>
        else i1\<lparr>da_minM := min (da_minM i) m, da_maxM := max (da_maxM i) m,
                da_minD := min (da_minD i) d, da_maxD := max (da_maxD i) d,
                da_minA := ld_min now (da_minA i) f (da_minA i), da_maxA := ld_max now (da_maxA i) f (da_maxA i),
                da_horizon := max (da_horizon i) (ld_horizon now f)\<rparr>)"

definition da_join :: "time \<Rightarrow> dp_info \<Rightarrow> dp_info \<Rightarrow> dp_info" where
  "da_join now r i =
    (if da_summary r \<noteq> [] then
       (let i1 = (if da_summary i = []
          then i\<lparr>da_minM := da_minM r, da_maxM := da_maxM r, da_minD := da_minD r, da_maxD := da_maxD r,
                 da_minA := da_minA r, da_maxA := da_maxA r, da_horizon := da_horizon r\<rparr>
          else i\<lparr>da_minM := min (da_minM i) (da_minM r), da_maxM := max (da_maxM i) (da_maxM r),
                 da_minD := min (da_minD i) (da_minD r), da_maxD := max (da_maxD i) (da_maxD r),
                 da_minA := ld_min now (da_minA i) (da_minA r) (da_minA i),
                 da_maxA := ld_max now (da_maxA i) (da_maxA r) (da_maxA i),
                 da_horizon := max (da_horizon i) (da_horizon r)\<rparr>)
        in i1\<lparr>da_summary := da_summary i1 @ da_summary r\<rparr>)
     else i)"

definition da_eq :: "dp_info \<Rightarrow> dp_info \<Rightarrow> bool" where
  "da_eq i r \<longleftrightarrow> list_all2 df_eq (da_summary i) (da_summary r)"

definition da_ref :: "time \<Rightarrow> 32 word \<Rightarrow> dp_info \<Rightarrow> dp_ref" where
  "da_ref now k i = \<lparr>dr_minM = da_minM i, dr_minD = da_minD i, dr_minA = da_minA i, dr_horizon = da_horizon i,
     dr_memRange = da_maxM i - da_minM i, dr_diskRange = da_maxD i - da_minD i,
     dr_availRange = ld_sqdiff (da_maxA i) (da_minA i) now (da_horizon i), dr_time = now, dr_intervals = k\<rparr>"

text \<open>
  The pool slot that a sum is computed in is taken as a fresh one; the reductions of the functions
  after the clustering do nothing, since their bodies are commented out.
\<close>

definition df_ops :: "dp_ref \<Rightarrow> df_cluster cluster_ops" where
  "df_ops R = \<lparr>co_value = df_value, co_kill = (\<lambda>c. c\<lparr>df_value := 0\<rparr>),
     co_distance = (\<lambda>c r. df_distance R (df_aggregate R c r (mk_df 0 0 mk_ld))),
     co_sum = (\<lambda>c r. df_aggregate R c r (mk_df 0 0 mk_ld)), co_far = df_far R\<rparr>"

definition df_reduce :: "df_cluster \<Rightarrow> df_cluster" where
  "df_reduce c = c\<lparr>df_accumAsq := df_accumAsq c + 0\<rparr>"

definition da_reduce :: "df_cluster dlist heap_ops \<Rightarrow> nat \<Rightarrow> nat \<Rightarrow> 32 word \<Rightarrow> time \<Rightarrow> dp_info \<Rightarrow> dp_info option" where
  "da_reduce H K n k now i = map_option (\<lambda>cs. i\<lparr>da_summary := map df_reduce cs\<rparr>)
     (cluster_list (df_ops (da_ref now k i)) H K n (da_summary i))"

section \<open>Availability\<close>

record assign_info =
  as_cluster :: nat
  as_mem :: "32 word"
  as_disk :: "32 word"
  as_avail :: "32 word"
  as_tasks :: "32 word"

definition df_avail :: "time \<Rightarrow> time \<Rightarrow> df_cluster \<Rightarrow> 64 word" where
  "df_avail now d c =
    (let avail = word_of_int (trunc_rat (ld_before now (df_minA c) d)) :: 64 word;
         availNow = ucast (word_of_int (trunc_rat (ld_before now (df_minA c) now)) :: 32 word) :: 64 word
     in if avail > availNow then avail - availNow else 0)"

definition df_assign :: "time \<Rightarrow> task_desc \<Rightarrow> nat \<Rightarrow> df_cluster \<Rightarrow> assign_info option" where
  "df_assign now req k c =
    (let avail = df_avail now (td_deadline req) c
     in if df_value c > 0 \<and> avail \<ge> td_length req \<and> df_fulfills req c
        then Some \<lparr>as_cluster = k, as_mem = df_minM c - td_maxMemory req, as_disk = df_minD c - td_maxDisk req,
               as_avail = ucast (avail mod td_length req),
               as_tasks = df_value c * ucast (avail div td_length req)\<rparr>
        else None)"

definition da_available :: "time \<Rightarrow> task_desc \<Rightarrow> dp_info \<Rightarrow> assign_info list" where
  "da_available now req i =
    (if td_deadline req > now
     then List.map_filter (\<lambda>k. df_assign now req k (da_summary i ! k)) [0..<length (da_summary i)]
     else [])"

definition da_use :: "time \<Rightarrow> task_desc \<Rightarrow> assign_info \<Rightarrow> dp_info \<Rightarrow> dp_info option" where
  "da_use now req a i =
    (let c = da_summary i ! as_cluster a;
         perNode = word_of_int (trunc_rat (ld_before now (df_minA c) (td_deadline req) / of_int (uint (td_length req)))) :: 64 word
     in if perNode > 0 then
          (let n = ucast (as_tasks a) :: 64 word;
               numNodes = ucast (n div perNode) + (if n mod perNode \<noteq> 0 then 1 else 0) :: 32 word;
               c1 = c\<lparr>df_value := df_value c - numNodes\<rparr>;
               len = td_length req * (if perNode > n then n else perNode)
           in map_option (\<lambda>f. i\<lparr>da_summary := (da_summary i)[as_cluster a := c1] @ [c1\<lparr>df_value := numNodes, df_minA := f\<rparr>],
                  da_minA := ld_min now (da_minA i) f (da_minA i)\<rparr>)
                (ld_update now len (td_deadline req) (da_horizon i) (df_minA c1)))
        else Some i)"

fun da_update :: "time \<Rightarrow> task_desc \<Rightarrow> assign_info list \<Rightarrow> dp_info \<Rightarrow> dp_info option" where
  "da_update now req [] i = Some i"
| "da_update now req (a # as) i = Option.bind (da_use now req a i) (da_update now req as)"

end
