(* ===== verification/Dp_Dispatcher.thy ===== *)
theory Dp_Dispatcher
  imports Dp_Info Dispatcher_Props
begin

text \<open>
  \<open>src/lib/scheduling/policies/DPDispatcher.cpp\<close> and its header: the dispatcher of the policy with
  deadlines. It remembers the requests of the last ten seconds: one that comes again goes up, any
  other is divided between the groups of nodes that can still serve it, and the assigned time is
  taken from what is known of the children.
\<close>

section \<open>The instance of the template\<close>

definition da_reduced :: "df_cluster dlist heap_ops \<Rightarrow> nat \<Rightarrow> nat \<Rightarrow> 32 word \<Rightarrow> time \<Rightarrow> dp_info \<Rightarrow> dp_info" where
  "da_reduced H K n k now i = (case da_reduce H K n k now i of Some r \<Rightarrow> r | None \<Rightarrow> i)"

definition dl_ops :: "(dp_info \<Rightarrow> dp_info) \<Rightarrow> time \<Rightarrow> dp_info avail_ops" where
  "dl_ops red now = \<lparr>ao_seq = da_seq, ao_setSeq = da_setSeq, ao_fromSch = da_fromSch,
     ao_setFromSch = da_setFromSch, ao_join = da_join now, ao_reduce = red, ao_eq = da_eq,
     ao_childInfo = None\<rparr>"

text \<open>What a node with deadlines publishes: the function of its queue.\<close>

definition dp_availability :: "('x, dp_info) backend \<Rightarrow> ('x, dp_info, 'p) sched_scheme \<Rightarrow> dp_info option" where
  "dp_availability B s =
    Some (da_addNode (sc_now s) (ucast (be_memory B)) (ucast (be_disk B))
      (ld_make (be_power B) (sc_now s) (map (\<lambda>t. (tk_deadline t, be_estimate B (sc_now s) t)) (sc_tasks s)))
      (mk_dp (sc_now s)))"

section \<open>Recent requests\<close>

record recent_request =
  rr_requester :: addr
  rr_requestId :: int
  rr_when :: time

definition cache_time :: int where
  "cache_time = dur_of 10"

definition cache_size :: nat where
  "cache_size = 100"

definition rr_of :: "taskbag_msg \<Rightarrow> time \<Rightarrow> recent_request" where
  "rr_of m t = \<lparr>rr_requester = tb_requester m, rr_requestId = tb_requestId m, rr_when = t\<rparr>"

definition rr_same :: "taskbag_msg \<Rightarrow> recent_request \<Rightarrow> bool" where
  "rr_same m r \<longleftrightarrow> rr_requestId r = tb_requestId m \<and> rr_requester r = tb_requester m"

text \<open>Whether the request was there, and the cache afterwards.\<close>

definition cache_request :: "time \<Rightarrow> taskbag_msg \<Rightarrow> recent_request list \<Rightarrow> bool \<times> recent_request list" where
  "cache_request now m rs =
    (let live = dropWhile (\<lambda>r. now - rr_when r > cache_time) rs;
         before = takeWhile (\<lambda>r. \<not> rr_same m r) live;
         found = dropWhile (\<lambda>r. \<not> rr_same m r) live
     in if found \<noteq> [] then (True, before @ tl found @ [rr_of m now])
        else (let new = live @ [rr_of m now] in (False, if length new > cache_size then tl new else new)))"

section \<open>Groups of nodes\<close>

record dl_group =
  dg_info :: assign_info
  dg_branch :: nat
  dg_distance :: rat
  dg_availability :: "64 word"

definition mk_dl_group :: "branch \<Rightarrow> addr \<Rightarrow> nat \<Rightarrow> assign_info \<Rightarrow> dl_group" where
  "mk_dl_group b requester c a = \<lparr>dg_info = a, dg_branch = c, dg_distance = br_distance b c requester,
     dg_availability = ucast (10 * as_mem a + 1 * as_disk a + 100 * as_avail a)\<rparr>"

definition dg_less :: "dl_group \<Rightarrow> dl_group \<Rightarrow> bool" where
  "dg_less l r \<longleftrightarrow> dg_availability l < dg_availability r
     \<or> (dg_availability l = dg_availability r \<and> dg_distance l < dg_distance r)"

definition dl_groups :: "branch \<Rightarrow> addr \<Rightarrow> taskbag_msg \<Rightarrow> nat \<Rightarrow> dp_info disp \<Rightarrow> dl_group list" where
  "dl_groups b src m c s =
    (case lk_avail (dp_child s c) of
       None \<Rightarrow> []
     | Some i \<Rightarrow> if tb_fromEN m \<or> lk_addr (dp_child s c) \<noteq> src
         then map (mk_dl_group b (tb_requester m) c) (da_available (c_now (dp_comm s)) (tb_minReq m) i) else [])"

section \<open>Division\<close>

fun dl_divide :: "dl_group list \<Rightarrow> 32 word \<Rightarrow> (nat \<Rightarrow> 32 word) \<Rightarrow> (nat \<Rightarrow> assign_info list) \<Rightarrow>
    (nat \<Rightarrow> 32 word) \<times> (nat \<Rightarrow> assign_info list)" where
  "dl_divide [] n parts as = (parts, as)"
| "dl_divide (g # gs) n parts as =
    (if n = 0 then (parts, as)
     else
       (let c = dg_branch g; k = as_tasks (dg_info g)
        in if n > k then
             dl_divide gs (n - k) (parts(c := parts c + k)) (as(c := as c @ [dg_info g]))
           else
             dl_divide gs 0 (parts(c := parts c + n)) (as(c := as c @ [(dg_info g)\<lparr>as_tasks := n\<rparr>]))))"

definition dl_assign :: "task_desc \<Rightarrow> assign_info list \<Rightarrow> nat \<Rightarrow> dp_info disp \<Rightarrow> dp_info disp option" where
  "dl_assign req as c s =
    (case lk_avail (dp_child s c) of
       None \<Rightarrow> Some s
     | Some i \<Rightarrow> map_option (\<lambda>u. s\<lparr>dp_child := (dp_child s)(c := (dp_child s c)\<lparr>lk_avail := Some u, lk_new := True\<rparr>)\<rparr>)
         (da_update (c_now (dp_comm s)) req as i))"

section \<open>Handling a bag\<close>

record dl_disp =
  dd_disp :: "dp_info disp"
  dd_recent :: "recent_request list"

definition dl_route :: "(dp_info \<Rightarrow> dp_info) \<Rightarrow> (dp_info msg \<Rightarrow> 32 word) \<Rightarrow> rat \<Rightarrow> branch \<Rightarrow> addr \<Rightarrow> taskbag_msg \<Rightarrow>
    dp_info disp \<Rightarrow> dp_info disp option" where
  "dl_route red sz ubw b src m s =
    (let T = dl_ops red (c_now (dp_comm s));
         gs = std_sort dg_less (dl_groups b src m 0 s @ dl_groups b src m 1 s);
         (parts, as) = dl_divide gs (tb_lastTask m - tb_firstTask m + 1) (\<lambda>_. 0) (\<lambda>_. [])
     in do {
       s1 \<leftarrow> dl_assign (tb_minReq m) (as 0) 0 s;
       s2 \<leftarrow> dl_assign (tb_minReq m) (as 1) 1 s1;
       send_tasks T b m parts (lk_addr (dp_father s2) = null_addr)
         (disp_notify T sz ubw b (recompute_info T b s2))
     })"

definition dl_handle_bag :: "(dp_info \<Rightarrow> dp_info) \<Rightarrow> (dp_info msg \<Rightarrow> 32 word) \<Rightarrow> rat \<Rightarrow> branch \<Rightarrow> addr \<Rightarrow> taskbag_msg \<Rightarrow>
    dl_disp \<Rightarrow> dl_disp option" where
  "dl_handle_bag red sz ubw b src m x =
    (if tb_forEN m \<or> \<not> br_inNetwork b then Some x
     else
       (let s = dd_disp x; (again, rs) = cache_request (c_now (dp_comm s)) m (dd_recent x)
        in if again then
             Some (x\<lparr>dd_recent := rs, dd_disp := (if lk_addr (dp_father s) \<noteq> null_addr
               then s\<lparr>dp_comm := send_message (lk_addr (dp_father s)) (MTaskBag m) (dp_comm s)\<rparr> else s)\<rparr>)
           else map_option (\<lambda>s'. x\<lparr>dd_recent := rs, dd_disp := s'\<rparr>) (dl_route red sz ubw b src m s)))"

definition dl_receive :: "(dp_info \<Rightarrow> dp_info) \<Rightarrow> (dp_info msg \<Rightarrow> 32 word) \<Rightarrow> rat \<Rightarrow> branch \<Rightarrow>
    dl_disp \<Rightarrow> addr \<Rightarrow> dp_info msg \<Rightarrow> (bool \<times> dl_disp) option" where
  "dl_receive red sz ubw b x src m =
    (let T = dl_ops red (c_now (dp_comm (dd_disp x)))
     in case m of
       MTaskBag tm \<Rightarrow> map_option (Pair True) (dl_handle_bag red sz ubw b src tm x)
     | MUpdateTimer \<Rightarrow> Some (True, x\<lparr>dd_disp := disp_handle_timer T sz ubw b (dd_disp x)\<rparr>)
     | MAvail i \<Rightarrow> Some (True, x\<lparr>dd_disp := disp_handle_info T sz ubw b src i False (dd_disp x)\<rparr>)
     | _ \<Rightarrow> Some (False, x))"

end
