(* ===== verification/Ld_Props.thy ===== *)
theory Ld_Props
  imports Ld_Function Sched_Props
begin

text \<open>
  The function that a node with deadlines publishes and the test with which it accepts tasks, two
  separate computations in the program, agree: what is promised is what is accepted. Assigning a
  task to a published function, on the contrary, is seldom right.
\<close>

section \<open>Tasks as late as possible\<close>

text \<open>The latest start of a queue whose last deadline is \<open>e\<close>, and the ends of its holes.\<close>

fun latest :: "time \<Rightarrow> (time \<times> int) list \<Rightarrow> time" where
  "latest e [] = e"
| "latest e ((d, c) # q) = min d (latest e q) - c"

fun ends :: "time \<Rightarrow> (time \<times> int) list \<Rightarrow> time list" where
  "ends e [] = [e]"
| "ends e ((d, c) # q) = (if d < latest e q then d # latest e q # ends e q else ends e q)"

lemma hole_ends_append:
  "hole_ends (xs @ ys) ns es = (let (ns', es') = hole_ends xs ns es in hole_ends ys ns' es')"
  by (induction xs ns es rule: hole_ends.induct) auto

lemma hole_ends_rev: "hole_ends (rev q) e [e] = (latest e q, ends e q)"
  by (induction q) (auto simp: hole_ends_append)

section \<open>Free time\<close>

definition work :: "(time \<times> int) list \<Rightarrow> time \<Rightarrow> int" where
  "work q x = sum_list (map snd (takeWhile (\<lambda>t. fst t \<le> x) q))"

definition until :: "time \<Rightarrow> (time \<times> int) list \<Rightarrow> time \<Rightarrow> time" where
  "until e q x = (case dropWhile (\<lambda>t. fst t \<le> x) q of [] \<Rightarrow> x | r \<Rightarrow> min x (latest e r))"

text \<open>The time free between the latest start of the queue and a moment.\<close>

definition free :: "time \<Rightarrow> (time \<times> int) list \<Rightarrow> time \<Rightarrow> int" where
  "free e q x = (if x < latest e q then 0 else until e q x - latest e q - work q x)"

definition tidy :: "time \<Rightarrow> (time \<times> int) list \<Rightarrow> bool" where
  "tidy e q \<longleftrightarrow> sorted (map fst q) \<and> (\<forall>t \<in> set q. fst t \<le> e \<and> 0 \<le> snd t)"

lemma tidy_Cons [simp]:
  "tidy e ((d, c) # q) \<longleftrightarrow> tidy e q \<and> d \<le> e \<and> 0 \<le> c \<and> (\<forall>t \<in> set q. d \<le> fst t)"
  by (auto simp: tidy_def)

lemma latest_le: "tidy e q \<Longrightarrow> t \<in> set q \<Longrightarrow> latest e q \<le> fst t"
  by (induction e q rule: latest.induct) auto

lemma none_due: "\<forall>t \<in> set q. x < fst t \<Longrightarrow> work q x = 0 \<and> (q \<noteq> [] \<longrightarrow> until e q x = min x (latest e q))"
  by (cases q) (auto simp: work_def until_def)

lemma before_latest: "tidy e q \<Longrightarrow> x < latest e q \<Longrightarrow> work q x = 0 \<and> until e q x = x"
  using none_due [of q x e] latest_le [of e q] by (cases "q = []") (fastforce simp: until_def work_def)+

lemma free_early: "tidy e ((d, c) # q) \<Longrightarrow> x < d \<Longrightarrow> free e ((d, c) # q) x = 0"
  using none_due [of "(d, c) # q" x e] by (force simp: free_def)

lemma free_late:
  assumes "tidy e ((d, c) # q)" and "d \<le> x"
  shows "free e ((d, c) # q) x = (if x < latest e q then x - min d (latest e q)
    else latest e q - min d (latest e q) + free e q x)"
proof -
  have "free e ((d, c) # q) x = until e q x - min d (latest e q) - work q x"
    using assms by (auto simp: free_def until_def work_def)
  then show ?thesis using before_latest [of e q x] assms(1) by (simp add: free_def)
qed

lemma free_latest: "tidy e q \<Longrightarrow> free e q (latest e q) = 0"
proof (induction e q rule: latest.induct)
  case (2 e d c q)
  show ?case
  proof (cases "latest e ((d, c) # q) < d")
    case True
    then show ?thesis using free_early [OF "2.prems"] by simp
  next
    case False
    then have l: "latest e ((d, c) # q) = d" "d \<le> latest e q" using "2.prems" by auto
    have "free e ((d, c) # q) d = 0"
      using free_late [OF "2.prems", of d] "2.IH" "2.prems" l(2) by (cases "d = latest e q") auto
    then show ?thesis unfolding l(1) .
  qed
qed (simp add: free_def until_def work_def)

lemma free_nonneg: "tidy e q \<Longrightarrow> 0 \<le> free e q x"
proof (induction e q rule: latest.induct)
  case (2 e d c q)
  then show ?case using free_early [OF "2.prems", of x] free_late [OF "2.prems", of x]
    by (cases "x < d") (auto simp: min_def)
qed (simp add: free_def until_def work_def)

section \<open>The published function\<close>

lemma secs_add: "secs (a + b) = secs a + secs b" "secs 0 = 0"
  by (simp_all add: secs_def add_divide_distrib)

lemma seek_holes:
  assumes "tidy e q"
  shows "ld_seek pw (s, v) (hole_points pw v (ends e q)) x = v + secs (free e q x) * pw"
  using assms
proof (induction e q arbitrary: s v rule: latest.induct)
  case (1 e)
  then show ?case by (simp add: free_def until_def work_def secs_def)
next
  case (2 e d c q)
  let ?l = "latest e q" and ?q = "(d, c) # q"
  have t: "tidy e q" using "2.prems" by simp
  show ?case
  proof (cases "d < ?l")
    case False
    have "free e q x = 0" if "x < d"
    proof -
      have "\<forall>t \<in> set q. x < fst t" using that "2.prems" by auto
      then show ?thesis using none_due [of q x e] that False "2.prems" by (cases "q = []") (auto simp: free_def)
    qed
    then have "free e ?q x = free e q x"
      using free_early [OF "2.prems", of x] free_late [OF "2.prems", of x] False
      by (cases "x < d") (auto simp: free_def)
    with "2.IH" [OF t, of s v] False show ?thesis by simp
  next
    case True
    let ?v = "v + secs (?l - d) * pw"
    consider "x \<le> d" | "d < x" "x \<le> ?l" | "?l < x" using True by linarith
    then show ?thesis
    proof cases
      case 1
      then have "free e ?q x = 0"
        using free_early [OF "2.prems", of x] free_late [OF "2.prems", of x] True by (cases "x < d") auto
      with 1 True show ?thesis by (simp add: secs_def)
    next
      case 2
      then have "free e ?q x = x - d"
        using free_late [OF "2.prems", of x] True free_latest [OF t] by (cases "x = ?l") auto
      with 2 True show ?thesis by (simp add: secs_def)
    next
      case 3
      then have "free e ?q x = (?l - d) + free e q x" using free_late [OF "2.prems", of x] True by simp
      moreover have "ld_seek pw (s, v) (hole_points pw v (ends e ?q)) x = ld_seek pw (?l, ?v) (hole_points pw ?v (ends e q)) x"
        using 3 True by simp
      ultimately show ?thesis
        by (simp only: "2.IH" [OF t, of ?l ?v] secs_add distrib_right add.assoc)
    qed
  qed
qed

section \<open>What the scheduler accepts\<close>

lemma before_loop_result:
  assumes "\<And>t. g t = (tk_deadline t, be_estimate B now t)"
  shows "before_loop B now d st ts = (st + work (map g ts) d, dropWhile (\<lambda>t. tk_deadline t \<le> d) ts)"
  by (induction ts arbitrary: st) (auto simp: work_def assms)

lemma limit_loop_result:
  assumes "\<And>t. g t = (tk_deadline t, be_estimate B now t)" and "\<forall>t \<in> set r. d < tk_deadline t"
  shows "limit_loop B now d e (rev r @ p) = limit_loop B now d (latest e (map g r)) p"
  using assms(2) by (induction r arbitrary: p) (auto simp: assms(1) min.commute)

lemma limit_loop_stop: "\<forall>t \<in> set p. tk_deadline t \<le> d \<Longrightarrow> limit_loop B now d x p = x"
  by (cases p) auto

lemma due_suffix: "sorted (map f xs) \<Longrightarrow> y \<in> set (dropWhile (\<lambda>t. f t \<le> (d :: time)) xs) \<Longrightarrow> d < f y"
  by (induction xs) (auto split: if_splits)

lemma until_le: "until e q x \<le> x"
  by (auto simp: until_def split: list.split)

lemma work_nonneg: "tidy e q \<Longrightarrow> 0 \<le> work q x"
  unfolding work_def tidy_def by (intro sum_list_nonneg) (auto dest: set_takeWhileD)



section \<open>Assigning a task\<close>

text \<open>
  Two ways to change the elements of a list from a position on agree only at the same position.
\<close>

lemma change_from:
  assumes "\<And>x. f x \<noteq> x" and "n \<le> length xs"
  shows "take k xs @ map f (drop k xs) = take n xs @ map f (drop n xs) \<longleftrightarrow> min k (length xs) = n"
proof -
  have nth: "(take i xs @ map f (drop i xs)) ! l = (if l < i then xs ! l else f (xs ! l))" if "l < length xs" for i l
    using that by (auto simp: nth_append min_def)
  have "min k (length xs) = n" if eq: "take k xs @ map f (drop k xs) = take n xs @ map f (drop n xs)"
  proof (rule ccontr)
    assume ne: "min k (length xs) \<noteq> n"
    let ?l = "min k n"
    have l: "?l < length xs" using ne assms(2) by auto
    have "(if ?l < k then xs ! ?l else f (xs ! ?l)) = (if ?l < n then xs ! ?l else f (xs ! ?l))"
      using nth [OF l, of k] nth [OF l, of n] eq by simp
    then show False using ne l assms(1) [of "xs ! ?l"] assms(1) [of "xs ! ?l", symmetric] assms(2)
      by (simp add: min_def split: if_splits)
  qed
  then show ?thesis using assms(2) by (auto simp: min_def)
qed

text \<open>What the assignment of a task means to do: the old points after the deadline, and only they, go down.\<close>

definition ld_intended :: "rat \<Rightarrow> time \<Rightarrow> (time \<times> rat) list \<Rightarrow> time \<Rightarrow> (time \<times> rat) list" where
  "ld_intended len deadline ps start =
    (let k = ld_lastElim deadline ps; final = ld_finalAvail deadline ps - len
     in take (ld_firstElim k final ps) ps @ [(start, final), (deadline, final)]
       @ map (\<lambda>p. (fst p, snd p - len)) (drop k ps))"

text \<open>
  C27. When the assignment of a task to a function is right: exactly when it replaces two points, or when
  it replaces more and no point comes after the deadline. With fewer points between the start of
  the task and its deadline the new points lose the length of the task as well; with more, points
  after the deadline keep their value.
\<close>

theorem ld_assign_right_iff:
  assumes "ld_insert_task len deadline ps = Some qs" and "len \<noteq> 0"
  defines "k \<equiv> ld_lastElim deadline ps"
  defines "j \<equiv> ld_firstElim k (ld_finalAvail deadline ps - len) ps"
  shows "(\<exists>start. qs = ld_intended len deadline ps start) \<longleftrightarrow> k = j + 2 \<or> (j + 2 < k \<and> k = length ps)"
proof -
  let ?final = "ld_finalAvail deadline ps - len" and ?f = "\<lambda>p :: time \<times> rat. (fst p, snd p - len)"
  let ?Q = "\<lambda>start. take j ps @ [(start, ?final), (deadline, ?final)] @ drop k ps"
  have k: "k \<le> length ps" by (simp add: k_def ld_lastElim_def length_takeWhile_le)
  have j: "j \<le> k" "length (take j ps) = j"
    using k by (simp_all add: j_def ld_firstElim_def length_takeWhile_le [THEN order_trans] min_absorb2)
  from assms(1) obtain a where qs: "qs = take k (?Q a) @ map ?f (drop k (?Q a))"
    by (auto simp: ld_insert_task_def Let_def k_def j_def split: if_splits)
  have int: "ld_intended len deadline ps start = take (j + 2) (?Q start) @ map ?f (drop (j + 2) (?Q start))" for start
    using j(2) by (simp add: ld_intended_def Let_def k_def j_def)
  have f: "?f p \<noteq> p" for p using assms(2) by (cases p) simp
  have len: "length (?Q a) = j + 2 + (length ps - k)" using j(2) by simp
  have one: "start = a" if "qs = ld_intended len deadline ps start" for start
  proof -
    have "map fst (take k xs @ map ?f (drop k xs)) = map fst xs" for xs :: "(time \<times> rat) list"
      by (simp add: comp_def flip: take_map drop_map)
    then have "map fst qs = map fst (?Q a)" unfolding qs .
    moreover have "map fst (ld_intended len deadline ps start) = map fst (?Q start)"
      by (simp add: ld_intended_def Let_def comp_def k_def j_def)
    ultimately show ?thesis using that by simp
  qed
  have "(\<exists>start. qs = ld_intended len deadline ps start) \<longleftrightarrow> qs = ld_intended len deadline ps a"
    using one by blast
  also have "\<dots> \<longleftrightarrow> min k (length (?Q a)) = j + 2"
    unfolding qs int by (rule change_from [OF f]) (use len in simp)
  also have "\<dots> \<longleftrightarrow> k = j + 2 \<or> (j + 2 < k \<and> k = length ps)" unfolding len using k by (auto simp: min_def)
  finally show ?thesis .
qed

definition two_holes :: "(time \<times> rat) list" where
  "two_holes = [(0, 0), (10000000, 10), (20000000, 10), (30000000, 20), (40000000, 20), (50000000, 30)]"

theorem ld_assign_right_iff_witness:
  "\<not> (\<exists>start. the (ld_insert_task 20 45000000 two_holes) = ld_intended 20 45000000 two_holes start)"
proof -
  have "ld_insert_task 20 45000000 two_holes \<noteq> None" by code_simp
  then obtain qs where qs: "ld_insert_task 20 45000000 two_holes = Some qs" by blast
  have kj: "ld_lastElim 45000000 two_holes = 5" "ld_finalAvail 45000000 two_holes = 25"
    "ld_firstElim 5 5 two_holes = 1" "length two_holes = 6"
    by code_simp+
  from ld_assign_right_iff [OF qs] show ?thesis by (simp add: qs kj)
qed

section \<open>Beyond the last point\<close>

lemma seek_past: "\<forall>q \<in> set ps. fst q < d \<Longrightarrow>
    ld_seek slope p ps d = snd (last (p # ps)) + secs (d - fst (last (p # ps))) * slope"
  by (induction ps arbitrary: p) auto

text \<open>
  C28. A deadline after the last point: the availability before it counts the time after that point, the
  assignment does not. A task at least as long as all there is up to the last point, which such a
  deadline may well leave room for, is placed by the quotient of two zeros.
\<close>

theorem ld_update_past_points:
  assumes "ld_points f = p # ps" and "\<forall>q \<in> set (p # ps). fst q < d" and "now < d"
    and "snd (last (p # ps)) \<le> of_int (uint len) + snd p"
  shows "ld_before now f d = snd (last (p # ps)) + secs (d - fst (last (p # ps))) * ld_slope f
    \<and> ld_update now len d h f = None"
proof -
  have "ld_before now f d = ld_seek (ld_slope f) p ps d"
    using assms(1-3) by (simp add: ld_before_def)
  moreover have "ld_seek (ld_slope f) p ps d = snd (last (p # ps)) + secs (d - fst (last (p # ps))) * ld_slope f"
    by (rule seek_past) (use assms(2) in simp)
  ultimately have before: "ld_before now f d = snd (last (p # ps)) + secs (d - fst (last (p # ps))) * ld_slope f"
    by simp
  have "takeWhile (\<lambda>q. fst q \<le> d) (p # ps) = p # ps"
    using assms(2) by (intro takeWhile_eq_all_conv [THEN iffD2]) (auto intro: less_imp_le)
  then have k: "ld_lastElim d (p # ps) = Suc (length ps)" by (simp add: ld_lastElim_def)
  have fin: "ld_finalAvail d (p # ps) = snd (last (p # ps))"
    by (simp add: ld_finalAvail_def k Let_def last_conv_nth)
  have "ld_firstElim (Suc (length ps)) (snd (last (p # ps)) - of_int (uint len)) (p # ps) = 0"
    using assms(4) by (simp add: ld_firstElim_def)
  then have "ld_insert_task (of_int (uint len)) d (p # ps) = None"
    by (simp add: ld_insert_task_def Let_def k fin)
  with before assms(1) show ?thesis by (simp add: ld_update_def)
qed

theorem ld_update_past_points_witness:
  "ld_before 0 (ld_make 1000 0 [(5000000, 1000000), (10000000, 1000000)]) 20000000 = 18000 \<and>
   ld_update 0 9000 20000000 30000000 (ld_make 1000 0 [(5000000, 1000000), (10000000, 1000000)]) = None"
proof -
  let ?f = "ld_make 1000 0 [(5000000, 1000000), (10000000, 1000000)]"
  have p: "ld_points ?f = (1000000, 0) # [(9000000, 8000), (10000000, 8000)]" "ld_slope ?f = 1000" by code_simp+
  from ld_update_past_points [OF p(1), of 20000000 0 9000 30000000] show ?thesis
    by (simp add: p(2) secs_def)
qed


end
