(* ===== verification/Dp_Props.thy ===== *)
theory Dp_Props
  imports Dp_Dispatcher Ld_Props
begin

text \<open>
  What the policy with deadlines promises: which requests the cache remembers, where the tasks of a
  bag go, what a reduction keeps, and where the functions go wrong.
\<close>

section \<open>The cache of requests\<close>

abbreviation live :: "time \<Rightarrow> recent_request \<Rightarrow> bool" where
  "live now r \<equiv> now - rr_when r \<le> cache_time"

definition rr_key :: "recent_request \<Rightarrow> addr \<times> int" where
  "rr_key r = (rr_requester r, rr_requestId r)"

definition cache_ok :: "time \<Rightarrow> recent_request list \<Rightarrow> bool" where
  "cache_ok now rs \<longleftrightarrow> length rs \<le> cache_size \<and> distinct (map rr_key rs)
     \<and> sorted (map rr_when rs) \<and> (\<forall>r \<in> set rs. rr_when r \<le> now)"

lemma rr_of_simps [simp]: "rr_same m (rr_of m t)" "rr_when (rr_of m t) = t"
  by (simp_all add: rr_same_def rr_of_def)

lemma rr_same_key: "rr_same m r \<longleftrightarrow> rr_key r = rr_key (rr_of m t)"
  by (auto simp: rr_same_def rr_key_def rr_of_def)

lemma cache_ok_dropWhile: "cache_ok now rs \<Longrightarrow> cache_ok now (dropWhile P rs)"
  unfolding cache_ok_def dropWhile_eq_drop
  by (auto simp: drop_map [symmetric] intro: sorted_wrt_drop dest: in_set_dropD)

lemma live_suffix:
  assumes "sorted (map rr_when rs)"
  shows "set (dropWhile (\<lambda>r. \<not> live now r) rs) = {r \<in> set rs. live now r}"
  using assms by (induction rs) auto

text \<open>Adding a request that is not there, or taking out the one that is, keeps the cache in order.\<close>

lemma cache_ok_append:
  assumes "cache_ok now (xs @ ys)" and "now \<le> t" and "rr_key (rr_of m t) \<notin> rr_key ` set (xs @ ys)"
    and "length (xs @ ys) < cache_size"
  shows "cache_ok t (xs @ ys @ [rr_of m t])"
  using assms unfolding cache_ok_def by (auto simp: sorted_append intro: order_trans)

lemma cache_ok_remove: "cache_ok now (xs @ y # ys) \<Longrightarrow> cache_ok now (xs @ ys)"
  unfolding cache_ok_def by (auto simp: sorted_append)

lemma cache_ok_tl: "cache_ok now xs \<Longrightarrow> cache_ok now (tl xs)"
  using cache_ok_remove [of now "[]"] by (cases xs) auto


text \<open>
  C26. The cache of requests is exact: as long as time does not run back, a bag is taken as repeated
  exactly when one with the same requester and number was handled in the last ten seconds and is
  still in the cache; afterwards the bag is in it, with the present time, and the cache still holds
  at most a hundred requests, each once, by age.
\<close>

theorem dp_cache_exact:
  assumes "cache_ok t rs" and "t \<le> now" and "cache_request now m rs = (again, rs')"
  shows "(again \<longleftrightarrow> (\<exists>r \<in> set rs. rr_same m r \<and> live now r)) \<and> cache_ok now rs' \<and> rr_of m now \<in> set rs'"
proof -
  define lv where "lv = dropWhile (\<lambda>r. now - rr_when r > cache_time) rs"
  define fd where "fd = dropWhile (\<lambda>r. \<not> rr_same m r) lv"
  define bf where "bf = takeWhile (\<lambda>r. \<not> rr_same m r) lv"
  have sorted: "sorted (map rr_when rs)" using assms(1) by (simp add: cache_ok_def)
  have lv: "set lv = {r \<in> set rs. live now r}" using live_suffix [OF sorted, of now] by (simp add: lv_def not_le)
  have split: "lv = bf @ fd" by (simp add: bf_def fd_def)
  have ok: "cache_ok t lv" unfolding lv_def by (rule cache_ok_dropWhile [OF assms(1)])
  have hit: "fd \<noteq> [] \<longleftrightarrow> (\<exists>r \<in> set lv. rr_same m r)" by (auto simp: fd_def dropWhile_eq_Nil_conv)
  have res: "(again, rs') = (if fd \<noteq> [] then (True, bf @ tl fd @ [rr_of m now])
      else (False, if length (lv @ [rr_of m now]) > cache_size then tl (lv @ [rr_of m now]) else lv @ [rr_of m now]))"
    unfolding assms(3) [symmetric] cache_request_def lv_def fd_def bf_def Let_def ..
  have hits: "again \<longleftrightarrow> (\<exists>r \<in> set rs. rr_same m r \<and> live now r)"
    using res hit by (auto simp: lv split: if_splits)
  have "cache_ok now rs' \<and> rr_of m now \<in> set rs'"
  proof (cases fd)
    case (Cons r fs)
    then have "rr_same m r" using hd_dropWhile [of "\<lambda>r. \<not> rr_same m r" lv] by (auto simp: fd_def)
    then have key: "rr_key r = rr_key (rr_of m now)" by (simp add: rr_same_key [of m r now])
    have ok2: "cache_ok t (bf @ r # fs)" using ok split Cons by simp
    then have "rr_key r \<notin> rr_key ` set (bf @ fs)" "length (bf @ fs) < cache_size"
      by (auto simp: cache_ok_def)
    with cache_ok_append [OF cache_ok_remove [OF ok2] assms(2), of m] key res Cons show ?thesis by simp
  next
    case Nil
    then have new: "rr_key (rr_of m now) \<notin> rr_key ` set lv" using hit by (auto simp: rr_same_key [of m _ now])
    have len: "length lv \<le> cache_size" using ok by (simp add: cache_ok_def)
    show ?thesis
    proof (cases "length lv = cache_size")
      case True
      then have "lv \<noteq> []" by (auto simp: cache_size_def)
      then have "rs' = tl lv @ [rr_of m now]" "length (tl lv) < cache_size"
        using res Nil True by (auto simp: cache_size_def)
      moreover have "rr_key (rr_of m now) \<notin> rr_key ` set (tl lv)" using new by (auto dest: list.set_sel(2) [OF \<open>lv \<noteq> []\<close>])
      ultimately show ?thesis
        using cache_ok_append [of t "[]" "tl lv" now m] cache_ok_tl [OF ok] assms(2) by simp
    next
      case False
      then have "rs' = lv @ [rr_of m now]" "length lv < cache_size" using res Nil len by auto
      with cache_ok_append [of t "[]" lv now m] ok assms(2) new show ?thesis by simp
    qed
  qed
  with hits show ?thesis by blast
qed

text \<open>Several requests, one after the other.\<close>

definition cache_run :: "(time \<times> taskbag_msg) list \<Rightarrow> recent_request list \<Rightarrow> recent_request list" where
  "cache_run es rs = fold (\<lambda>(t, m) rs. snd (cache_request t m rs)) es rs"

text \<open>A fresh entry for the request with at most \<open>n\<close> younger ones.\<close>

definition remembers :: "time \<Rightarrow> taskbag_msg \<Rightarrow> nat \<Rightarrow> recent_request list \<Rightarrow> bool" where
  "remembers t m n rs \<longleftrightarrow> (\<exists>xs r ys. rs = xs @ r # ys \<and> rr_same m r \<and> t \<le> rr_when r \<and> length ys \<le> n)"

lemma remembers_added: "remembers t m n rs \<Longrightarrow> remembers t m (Suc n) (rs @ [r])"
  unfolding remembers_def by (metis append_Cons append_assoc le_imp_less_Suc length_append_singleton not_less_eq_eq not_le)

lemma dropWhile_keeps:
  assumes "\<not> P r" shows "\<exists>xs'. dropWhile P (xs @ r # ys) = xs' @ r # ys"
  using assms by (induction xs) auto

lemma cache_request_keeps:
  assumes "remembers t m n rs" and "t \<le> now" and "now \<le> t + cache_time" and "n < 99"
  shows "remembers t m (Suc n) (snd (cache_request now m' rs))"
proof -
  define lv where "lv = dropWhile (\<lambda>r. now - rr_when r > cache_time) rs"
  define fd where "fd = dropWhile (\<lambda>r. \<not> rr_same m' r) lv"
  define bf where "bf = takeWhile (\<lambda>r. \<not> rr_same m' r) lv"
  from assms(1) obtain xs r ys where r: "rs = xs @ r # ys" "rr_same m r" "t \<le> rr_when r" "length ys \<le> n"
    by (auto simp: remembers_def)
  have "\<not> now - rr_when r > cache_time" using r(3) assms(3) by simp
  then obtain zs where lv: "lv = zs @ r # ys"
    using dropWhile_keeps [of "\<lambda>r. now - rr_when r > cache_time" r xs ys] by (auto simp: lv_def r(1))
  have res: "snd (cache_request now m' rs) = (if fd \<noteq> [] then bf @ tl fd @ [rr_of m' now]
      else if length (lv @ [rr_of m' now]) > cache_size then tl (lv @ [rr_of m' now]) else lv @ [rr_of m' now])"
    by (simp add: cache_request_def lv_def fd_def bf_def Let_def)
  show ?thesis
  proof (cases "fd = []")
    case True
    show ?thesis
    proof (cases "length (lv @ [rr_of m' now]) > cache_size")
      case big: True
      then have "zs \<noteq> []" using lv r(4) assms(4) by (auto simp: cache_size_def)
      then have "tl (lv @ [rr_of m' now]) = tl zs @ r # (ys @ [rr_of m' now])" by (simp add: lv)
      moreover have "length (ys @ [rr_of m' now]) \<le> Suc n" using r(4) by simp
      ultimately show ?thesis using res big True r(2,3) unfolding remembers_def by metis
    next
      case False
      have "remembers t m n lv" unfolding remembers_def lv using r(2-4) by blast
      then show ?thesis using remembers_added res True False by simp
    qed
  next
    case False
    then obtain q fs where fd: "fd = q # fs" by (cases fd) auto
    have same: "rr_same m' q" using hd_dropWhile [of "\<lambda>r. \<not> rr_same m' r" lv] False
      unfolding fd_def [symmetric] by (simp add: fd)
    have cut: "zs @ r # ys = bf @ q # fs" 
    proof -
      have "lv = bf @ fd" by (simp add: bf_def fd_def)
      then show ?thesis using lv fd by simp
    qed
    then consider "q = r" | us where "zs = bf @ q # us" "fs = us @ r # ys"
      | us where "bf = zs @ r # us" "ys = us @ q # fs"
      by (auto simp: append_eq_append_conv2 Cons_eq_append_conv append_eq_Cons_conv)
    then show ?thesis
    proof cases
      case 1
      then have "rr_same m (rr_of m' now)" using same r(2) by (simp add: rr_same_def rr_of_def)
      then show ?thesis unfolding res fd remembers_def using assms(2)
        by (intro exI [of _ "bf @ fs"] exI [of _ "rr_of m' now"] exI [of _ "[]"]) simp
    next
      case 2
      then show ?thesis unfolding res fd remembers_def using r(2-4)
        by (intro exI [of _ "bf @ us"] exI [of _ r] exI [of _ "ys @ [rr_of m' now]"]) simp
    next
      case 3
      then show ?thesis unfolding res fd remembers_def using r(2-4)
        by (intro exI [of _ zs] exI [of _ r] exI [of _ "us @ fs @ [rr_of m' now]"]) simp
    qed
  qed
qed

lemma cache_run_keeps:
  assumes "remembers t m n rs" and "\<forall>(u, m') \<in> set es. t \<le> u \<and> u \<le> t + cache_time" and "n + length es \<le> 99"
  shows "remembers t m (n + length es) (cache_run es rs)"
  using assms
proof (induction es arbitrary: n rs)
  case (Cons e es)
  obtain u m' where e: "e = (u, m')" by force
  have "remembers t m (Suc n) (snd (cache_request u m' rs))"
    by (rule cache_request_keeps) (use Cons.prems e in auto)
  from Cons.IH [OF this] show ?case using Cons.prems e by (simp add: cache_run_def)
qed (simp add: cache_run_def)

lemma cache_request_remembers: "remembers t m 0 (snd (cache_request t m rs))"
proof -
  have tl: "\<exists>xs. tl (l @ [y]) = xs @ [y]" if "cache_size < length (l @ [y])" for l and y :: recent_request
    using that by (cases l) (auto simp: cache_size_def)
  have "\<exists>xs. snd (cache_request t m rs) = xs @ [rr_of m t]"
    by (simp add: cache_request_def Let_def tl)
  then show ?thesis by (force simp: remembers_def)
qed

lemma remembers_hit:
  assumes "remembers t m n rs" and "now \<le> t + cache_time"
  shows "fst (cache_request now m rs)"
proof -
  from assms(1) obtain xs r ys where r: "rs = xs @ r # ys" "rr_same m r" "t \<le> rr_when r"
    by (auto simp: remembers_def)
  have "\<not> now - rr_when r > cache_time" using r(3) assms(2) by simp
  then obtain zs where "dropWhile (\<lambda>r. now - rr_when r > cache_time) rs = zs @ r # ys"
    using dropWhile_keeps [of "\<lambda>r. now - rr_when r > cache_time" r xs ys] by (auto simp: r(1))
  then have "dropWhile (\<lambda>r. \<not> rr_same m r) (dropWhile (\<lambda>r. now - rr_when r > cache_time) rs) \<noteq> []"
    using r(2) by (auto simp: dropWhile_eq_Nil_conv)
  then show ?thesis by (simp add: cache_request_def Let_def)
qed

text \<open>
  A bag that comes again within ten seconds, with fewer than a hundred other requests in between,
  whatever they were, is not divided a second time: it goes to the father as it came, or nowhere
  at the root.
\<close>

theorem dp_repeat_goes_up:
  fixes x :: dl_disp
  defines "s \<equiv> dd_disp x"
  assumes "dd_recent x = cache_run es (snd (cache_request t m rs))"
    and "length es < cache_size" and "\<forall>(u, m') \<in> set es. t \<le> u \<and> u \<le> t + cache_time"
    and "c_now (dp_comm s) \<le> t + cache_time" and "\<not> tb_forEN m" and "br_inNetwork b"
  shows "\<exists>x'. dl_handle_bag red sz ubw b src m x = Some x' \<and> dd_disp x' =
    (if lk_addr (dp_father s) = null_addr then s
     else s\<lparr>dp_comm := send_message (lk_addr (dp_father s)) (MTaskBag m) (dp_comm s)\<rparr>)"
proof -
  have "remembers t m (0 + length es) (dd_recent x)"
    unfolding assms(2) by (rule cache_run_keeps [OF cache_request_remembers assms(4)])
      (use assms(3) in \<open>simp add: cache_size_def\<close>)
  from remembers_hit [OF this assms(5)]
  have "fst (cache_request (c_now (dp_comm s)) m (dd_recent x))" .
  then show ?thesis using assms(6,7)
    by (cases "cache_request (c_now (dp_comm s)) m (dd_recent x)") (simp add: dl_handle_bag_def s_def Let_def)
qed

section \<open>Division\<close>

abbreviation dl_room :: "dl_group list \<Rightarrow> nat" where
  "dl_room gs \<equiv> \<Sum>g \<leftarrow> gs. unat (as_tasks (dg_info g))"

lemma dl_divide_step:
  assumes "n \<noteq> 0"
  shows "\<exists>as'. dl_divide (g # gs) n parts as = dl_divide gs (n - min n (as_tasks (dg_info g)))
    (parts(dg_branch g := parts (dg_branch g) + min n (as_tasks (dg_info g)))) as'"
  using assms by (cases "n > as_tasks (dg_info g)") (auto simp: min_def Let_def dest: leD)

lemma dl_divide_result:
  assumes "dl_divide gs n parts as = (parts', as')" and "\<forall>g \<in> set gs. dg_branch g \<in> {0, 1}"
    and "unat (parts 0) + unat (parts 1) + unat n < 2 ^ 32"
  shows "unat (parts' 0) + unat (parts' 1) = unat (parts 0) + unat (parts 1) + min (unat n) (dl_room gs)"
  using assms
proof (induction gs arbitrary: n parts as)
  case Nil
  then show ?case by simp
next
  case (Cons g gs)
  show ?case
  proof (cases "n = 0")
    case True
    with Cons.prems(1) show ?thesis by simp
  next
    case False
    let ?k = "min n (as_tasks (dg_info g))"
    let ?p = "parts(dg_branch g := parts (dg_branch g) + ?k)"
    have k: "unat ?k = min (unat n) (unat (as_tasks (dg_info g)))" by (auto simp: min_def word_le_nat_alt)
    have k2: "unat (n - ?k) = unat n - unat ?k" by (rule unat_sub) simp
    have "unat (?p 0) + unat (?p 1) = unat (parts 0) + unat (parts 1) + unat ?k"
      by (rule parts_add) (use Cons.prems(2,3) k in auto)
    note p = take_then_rest [OF this [unfolded k]]
    have room: "unat (?p 0) + unat (?p 1) + unat (n - ?k) < 2 ^ 32"
      unfolding k2 k p(2) by (rule Cons.prems(3))
    obtain as1 where d: "dl_divide gs (n - ?k) ?p as1 = (parts', as')"
      using Cons.prems(1) dl_divide_step [OF False, of g gs parts as] by auto
    have "\<forall>g \<in> set gs. dg_branch g \<in> {0, 1}" using Cons.prems(2) by simp
    from Cons.IH [OF d this room] show ?thesis unfolding k2 k p(1) by simp
  qed
qed

lemma dl_group_branch: "g \<in> set (dl_groups b src m c s) \<Longrightarrow> dg_branch g = c"
  by (auto simp: dl_groups_def mk_dl_group_def split: option.splits if_splits)

lemma dl_assign_frame:
  "dl_assign req as c s = Some s' \<Longrightarrow> dp_comm s' = dp_comm s \<and> dp_father s' = dp_father s"
  by (auto simp: dl_assign_def split: option.splits)


section \<open>Reduction\<close>

definition df_nodes :: "df_cluster list \<Rightarrow> nat" where
  "df_nodes cs = (\<Sum>c \<leftarrow> cs. unat (df_value c))"

lemma df_simps [simp]:
  "co_value (df_ops R) = df_value" "df_value (df_reduce c) = df_value c"
  "df_fulfills req (df_reduce c) = df_fulfills req c"
  by (simp_all add: df_ops_def df_reduce_def df_fulfills_def)

lemma df_sum [simp]:
  "df_value (co_sum (df_ops R) a b) = df_value a + df_value b"
  "df_minM (co_sum (df_ops R) a b) = min (df_minM a) (df_minM b)"
  "df_minD (co_sum (df_ops R) a b) = min (df_minD a) (df_minD b)"
  by (simp_all add: df_ops_def df_aggregate_def Let_def split: prod.split)

interpretation df: summable "df_ops R" for R
  by unfold_locales (simp_all, simp add: df_ops_def)

lemma worth_df: "worth (df_ops R) (mset cs) = df_nodes cs"
  by (induction cs) (simp_all add: worth_def df_nodes_def)

text \<open>
  Reducing a summary of functions ends, keeps the number of nodes, and never shows more nodes with the
  memory and disk of a request than there were.
\<close>

theorem dp_reduce_safe:
  assumes "std_heap dl_less H heap" and "df_nodes (da_summary i) < 2 ^ 32"
  shows "\<exists>i'. da_reduce H K n k now i = Some i' \<and> df_nodes (da_summary i') = df_nodes (da_summary i)
    \<and> (\<forall>req. df_nodes (filter (df_fulfills req) (da_summary i')) \<le> df_nodes (filter (df_fulfills req) (da_summary i)))"
proof -
  let ?C = "df_ops (da_ref now k i)"
  have cl: "clusterer ?C dl_less H heap" by (intro clusterer.intro df.summable_axioms assms(1))
  have w: "worth ?C (mset (da_summary i)) < 2 ^ 32" using assms(2) by (simp only: worth_df)
  have "\<forall>c \<in> set (da_summary i). True" by simp
  from clusterer.cluster_list_result [OF cl w this, of K n, unfolded worth_df] obtain cs
    where cs: "cluster_list ?C H K n (da_summary i) = Some cs" "df_nodes cs = df_nodes (da_summary i)"
      and Q: "\<forall>Q. (\<forall>a b. True \<longrightarrow> True \<longrightarrow> True \<and> (Q (co_sum ?C a b) \<longrightarrow> Q a \<and> Q b)) \<longrightarrow>
        df_nodes (filter Q cs) \<le> df_nodes (filter Q (da_summary i))"
    by (elim exE conjE) rule
  have "df_nodes (filter (df_fulfills req) cs) \<le> df_nodes (filter (df_fulfills req) (da_summary i))" for req
    by (rule Q [rule_format]) (auto simp: df_fulfills_def)
  moreover have "df_nodes (filter (df_fulfills req) (map df_reduce cs)) = df_nodes (filter (df_fulfills req) cs)" for req
    by (simp add: df_nodes_def filter_map comp_def)
  moreover have "df_nodes (map df_reduce cs) = df_nodes cs" by (simp add: df_nodes_def comp_def)
  ultimately show ?thesis using cs
    by (intro exI [of _ "i\<lparr>da_summary := map df_reduce cs\<rparr>"]) (simp add: da_reduce_def)
qed

section \<open>Updates\<close>

lemma da_reduced_seq: "da_seq (da_reduced H K n k now i) = da_seq i"
  by (cases "cluster_list (df_ops (da_ref now k i)) H K n (da_summary i)") (simp_all add: da_reduced_def da_reduce_def)

interpretation dp_avail: avail_info "dl_ops (da_reduced H K n k now) now" for H K n k now
  by unfold_locales (simp_all add: dl_ops_def da_setSeq_def da_setFromSch_def da_reduced_seq)

section \<open>An example\<close>

definition busy_node :: dp_info where
  "busy_node = da_setSeq 1 (da_addNode 0 100 100 (ld_make 1000 0 [(5000000, 1000000), (10000000, 1000000)]) (mk_dp 0))"

text \<open>The root of the tree; its left child has free time for three tasks, its right child none.\<close>

definition dl_example :: dl_disp where
  "dl_example = \<lparr>dd_disp = (mk_disp (example_branch\<lparr>br_father := null_addr\<rparr>) \<lparr>c_local = Addr 1 1, c_now = 10,
       c_queue = [], c_net = [], c_timers = [], c_timerId = 0, c_rand = (\<lambda>n. 7), c_drawn = 0, c_exit = False\<rparr>)
     \<lparr>dp_child := (\<lambda>k. if k = 0 then (mk_link (Addr 2 1))\<lparr>lk_avail := Some busy_node\<rparr> else mk_link (Addr 3 1))\<rparr>,
     dd_recent = []\<rparr>"

definition dl_bag :: taskbag_msg where
  "dl_bag = example_bag\<lparr>tb_minReq := mk_task_desc\<lparr>td_maxMemory := 60, td_length := 2500, td_deadline := 9500000\<rparr>\<rparr>"

abbreviation example_root :: branch where
  "example_root \<equiv> example_branch\<lparr>br_father := null_addr\<rparr>"

abbreviation dl_run :: "dl_disp \<Rightarrow> dl_disp option" where
  "dl_run x \<equiv> dl_handle_bag (\<lambda>i. i) (\<lambda>m. 0) 0 example_root (Addr 2 1) dl_bag x"

lemma dl_bag_simps:
  "\<not> tb_forEN dl_bag" "br_inNetwork example_root" "tb_firstTask dl_bag \<le> tb_lastTask dl_bag" "tb_lastTask dl_bag < - 1"
  by code_simp+

theorem dp_cache_exact_witness:
  "fst (cache_request 5000000 dl_bag [rr_of dl_bag 10]) \<and> cache_ok 5000000 (snd (cache_request 5000000 dl_bag [rr_of dl_bag 10]))"
proof -
  have ok: "cache_ok 10 [rr_of dl_bag 10]" by (simp add: cache_ok_def cache_size_def)
  have live: "live 5000000 (rr_of dl_bag 10)" by code_simp
  obtain again rs where r: "cache_request 5000000 dl_bag [rr_of dl_bag 10] = (again, rs)" by force
  from dp_cache_exact [OF ok _ r] live show ?thesis unfolding r by simp
qed

theorem dp_repeat_goes_up_witness:
  "\<exists>x'. dl_run (dl_example\<lparr>dd_recent := cache_run [] (snd (cache_request 10 dl_bag []))\<rparr>) = Some x'
    \<and> dd_disp x' = dd_disp dl_example"
proof -
  let ?x = "dl_example\<lparr>dd_recent := cache_run [] (snd (cache_request 10 dl_bag []))\<rparr>"
  have "c_now (dp_comm (dd_disp ?x)) \<le> 10 + cache_time" "lk_addr (dp_father (dd_disp ?x)) = null_addr"
    by code_simp+
  with dp_repeat_goes_up [of ?x "[]" 10 dl_bag "[]" example_root] dl_bag_simps(1,2) show ?thesis
    by (simp add: cache_size_def)
qed


theorem dp_reduce_safe_witness:
  "\<exists>i'. da_reduce (sorted_heap dl_less) 10 1 1 10 (da_join 10 busy_node busy_node) = Some i' \<and> df_nodes (da_summary i') = 2"
proof -
  have "df_nodes (da_summary (da_join 10 busy_node busy_node)) = 2"
    by (simp add: busy_node_def da_join_def da_setSeq_def da_addNode_def mk_dp_def mk_df_def df_nodes_def Let_def)
  with dp_reduce_safe [OF dl_order.sorted_range, of "da_join 10 busy_node busy_node" 10 1 1 10] show ?thesis by auto
qed

end
