(* ===== verification/Za_Function.thy ===== *)
theory Za_Function
  imports Fsp_Tasks
begin

text \<open>
  \<open>include/ZAFunction.hpp\<close> and its implementation: the slowness that a node would reach with a new
  application, as a function of the length of its tasks, in pieces. The \<open>float\<close> and \<open>double\<close> values
  are exact rationals; the square root and the logarithm of the library are the arguments \<open>sq\<close> and
  \<open>lg\<close>. The constants of the classes are \<open>K\<close>, the greatest number of pieces, and \<open>Q\<close>, how many
  candidates a reduction keeps. \<open>update\<close>, which nothing calls, is left out.
\<close>

section \<open>Pieces\<close>

record sub_fun =
  pc_left :: rat
  pc_x :: rat
  pc_y :: rat
  pc_z1 :: rat
  pc_z2 :: rat

type_synonym za = "sub_fun list"

definition min_length :: rat where
  "min_length = 1000"

definition mk_piece :: "rat \<Rightarrow> rat \<Rightarrow> rat \<Rightarrow> rat \<Rightarrow> rat \<Rightarrow> sub_fun" where
  "mk_piece s x y z1 z2 = \<lparr>pc_left = s, pc_x = x, pc_y = y, pc_z1 = z1, pc_z2 = z2\<rparr>"

definition piece_from :: "rat \<Rightarrow> sub_fun \<Rightarrow> sub_fun" where
  "piece_from s p = p\<lparr>pc_left := s\<rparr>"

definition za_default :: za where
  "za_default = [mk_piece min_length 0 0 0 0]"

definition pc_covers :: "rat \<Rightarrow> sub_fun \<Rightarrow> bool" where
  "pc_covers a p \<longleftrightarrow> a \<ge> pc_left p"

definition pc_value :: "sub_fun \<Rightarrow> rat \<Rightarrow> int \<Rightarrow> rat" where
  "pc_value p a n = pc_x p / a + pc_y p * a * of_int n + pc_z1 p * of_int n + pc_z2 p"

definition pc_gradient :: "sub_fun \<Rightarrow> rat \<Rightarrow> rat" where
  "pc_gradient p a = pc_y p - pc_x p / (a * a)"

definition pc_extends :: "sub_fun \<Rightarrow> sub_fun \<Rightarrow> bool" where
  "pc_extends p l \<longleftrightarrow> pc_left p \<ge> pc_left l \<and> pc_x p = pc_x l \<and> pc_y p = pc_y l
     \<and> pc_z1 p = pc_z1 l \<and> pc_z2 p = pc_z2 l"

text \<open>A piece is appended, as \<open>new\<close>, unless \<open>p\<close> extends the last one.\<close>

definition za_push :: "sub_fun \<Rightarrow> sub_fun \<Rightarrow> za \<Rightarrow> za" where
  "za_push p new ps = (if ps = [] \<or> \<not> pc_extends p (last ps) then ps @ [new] else ps)"

section \<open>Values\<close>

definition za_piece :: "rat \<Rightarrow> za \<Rightarrow> sub_fun" where
  "za_piece a f = last (hd f # takeWhile (pc_covers a) (tl f))"

definition za_getSlowness :: "rat \<Rightarrow> za \<Rightarrow> rat" where
  "za_getSlowness a f = pc_value (za_piece a f) a 1"

definition za_estimateSlowness :: "64 word \<Rightarrow> 32 word \<Rightarrow> za \<Rightarrow> rat" where
  "za_estimateSlowness a n f = (let x = of_int (uint a) in pc_value (za_piece x f) x (sint n))"

definition za_horizon :: "za \<Rightarrow> rat" where
  "za_horizon f = (if f = [] then 0 else pc_left (last f))"

definition za_slowest :: "za \<Rightarrow> rat" where
  "za_slowest f = fold (\<lambda>p r. if pc_z1 p > r then pc_z1 p else r) f 0"

section \<open>The function of a queue\<close>

text \<open>
  One pass over the queue: \<open>e\<close> and \<open>ts\<close> are the time of the tasks so far, with and without the new
  one, and \<open>tm\<close> is the task that sets the greatest slowness.
\<close>

record za_scan =
  zs_e :: rat
  zs_tsum :: rat
  zs_maxS :: rat
  zs_maxT :: rat
  zs_before :: bool
  zs_minBefore :: bool
  zs_tm :: nat
  zs_tn :: nat
  zs_tasks :: "proxy list"

definition mk_scan :: za_scan where
  "mk_scan = \<lparr>zs_e = 0, zs_tsum = 0, zs_maxS = 0, zs_maxT = 0, zs_before = True, zs_minBefore = True,
     zs_tm = 0, zs_tn = 0, zs_tasks = []\<rparr>"

definition scan_task :: "proxy \<Rightarrow> za_scan \<Rightarrow> za_scan" where
  "scan_task p s =
    (let new = (tp_id p = - 1);
         tend = (if new then - 1 else if zs_before s then 0 else 1 / tp_a p);
         prev = (zs_before s \<and> \<not> new);
         tsum = (if new then zs_tsum s else zs_tsum s + tp_t p);
         e = zs_e s + tp_t p;
         sl = (e - tp_r p) / tp_a p;
         s1 = s\<lparr>zs_e := e, zs_tsum := tsum, zs_before := prev,
                zs_tn := (if new then length (zs_tasks s) else zs_tn s),
                zs_tasks := zs_tasks s @ [p\<lparr>tp_tsum := tsum\<rparr>]\<rparr>
     in if sl > zs_maxS s \<or> (sl = zs_maxS s \<and> tend > zs_maxT s)
        then s1\<lparr>zs_maxS := sl, zs_maxT := tend, zs_minBefore := prev, zs_tm := length (zs_tasks s)\<rparr> else s1)"

text \<open>The next length at which something changes: the least candidate above the present one.\<close>

definition nearer :: "rat \<Rightarrow> rat \<Rightarrow> ext \<Rightarrow> ext" where
  "nearer cur a m = (if a > cur \<and> Fin a < m then Fin a else m)"

text \<open>The greater root of \<open>x\<^sup>2 + b x - c\<close>, if there is one.\<close>

definition za_root :: "(rat \<Rightarrow> rat) \<Rightarrow> rat \<Rightarrow> rat \<Rightarrow> rat list" where
  "za_root sq b c = (if b * b + 4 * c \<ge> 0 then [(- b + sq (b * b + 4 * c)) / 2] else [])"

text \<open>The new task \<open>tn\<close> itself sets the slowness.\<close>

definition cands_new :: "(rat \<Rightarrow> rat) \<Rightarrow> rat \<Rightarrow> rat list \<Rightarrow> rat \<Rightarrow> proxy list \<Rightarrow> proxy \<Rightarrow> proxy list \<Rightarrow> rat list" where
  "cands_new sq pw bs maxS prev tn after =
    map (\<lambda>i. tp_a i * tp_tsum tn / (tp_tsum i - tp_a i / pw - tp_r i)) prev
    @ concat (map (\<lambda>i. za_root sq ((tp_tsum i - tp_r i) * pw - tp_a i) (tp_tsum tn * tp_a i * pw)) after)
    @ (if bs \<noteq> [] \<and> hd bs < maxS then [tp_tsum tn / (last (filter (\<lambda>b. b < maxS) bs) - 1 / pw)] else [])"

text \<open>
  A task before the new one sets it. A quotient by zero is infinite or not a number there, and such
  a candidate is never the nearest.
\<close>

definition cands_before :: "rat \<Rightarrow> proxy \<Rightarrow> proxy \<Rightarrow> proxy list \<Rightarrow> rat list" where
  "cands_before pw tm tn after =
    [tp_a tm * tp_tsum tn / (tp_tsum tm - tp_a tm / pw - tp_r tm)]
    @ map (\<lambda>i. (tp_a i * (tp_tsum tm - tp_r tm) / tp_a tm - tp_tsum i + tp_r i) * pw) after
    @ (case after of
         [] \<Rightarrow> []
       | tn1 # _ \<Rightarrow> (if tp_tsum tm = tp_r tm then [] else [tp_a tn1 - tp_a tm * tp_r tn1 / (tp_tsum tm - tp_r tm)]))"

text \<open>A task after it does.\<close>

definition cands_after :: "(rat \<Rightarrow> rat) \<Rightarrow> rat \<Rightarrow> rat list \<Rightarrow> rat \<Rightarrow> proxy list \<Rightarrow> proxy \<Rightarrow> proxy \<Rightarrow> proxy list \<Rightarrow> rat list" where
  "cands_after sq pw bs maxS prev tm tn after =
    map (\<lambda>i. (tp_a tm * (tp_tsum i - tp_r i) / tp_a i - tp_tsum tm + tp_r tm) * pw) prev
    @ za_root sq ((tp_tsum tm - tp_r tm) * pw - tp_a tm) (tp_tsum tn * tp_a tm * pw)
    @ map (\<lambda>i. ((tp_tsum tm - tp_r tm) * tp_a i - (tp_tsum i - tp_r i) * tp_a tm) * pw / (tp_a tm - tp_a i)) after
    @ (case after of
         [] \<Rightarrow> []
       | tn1 # _ \<Rightarrow> za_root sq ((tp_tsum tm - tp_r tm) * pw - tp_a tn1)
           ((tp_a tm * tp_r tn1 + tp_a tn1 * (tp_tsum tm - tp_r tm)) * pw))
    @ (if bs \<noteq> [] \<and> last bs > maxS then [(hd (filter (\<lambda>b. b > maxS) bs) * tp_a tm - tp_tsum tm + tp_r tm) * pw] else [])"

text \<open>One turn: the piece from the length of the new task on, and the next length.\<close>

definition za_turn :: "(rat \<Rightarrow> rat) \<Rightarrow> rat \<Rightarrow> rat list \<Rightarrow> proxy list \<Rightarrow> sub_fun \<times> ext \<times> proxy list \<times> proxy \<times> proxy list" where
  "za_turn sq pw bs ts =
    (let s = fold scan_task ts mk_scan; us = zs_tasks s; tn = us ! zs_tn s; tm = us ! zs_tm s;
         prev = take (zs_tn s) us; after = drop (Suc (zs_tn s)) us;
         (sf, as) =
           (if zs_tm s = zs_tn s then
              (mk_piece (tp_a tn) (tp_tsum tm) 0 (1 / pw) 0, cands_new sq pw bs (zs_maxS s) prev tn after)
            else if zs_minBefore s then
              (mk_piece (tp_a tn) 0 0 0 ((tp_tsum tm - tp_r tm) / tp_a tm), cands_before pw tm tn after)
            else
              (mk_piece (tp_a tn) 0 (1 / (tp_a tm * pw)) 0 ((tp_tsum tm - tp_r tm) / tp_a tm),
               cands_after sq pw bs (zs_maxS s) prev tm tn after))
     in (sf, fold (nearer (tp_a tn)) as Infinite, prev, tn, after))"

partial_function (option) za_loop :: "(rat \<Rightarrow> rat) \<Rightarrow> bool \<Rightarrow> time \<Rightarrow> rat \<Rightarrow> rat list \<Rightarrow> proxy list \<Rightarrow> za \<Rightarrow> za option" where
  "za_loop sq pre now pw bounds ts ps =
    Option.bind (add_boundary_values pre (last ts) ts bounds) (\<lambda>bs.
      (case za_turn sq pw bs (fl_sortMinSlowness pre now bs ts) of
         (sf, minA, prev, tn, after) \<Rightarrow>
           (case minA of
              Infinite \<Rightarrow> Some (za_push sf sf ps)
            | Fin a \<Rightarrow> za_loop sq pre now pw bounds (prev @ after @ [tn\<lparr>tp_a := a + 1, tp_t := (a + 1) / pw\<rparr>])
                (za_push sf sf ps))))"

definition za_make :: "(rat \<Rightarrow> rat) \<Rightarrow> bool \<Rightarrow> time \<Rightarrow> fsp_list \<Rightarrow> rat \<Rightarrow> za option" where
  "za_make sq pre now fl pw =
    (if fl_tasks fl = [] then Some [mk_piece min_length 0 0 (1 / pw) 0]
     else
       (let fl1 = fl_computeBoundaries pre now
              (fl\<lparr>fl_tasks := fl_updateReleaseTime now (fl_tasks fl @ [proxy_of_app min_length pw now])\<rparr>)
        in za_loop sq pre now pw (fl_bounds fl1) (fl_tasks fl1) []))"

end
