(* ===== verification/Za_Combine.thy ===== *)
theory Za_Combine
  imports Za_Function
begin

text \<open>
  The second half of \<open>ZAFunction.cpp\<close>: stepping through several functions at once, minimum, maximum,
  distances and the reduction to a few pieces.
\<close>

section \<open>Stepping\<close>

text \<open>Where the difference of two pieces changes its sign between \<open>s\<close> and \<open>e\<close>.\<close>

definition za_between :: "rat \<Rightarrow> ext \<Rightarrow> rat list \<Rightarrow> rat list" where
  "za_between s e cs = filter (\<lambda>c. c > s \<and> Fin c < e) cs"

definition ext_square :: "ext \<Rightarrow> ext" where
  "ext_square e = (case e of Fin x \<Rightarrow> Fin (x * x) | Infinite \<Rightarrow> Infinite)"

definition za_cross :: "(rat \<Rightarrow> rat) \<Rightarrow> rat \<Rightarrow> ext \<Rightarrow> rat \<Rightarrow> rat \<Rightarrow> rat \<Rightarrow> rat list" where
  "za_cross sq s e a b c =
    (if a = 0 then (if b \<noteq> 0 then za_between s e [- c / b] else [])
     else if b = 0 then map sq (za_between (s * s) (ext_square e) [- c / a])
     else
       (let square = b * b - 4 * a * c
        in if square = 0 then za_between s e [- b / (2 * a)]
           else if square > 0 then
             (let c1 = (- b + sq square) / (2 * a); c2 = (- b - sq square) / (2 * a)
              in za_between s e (if c1 > c2 then [c2, c1] else [c1, c2]))
           else []))"

text \<open>
  What a step gets: the two ends of a segment, the current pieces of the functions, and which of the
  first two is the greater one in the middle of the segment.
\<close>

type_synonym 's za_step = "'s \<Rightarrow> rat \<Rightarrow> ext \<Rightarrow> sub_fun list \<Rightarrow> nat \<Rightarrow> 's"

definition za_middle :: "rat \<Rightarrow> ext \<Rightarrow> rat" where
  "za_middle l r = (case r of Fin x \<Rightarrow> (l + x) / 2 | Infinite \<Rightarrow> l + 1000)"

fun za_segments :: "'s za_step \<Rightarrow> sub_fun list \<Rightarrow> rat \<Rightarrow> rat \<Rightarrow> rat \<Rightarrow> rat \<Rightarrow> ext list \<Rightarrow> 's \<Rightarrow> 's" where
  "za_segments step cur a b c l [] st = st"
| "za_segments step cur a b c l (r # rs) st =
    (let mid = za_middle l r;
         st1 = step st l r cur (if c / mid + a * mid + b > 0 then 0 else 1)
     in case r of Fin x \<Rightarrow> za_segments step cur a b c x rs st1 | Infinite \<Rightarrow> st1)"

definition za_interval :: "(rat \<Rightarrow> rat) \<Rightarrow> 's za_step \<Rightarrow> sub_fun list \<Rightarrow> rat \<Rightarrow> ext \<Rightarrow> 's \<Rightarrow> 's" where
  "za_interval sq step cur s e st =
    (let a = pc_y (cur ! 0) - pc_y (cur ! 1);
         b = pc_z1 (cur ! 0) - pc_z1 (cur ! 1) + pc_z2 (cur ! 0) - pc_z2 (cur ! 1);
         c = pc_x (cur ! 0) - pc_x (cur ! 1)
     in if Fin s < e then za_segments step cur a b c s (map Fin (za_cross sq s e a b c) @ [e]) st else st)"

text \<open>The pieces to come of each function: where the next interval ends, and whose piece it is.\<close>

fun za_next :: "nat \<Rightarrow> za list \<Rightarrow> ext \<times> nat \<Rightarrow> ext \<times> nat" where
  "za_next i [] en = en"
| "za_next i (f # fs) en =
    za_next (Suc i) fs (if f \<noteq> [] \<and> Fin (pc_left (hd f)) < fst en then (Fin (pc_left (hd f)), i) else en)"

lemma za_next_result:
  "za_next i fs (e, n) = (e', n') \<Longrightarrow>
    (e', n') = (e, n) \<or> (i \<le> n' \<and> n' < i + length fs \<and> fs ! (n' - i) \<noteq> [] \<and> e' = Fin (pc_left (hd (fs ! (n' - i)))))"
proof (induction fs arbitrary: i e n)
  case (Cons f fs)
  let ?b = "if f \<noteq> [] \<and> Fin (pc_left (hd f)) < e then (Fin (pc_left (hd f)), i) else (e, n)"
  have "za_next (Suc i) fs (fst ?b, snd ?b) = (e', n')" using Cons.prems by simp
  from Cons.IH [OF this] show ?case
  proof
    assume "(e', n') = (fst ?b, snd ?b)"
    then show ?thesis by (auto split: if_splits)
  next
    assume n: "Suc i \<le> n' \<and> n' < Suc i + length fs \<and> fs ! (n' - Suc i) \<noteq> []
      \<and> e' = Fin (pc_left (hd (fs ! (n' - Suc i))))"
    then have "(f # fs) ! (n' - i) = fs ! (n' - Suc i)" by (simp add: nth_Cons')
    with n show ?thesis by auto
  qed
qed simp

text \<open>An interval without end is the last one.\<close>

function za_stepper :: "(rat \<Rightarrow> rat) \<Rightarrow> 's za_step \<Rightarrow> rat \<Rightarrow> sub_fun list \<Rightarrow> za list \<Rightarrow> 's \<Rightarrow> 's" where
  "za_stepper sq step s cur rest st =
    (case za_next 0 rest (Infinite, 0) of
       (Infinite, n) \<Rightarrow> za_interval sq step cur s Infinite st
     | (Fin e, n) \<Rightarrow> za_stepper sq step e (cur[n := hd (rest ! n)]) (rest[n := tl (rest ! n)])
         (za_interval sq step cur s (Fin e) st))"
  by pat_completeness auto

termination
proof (relation "measure (\<lambda>(sq, step, s, cur, rest, st). sum_list (map length rest))")
  fix sq and step :: "'s za_step" and s cur and rest :: "za list" and st :: 's and x n e
  assume "x = Fin e" and "(x, n) = za_next 0 rest (Infinite, 0)"
  then have "za_next 0 rest (Infinite, 0) = (Fin e, n)" by simp
  from za_next_result [OF this] have n: "n < length rest" "rest ! n \<noteq> []" by auto
  show "((sq, step, e, cur[n := hd (rest ! n)], rest[n := tl (rest ! n)], za_interval sq step cur s (Fin e) st),
      sq, step, s, cur, rest, st) \<in> measure (\<lambda>(sq, step, s, cur, rest, st). sum_list (map length rest))"
    using sum_tl(2) [OF n] by simp
qed simp

declare za_stepper.simps [simp del]

definition za_run :: "(rat \<Rightarrow> rat) \<Rightarrow> 's za_step \<Rightarrow> za list \<Rightarrow> 's \<Rightarrow> 's" where
  "za_run sq step fs st = za_stepper sq step min_length (map hd fs) (map tl fs) st"

section \<open>Minimum, maximum and accumulated differences\<close>

definition za_low_step :: "za za_step" where
  "za_low_step ps s e cur m = za_push (cur ! (1 - m)) (piece_from s (cur ! (1 - m))) ps"

definition za_high_step :: "za za_step" where
  "za_high_step ps s e cur m = za_push (cur ! m) (piece_from s (cur ! m)) ps"

definition za_min :: "(rat \<Rightarrow> rat) \<Rightarrow> za \<Rightarrow> za \<Rightarrow> za" where
  "za_min sq l r = za_run sq za_low_step [l, r] []"

definition za_max :: "(rat \<Rightarrow> rat) \<Rightarrow> za \<Rightarrow> za \<Rightarrow> za" where
  "za_max sq l r = za_run sq za_high_step [l, r] []"

definition diff_piece :: "rat list \<Rightarrow> rat \<Rightarrow> sub_fun list \<Rightarrow> nat \<Rightarrow> sub_fun" where
  "diff_piece val s cur m =
    (let f = (\<lambda>g. g (cur ! 2) + g (cur ! 3) + val ! (1 - m) * (g (cur ! m) - g (cur ! (1 - m))))
     in mk_piece s (f pc_x) (f pc_y) (f pc_z1) (f pc_z2))"

definition za_maxDiff :: "(rat \<Rightarrow> rat) \<Rightarrow> za \<Rightarrow> za \<Rightarrow> 32 word \<Rightarrow> 32 word \<Rightarrow> za \<Rightarrow> za \<Rightarrow> za" where
  "za_maxDiff sq l r lv rv ml mr =
    za_run sq (\<lambda>ps s e cur m. let sf = diff_piece [of_int (uint lv), of_int (uint rv)] s cur m in za_push sf sf ps)
      [l, r, ml, mr] []"

section \<open>Distances\<close>

text \<open>The difference of the two first pieces is \<open>u / x + v x + w\<close>; \<open>ah\<close> stands for an infinite end.\<close>

record za_diff =
  zd_u :: rat
  zd_v :: rat
  zd_w :: rat
  zd_ab :: rat
  zd_ba :: rat
  zd_ba2 :: rat
  zd_ba3 :: rat
  zd_frac :: rat

definition za_terms :: "rat \<Rightarrow> rat \<Rightarrow> ext \<Rightarrow> sub_fun list \<Rightarrow> nat \<Rightarrow> za_diff" where
  "za_terms ah s e cur m =
    (let b = (case e of Infinite \<Rightarrow> ah | Fin x \<Rightarrow> x); f = cur ! m; g = cur ! (1 - m)
     in \<lparr>zd_u = pc_x f - pc_x g, zd_v = pc_y f - pc_y g, zd_w = pc_z1 f - pc_z1 g + pc_z2 f - pc_z2 g,
         zd_ab = s * b, zd_ba = b - s, zd_ba2 = b * b - s * s, zd_ba3 = b * b * b - s * s * s, zd_frac = b / s\<rparr>)"

definition za_square :: "(rat \<Rightarrow> rat) \<Rightarrow> za_diff \<Rightarrow> rat" where
  "za_square lg t = (zd_u t * zd_u t / zd_ab t + 2 * zd_u t * zd_v t + zd_w t * zd_w t) * zd_ba t
     + zd_w t * zd_v t * zd_ba2 t + zd_v t * zd_v t * zd_ba3 t / 3 + 2 * zd_u t * zd_w t * lg (zd_frac t)"

text \<open>The counts are converted to \<open>int\<close>.\<close>

definition za_sq_step :: "(rat \<Rightarrow> rat) \<Rightarrow> int list \<Rightarrow> rat \<Rightarrow> rat za_step" where
  "za_sq_step lg val ah res s e cur m = res + of_int (val ! (1 - m)) * za_square lg (za_terms ah s e cur m)"

definition za_sqdiff :: "(rat \<Rightarrow> rat) \<Rightarrow> (rat \<Rightarrow> rat) \<Rightarrow> za \<Rightarrow> za \<Rightarrow> rat \<Rightarrow> rat" where
  "za_sqdiff sq lg f r ah = za_run sq (za_sq_step lg [1, 1] ah) [f, r] 0"

text \<open>Twice the product of the difference and \<open>u2 / x + v2 x + w2\<close>, the piece that accumulates.\<close>

definition za_product :: "(rat \<Rightarrow> rat) \<Rightarrow> za_diff \<Rightarrow> sub_fun \<Rightarrow> rat" where
  "za_product lg t q =
    (let u2 = pc_x q; v2 = pc_y q; w2 = pc_z1 q + pc_z2 q
     in (zd_u t * u2 / zd_ab t + u2 * zd_v t + zd_u t * v2 + zd_w t * w2) * zd_ba t
       + (zd_w t * v2 + zd_v t * w2) * zd_ba2 t / 2 + zd_v t * v2 * zd_ba3 t / 3
       + (u2 * zd_w t + zd_u t * w2) * lg (zd_frac t))"

definition za_loss_step :: "(rat \<Rightarrow> rat) \<Rightarrow> int list \<Rightarrow> rat \<Rightarrow> (za \<times> rat) za_step" where
  "za_loss_step lg val ah st s e cur m =
    (za_high_step (fst st) s e cur m,
     za_sq_step lg val ah (snd st) s e cur m + 2 * za_product lg (za_terms ah s e cur m) (cur ! (3 - m)))"

definition za_maxAndLoss :: "(rat \<Rightarrow> rat) \<Rightarrow> (rat \<Rightarrow> rat) \<Rightarrow> za \<Rightarrow> za \<Rightarrow> 32 word \<Rightarrow> 32 word \<Rightarrow> za \<Rightarrow> za \<Rightarrow> rat \<Rightarrow> za \<times> rat" where
  "za_maxAndLoss sq lg l r lv rv ml mr ah = za_run sq (za_loss_step lg [sint lv, sint rv] ah) [l, r, ml, mr] ([], 0)"

section \<open>Reduction\<close>

definition three_points :: "rat \<times> rat \<Rightarrow> rat \<times> rat \<Rightarrow> rat \<times> rat \<Rightarrow> sub_fun" where
  "three_points p q r =
    (case (p, q, r) of ((a0, b0), (a1, b1), (a2, b2)) \<Rightarrow>
      let x = (b2 - b0 - (b1 - b0) * (a2 - a0) / (a1 - a0)) * a0 * a1 * a2 / ((a1 - a2) * (a0 - a2));
          y = (b1 - b0) / (a1 - a0) + x / (a0 * a1)
      in mk_piece a0 x y (b0 - a0 * y - x / a0) 0)"

text \<open>The slope is at the left end, or at the right one.\<close>

definition two_points :: "bool \<Rightarrow> rat \<times> rat \<Rightarrow> rat \<Rightarrow> rat \<times> rat \<Rightarrow> sub_fun" where
  "two_points left p slope r =
    (case (p, r) of ((a0, b0), (a2, b2)) \<Rightarrow>
      let x = (b2 - b0 - (a2 - a0) * slope) * (if left then a0 * a0 * a2 else - a2 * a2 * a0) / ((a0 - a2) * (a0 - a2));
          y = slope + x / (if left then a0 * a0 else a2 * a2)
      in mk_piece a0 x y (b0 - a0 * y - x / a0) 0)"

definition pc_above :: "sub_fun \<Rightarrow> sub_fun \<Rightarrow> sub_fun \<Rightarrow> rat \<Rightarrow> bool" where
  "pc_above p l r right \<longleftrightarrow>
    (let b2 = pc_value p (pc_left r) 1 * 100001 / 100000;
         up = (\<lambda>s. s + \<bar>s\<bar> / 100000)
     in (b2 \<ge> pc_value l (pc_left r) 1 \<and> b2 \<ge> pc_value r (pc_left r) 1)
       \<and> up (pc_gradient p (pc_left l)) \<ge> pc_gradient l (pc_left l)
       \<and> up (pc_gradient p right) \<le> pc_gradient r right)"

definition pc_join :: "sub_fun \<Rightarrow> sub_fun \<Rightarrow> rat \<Rightarrow> sub_fun" where
  "pc_join l r right =
    (let p = (pc_left l, pc_value l (pc_left l) 1);
         v = pc_value l (pc_left r) 1; w = pc_value r (pc_left r) 1;
         q = (pc_left r, if v < w then w else v);
         e = (right, pc_value r right 1);
         j = three_points p q e
     in if pc_above j l r right then j
        else (let k = two_points True p (pc_gradient l (pc_left l)) e
              in if pc_above k l r right then k
                 else two_points (pc_left l = right) p (pc_gradient r right) e))"

definition join_at :: "rat \<Rightarrow> za \<Rightarrow> nat \<Rightarrow> za" where
  "join_at horizon f i = take i f
     @ [pc_join (f ! i) (f ! Suc i) (if Suc (Suc i) = length f then horizon else pc_left (f ! Suc (Suc i)))]
     @ drop (Suc (Suc i)) f"

definition za_options :: "rat \<Rightarrow> za \<Rightarrow> za list" where
  "za_options horizon f = map (join_at horizon f) [0..<length f - 1]"

text \<open>
  The candidates are a \<open>std::multimap\<close> by their cost. \<open>stepper\<close> takes the step by value, so the sum
  is lost with the copy and the cost that is looked at is the initial one of a \<open>sqdiffStep\<close>.
\<close>

definition option_cost :: rat where
  "option_cost = 0"

fun multimap_insert :: "rat \<times> 'v \<Rightarrow> (rat \<times> 'v) list \<Rightarrow> (rat \<times> 'v) list" where
  "multimap_insert p [] = [p]"
| "multimap_insert p (q # qs) = (if fst p < fst q then p # q # qs else q # multimap_insert p qs)"

fun add_options :: "nat \<Rightarrow> za list \<Rightarrow> (rat \<times> za) list \<Rightarrow> (rat \<times> za) list option" where
  "add_options Q [] cs = Some cs"
| "add_options Q (f # fs) cs =
    (if length cs < Q then add_options Q fs (multimap_insert (option_cost, f) cs)
     else if cs = [] then None
     else if option_cost < fst (last cs) then add_options Q fs (multimap_insert (option_cost, f) (butlast cs))
     else add_options Q fs cs)"

partial_function (option) reduce_loop :: "nat \<Rightarrow> nat \<Rightarrow> rat \<Rightarrow> (rat \<times> za) list \<Rightarrow> (rat \<times> za) option" where
  "reduce_loop K Q horizon cs =
    (if cs = [] then None
     else if length (snd (hd cs)) > K
       then Option.bind (add_options Q (za_options horizon (snd (hd cs))) (tl cs)) (\<lambda>ds. reduce_loop K Q horizon ds)
     else Some (hd cs))"

text \<open>The reduced function and the cost that is returned.\<close>

definition za_reduceMax :: "nat \<Rightarrow> nat \<Rightarrow> rat \<Rightarrow> za \<Rightarrow> (za \<times> rat) option" where
  "za_reduceMax K Q horizon f =
    (if length f > K then map_option (\<lambda>(c, g). (g, c)) (reduce_loop K Q horizon [(0, f)]) else Some (f, 0))"

end
