(* ===== verification/Fsp_Info.thy ===== *)
theory Fsp_Info
  imports Za_Combine Dispatcher Ibp_Clustering
begin

text \<open>
  \<open>include/FSPAvailabilityInformation.hpp\<close> and its implementation: the summary of the slowness that
  the nodes of a branch would reach with a new application. \<open>sq\<close> and \<open>lg\<close> are the square root and
  the logarithm; the length horizon of the information that is being reduced is \<open>h\<close>.
\<close>

section \<open>Intervals of slowness\<close>

record slow_range =
  sw_min :: rat
  sw_max :: rat

definition sw_setLimits :: "rat \<Rightarrow> slow_range" where
  "sw_setLimits x = \<lparr>sw_min = x, sw_max = x\<rparr>"

definition sw_setMinimum :: "rat \<Rightarrow> slow_range \<Rightarrow> slow_range" where
  "sw_setMinimum x r = r\<lparr>sw_min := x, sw_max := (if sw_max r < x then x else sw_max r)\<rparr>"

definition sw_setMaximum :: "rat \<Rightarrow> slow_range \<Rightarrow> slow_range" where
  "sw_setMaximum x r = r\<lparr>sw_max := x, sw_min := (if sw_min r > x then x else sw_min r)\<rparr>"

definition sw_extend :: "slow_range \<Rightarrow> slow_range \<Rightarrow> slow_range" where
  "sw_extend o' r = r\<lparr>sw_min := (if sw_min r > sw_min o' then sw_min o' else sw_min r),
     sw_max := (if sw_max r < sw_max o' then sw_max o' else sw_max r)\<rparr>"

section \<open>Clusters\<close>

record fz_cluster =
  fz_value :: "32 word"
  fz_minM :: min_param
  fz_minD :: min_param
  fz_maxZ :: za
  fz_accumZsq :: rat
  fz_accumZmax :: za

definition mk_fz :: "32 word \<Rightarrow> 32 word \<Rightarrow> za \<Rightarrow> fz_cluster" where
  "mk_fz m d z = \<lparr>fz_value = 1, fz_minM = mk_param m, fz_minD = mk_param d, fz_maxZ = z, fz_accumZsq = 0,
     fz_accumZmax = z\<rparr>"

definition fz_eq :: "fz_cluster \<Rightarrow> fz_cluster \<Rightarrow> bool" where
  "fz_eq c r \<longleftrightarrow> fz_value c = fz_value r \<and> fz_minM c = fz_minM r \<and> fz_minD c = fz_minD r
     \<and> fz_accumZsq c = fz_accumZsq r \<and> fz_maxZ c = fz_maxZ r \<and> fz_accumZmax c = fz_accumZmax r"

text \<open>The comparison of an \<open>int32_t\<close> with a \<open>uint32_t\<close> is unsigned.\<close>

definition fz_fulfills :: "task_desc \<Rightarrow> fz_cluster \<Rightarrow> bool" where
  "fz_fulfills req c \<longleftrightarrow> td_maxMemory req \<le> mp_parameter (fz_minM c) \<and> td_maxDisk req \<le> mp_parameter (fz_minD c)"

text \<open>The old square is added twice: once by the assignment \<open>+=\<close> and once in the sum.\<close>

definition fz_aggregate :: "(rat \<Rightarrow> rat) \<Rightarrow> (rat \<Rightarrow> rat) \<Rightarrow> rat \<Rightarrow> fz_cluster \<Rightarrow> fz_cluster \<Rightarrow> fz_cluster" where
  "fz_aggregate sq lg h c r =
    (let (z, loss) = za_maxAndLoss sq lg (fz_maxZ c) (fz_maxZ r) (fz_value c) (fz_value r)
           (fz_accumZmax c) (fz_accumZmax r) h
     in c\<lparr>fz_accumZsq := fz_accumZsq c + (fz_accumZsq c + fz_accumZsq r + loss),
          fz_accumZmax := za_maxDiff sq (fz_maxZ c) (fz_maxZ r) (fz_value c) (fz_value r) (fz_accumZmax c) (fz_accumZmax r),
          fz_maxZ := z,
          fz_minM := mp_aggregate (ucast (fz_value c)) (fz_minM r) (ucast (fz_value r)) (fz_minM c),
          fz_minD := mp_aggregate (ucast (fz_value c)) (fz_minD r) (ucast (fz_value r)) (fz_minD c),
          fz_value := fz_value c + fz_value r\<rparr>)"

text \<open>
  The conditional operator binds less than the sum, so the norms of memory and disk are only part of
  its condition.
\<close>

definition fz_distance :: "interval \<Rightarrow> interval \<Rightarrow> rat \<Rightarrow> fz_cluster \<Rightarrow> rat" where
  "fz_distance mem disk sd s =
    (if mp_norm mem (fz_value s) (fz_minM s) + mp_norm disk (fz_value s) (fz_minD s) + sd \<noteq> 0
     then fz_accumZsq s / (of_int (uint (fz_value s)) * sd) else 0)"

definition fz_far :: "interval \<Rightarrow> interval \<Rightarrow> nat \<Rightarrow> fz_cluster \<Rightarrow> fz_cluster \<Rightarrow> bool" where
  "fz_far mem disk k c r \<longleftrightarrow> mp_far mem k (fz_minM c) (fz_minM r) \<or> mp_far disk k (fz_minD c) (fz_minD r)"

definition fz_reduce :: "nat \<Rightarrow> nat \<Rightarrow> rat \<Rightarrow> fz_cluster \<Rightarrow> fz_cluster option" where
  "fz_reduce K Q h c = do {
     (z, cost) \<leftarrow> za_reduceMax K Q h (fz_maxZ c);
     (zm, _) \<leftarrow> za_reduceMax K Q h (fz_accumZmax c);
     Some (c\<lparr>fz_maxZ := z, fz_accumZsq := fz_accumZsq c + of_int (uint (fz_value c)) * cost, fz_accumZmax := zm\<rparr>)
   }"

section \<open>The summary\<close>

record fsp_info =
  fi_seq :: "32 word"
  fi_fromSch :: bool
  fi_summary :: "fz_cluster list"
  fi_memory :: interval
  fi_disk :: interval
  fi_minZ :: za
  fi_maxZ :: za
  fi_horizon :: rat
  fi_slowness :: slow_range

definition mk_fsp :: fsp_info where
  "mk_fsp = \<lparr>fi_seq = 0, fi_fromSch = True, fi_summary = [], fi_memory = iv_default, fi_disk = iv_default,
     fi_minZ = za_default, fi_maxZ = za_default, fi_horizon = 0, fi_slowness = sw_setLimits 0\<rparr>"

definition fi_setSeq :: "32 word \<Rightarrow> fsp_info \<Rightarrow> fsp_info" where
  "fi_setSeq n i = i\<lparr>fi_seq := n\<rparr>"

definition fi_setFromSch :: "bool \<Rightarrow> fsp_info \<Rightarrow> fsp_info" where
  "fi_setFromSch f i = i\<lparr>fi_fromSch := f\<rparr>"

definition fi_eq :: "fsp_info \<Rightarrow> fsp_info \<Rightarrow> bool" where
  "fi_eq i r \<longleftrightarrow> list_all2 fz_eq (fi_summary i) (fi_summary r) \<and> fi_slowness i = fi_slowness r"

definition fi_setAvailability :: "(rat \<Rightarrow> rat) \<Rightarrow> bool \<Rightarrow> time \<Rightarrow> 32 word \<Rightarrow> 32 word \<Rightarrow> fsp_list \<Rightarrow> rat \<Rightarrow>
    fsp_info \<Rightarrow> fsp_info option" where
  "fi_setAvailability sq pre now m d fl pw i = map_option (\<lambda>z. i\<lparr>fi_memory := iv_setLimits m (fi_memory i),
       fi_disk := iv_setLimits d (fi_disk i), fi_slowness := sw_setLimits (fl_getSlowness now (fl_tasks fl)),
       fi_summary := [mk_fz m d z], fi_minZ := z, fi_maxZ := z, fi_horizon := za_horizon z\<rparr>)
     (za_make sq pre now fl pw)"

text \<open>The clusters that fulfil a request, by position.\<close>

definition fi_functions :: "task_desc \<Rightarrow> fsp_info \<Rightarrow> nat list" where
  "fi_functions req i = filter (\<lambda>k. fz_fulfills req (fi_summary i ! k)) [0..<length (fi_summary i)]"

text \<open>The walk goes on from the cluster erased last; \<open>i\<close> is the original position.\<close>

fun drop_clusters :: "nat list \<Rightarrow> nat \<Rightarrow> 'c list \<Rightarrow> 'c list" where
  "drop_clusters [] i cs = cs"
| "drop_clusters (k # ks) i [] = []"
| "drop_clusters (k # ks) i (c # cs) =
    (if i = k then drop_clusters ks (Suc i) cs else c # drop_clusters (k # ks) (Suc i) cs)"

definition fi_removeClusters :: "nat list \<Rightarrow> fsp_info \<Rightarrow> fsp_info" where
  "fi_removeClusters ks i = i\<lparr>fi_summary := drop_clusters ks 0 (fi_summary i)\<rparr>"

definition fi_slowest :: "fsp_info \<Rightarrow> rat" where
  "fi_slowest i = za_slowest (fi_maxZ i)"

definition fi_setMinimum :: "rat \<Rightarrow> fsp_info \<Rightarrow> fsp_info" where
  "fi_setMinimum x i = i\<lparr>fi_slowness := sw_setMinimum x (fi_slowness i)\<rparr>"

definition fi_setMaximum :: "rat \<Rightarrow> fsp_info \<Rightarrow> fsp_info" where
  "fi_setMaximum x i = i\<lparr>fi_slowness := sw_setMaximum x (fi_slowness i)\<rparr>"

definition fi_join :: "(rat \<Rightarrow> rat) \<Rightarrow> fsp_info \<Rightarrow> fsp_info \<Rightarrow> fsp_info" where
  "fi_join sq r i =
    (if fi_summary r \<noteq> [] then
       (let i1 = (if fi_summary i = []
          then i\<lparr>fi_memory := fi_memory r, fi_disk := fi_disk r, fi_minZ := fi_minZ r, fi_maxZ := fi_maxZ r,
                 fi_horizon := fi_horizon r, fi_slowness := fi_slowness r\<rparr>
          else i\<lparr>fi_memory := iv_extend (fi_memory i) (fi_memory r), fi_disk := iv_extend (fi_disk i) (fi_disk r),
                 fi_minZ := za_min sq (fi_minZ i) (fi_minZ r), fi_maxZ := za_max sq (fi_maxZ i) (fi_maxZ r),
                 fi_horizon := (if fi_horizon i < fi_horizon r then fi_horizon r else fi_horizon i),
                 fi_slowness := sw_extend (fi_slowness r) (fi_slowness i)\<rparr>)
        in i1\<lparr>fi_summary := fi_summary i1 @ fi_summary r\<rparr>)
     else i)"

definition fz_ops :: "(rat \<Rightarrow> rat) \<Rightarrow> (rat \<Rightarrow> rat) \<Rightarrow> nat \<Rightarrow> fsp_info \<Rightarrow> fz_cluster cluster_ops" where
  "fz_ops sq lg k i =
    (let sd = za_sqdiff sq lg (fi_maxZ i) (fi_minZ i) (fi_horizon i); add = fz_aggregate sq lg (fi_horizon i)
     in \<lparr>co_value = fz_value, co_kill = (\<lambda>c. c\<lparr>fz_value := 0\<rparr>),
         co_distance = (\<lambda>c r. fz_distance (fi_memory i) (fi_disk i) sd (add c r)), co_sum = add,
         co_far = fz_far (fi_memory i) (fi_disk i) k\<rparr>)"

fun reduce_all :: "nat \<Rightarrow> nat \<Rightarrow> rat \<Rightarrow> fz_cluster list \<Rightarrow> fz_cluster list option" where
  "reduce_all K Q h [] = Some []"
| "reduce_all K Q h (c # cs) = do { d \<leftarrow> fz_reduce K Q h c; ds \<leftarrow> reduce_all K Q h cs; Some (d # ds) }"

definition fi_reduce :: "(rat \<Rightarrow> rat) \<Rightarrow> (rat \<Rightarrow> rat) \<Rightarrow> fz_cluster dlist heap_ops \<Rightarrow> nat \<Rightarrow> nat \<Rightarrow> nat \<Rightarrow> nat \<Rightarrow> nat \<Rightarrow>
    fsp_info \<Rightarrow> fsp_info option" where
  "fi_reduce sq lg H N n k K Q i = do {
     cs \<leftarrow> cluster_list (fz_ops sq lg k i) H N n (fi_summary i);
     ds \<leftarrow> reduce_all K Q (fi_horizon i) cs;
     Some (i\<lparr>fi_summary := ds\<rparr>)
   }"

end
