(* ===== verification/Fsp_Dispatcher.thy ===== *)
theory Fsp_Dispatcher
  imports Fsp_Info Dispatcher_Props Fsp_Scheduler
begin

text \<open>
  \<open>src/lib/scheduling/policies/FSPDispatcher.cpp\<close> and its header: the dispatcher of the fair policy.
  The tasks of a bag go to the clusters where they reach the least slowness, one more per node in
  each turn; if that is still too much for this branch the bag goes up. A cluster is pointed to by
  its branch and position. \<open>H\<close> are the heap algorithms of the library; \<open>beta\<close>, \<open>discard\<close> and
  \<open>ratio\<close> are static fields.
\<close>

section \<open>The instance of the template\<close>

definition fi_reduced :: "(rat \<Rightarrow> rat) \<Rightarrow> (rat \<Rightarrow> rat) \<Rightarrow> fz_cluster dlist heap_ops \<Rightarrow> nat \<Rightarrow> nat \<Rightarrow> nat \<Rightarrow> nat \<Rightarrow> nat \<Rightarrow>
    fsp_info \<Rightarrow> fsp_info" where
  "fi_reduced sq lg H N n k K Q i = (case fi_reduce sq lg H N n k K Q i of Some r \<Rightarrow> r | None \<Rightarrow> i)"

text \<open>What a child is told of the rest of the tree: only the greatest slowness.\<close>

definition fsp_child_info :: "fsp_info option \<Rightarrow> fsp_info option \<Rightarrow> fsp_info option" where
  "fsp_child_info father other =
    (case father of
       Some f \<Rightarrow> Some (fi_setMaximum
         (case other of
            Some q \<Rightarrow> (if sw_max (fi_slowness f) > sw_max (fi_slowness q) then sw_max (fi_slowness f)
                       else sw_max (fi_slowness q))
          | None \<Rightarrow> sw_max (fi_slowness f)) mk_fsp)
     | None \<Rightarrow> map_option (\<lambda>q. fi_setMaximum (sw_max (fi_slowness q)) mk_fsp) other)"

definition fsp_ops :: "(rat \<Rightarrow> rat) \<Rightarrow> (fsp_info \<Rightarrow> fsp_info) \<Rightarrow> fsp_info avail_ops" where
  "fsp_ops sq red = \<lparr>ao_seq = fi_seq, ao_setSeq = fi_setSeq, ao_fromSch = fi_fromSch,
     ao_setFromSch = fi_setFromSch, ao_join = fi_join sq, ao_reduce = red, ao_eq = fi_eq,
     ao_childInfo = Some fsp_child_info\<rparr>"

text \<open>What a node with the fair policy publishes; \<open>None\<close> if the function is never finished.\<close>

definition fsp_availability :: "(rat \<Rightarrow> rat) \<Rightarrow> bool \<Rightarrow> ('x, fsp_info) backend \<Rightarrow> ('x, fsp_info) fsp_sched \<Rightarrow> fsp_info option" where
  "fsp_availability sq pre B s =
    fi_setAvailability sq pre (sc_now s) (ucast (be_memory B)) (ucast (be_disk B)) (fs_list s) (be_power B) mk_fsp"

section \<open>The vector of functions\<close>

record func_info =
  fn_pos :: nat
  fn_cluster :: fz_cluster
  fn_child :: nat
  fn_slowness :: ext
  fn_tasks :: nat

record func_vector =
  fv_funcs :: "func_info list"
  fv_total :: "32 word"
  fv_diff :: "32 word"
  fv_nodes :: "32 word"
  fv_perBranch :: "nat \<Rightarrow> 32 word"
  fv_minSlow :: ext
  fv_branchSlow :: "nat \<Rightarrow> rat"
  fv_worst :: nat

definition mk_func :: "nat \<Rightarrow> nat \<times> fz_cluster \<Rightarrow> func_info" where
  "mk_func c kc = \<lparr>fn_pos = fst kc, fn_cluster = snd kc, fn_child = c, fn_slowness = Infinite, fn_tasks = 0\<rparr>"

definition cluster_nodes :: "(nat \<times> fz_cluster) list \<Rightarrow> 32 word" where
  "cluster_nodes kcs = (\<Sum>kc \<leftarrow> kcs. fz_value (snd kc))"

definition mk_vector :: "(nat \<times> fz_cluster) list \<Rightarrow> (nat \<times> fz_cluster) list \<Rightarrow> (nat \<Rightarrow> rat) \<Rightarrow> func_vector" where
  "mk_vector kcs0 kcs1 bs = \<lparr>fv_funcs = map (mk_func 0) kcs0 @ map (mk_func 1) kcs1, fv_total = 0, fv_diff = 0,
     fv_nodes = cluster_nodes kcs0 + cluster_nodes kcs1,
     fv_perBranch = (\<lambda>c. if c = 0 then cluster_nodes kcs0 else cluster_nodes kcs1),
     fv_minSlow = Infinite, fv_branchSlow = bs, fv_worst = 0\<rparr>"

text \<open>The heap has the least slowness in front.\<close>

definition cost_less :: "rat \<times> nat \<Rightarrow> rat \<times> nat \<Rightarrow> bool" where
  "cost_less l r \<longleftrightarrow> fst l > fst r"

definition func_cost :: "64 word \<Rightarrow> nat \<Rightarrow> (nat \<Rightarrow> rat) \<Rightarrow> func_info \<Rightarrow> rat" where
  "func_cost a tpn bs f =
    (let z = fz_maxZ (fn_cluster f);
         sl = (if tpn = 1 then za_getSlowness (of_int (uint a)) z else za_estimateSlowness a (of_nat tpn) z)
     in if sl < bs (fn_child f) then bs (fn_child f) else sl)"

definition cost_heap :: "(rat \<times> nat) heap_ops \<Rightarrow> 64 word \<Rightarrow> nat \<Rightarrow> func_vector \<Rightarrow> (rat \<times> nat) list" where
  "cost_heap H a tpn v =
    fold (\<lambda>j hs. hp_push H (hs @ [(func_cost a tpn (fv_branchSlow v) (fv_funcs v ! j), j)])) [0..<length (fv_funcs v)] []"

definition use_func :: "rat \<times> nat \<Rightarrow> func_vector \<Rightarrow> func_vector" where
  "use_func p v =
    (let f = fv_funcs v ! snd p
     in v\<lparr>fv_funcs := (fv_funcs v)[snd p := f\<lparr>fn_tasks := fn_tasks f + 1, fn_slowness := Fin (fst p)\<rparr>],
          fv_minSlow := Fin (fst p), fv_worst := fn_child f, fv_total := fv_total v + fz_value (fn_cluster f)\<rparr>)"

text \<open>Taking from the heap; \<open>n\<close>, the size of the heap, bounds the turns.\<close>

fun take_funcs :: "(rat \<times> nat) heap_ops \<Rightarrow> 32 word \<Rightarrow> nat \<Rightarrow> (rat \<times> nat) list \<Rightarrow> func_vector \<Rightarrow> func_vector" where
  "take_funcs H num 0 hs v = v"
| "take_funcs H num (Suc n) hs v =
    (if hs \<noteq> [] \<and> fv_total v < num
     then (let hs1 = hp_pop H hs in take_funcs H num n (butlast hs1) (use_func (last hs1) v)) else v)"

partial_function (option) func_loop :: "(rat \<times> nat) heap_ops \<Rightarrow> 32 word \<Rightarrow> 64 word \<Rightarrow> nat \<Rightarrow> func_vector \<Rightarrow> func_vector option" where
  "func_loop H num a tpn v =
    (if fv_total v < num
     then (let hs = cost_heap H a tpn v in func_loop H num a (tpn + 1) (take_funcs H num (length hs) hs v))
     else Some v)"

definition raise_slowness :: "func_info \<Rightarrow> (nat \<Rightarrow> rat) \<Rightarrow> nat \<Rightarrow> rat" where
  "raise_slowness f bs =
    (case fn_slowness f of
       Fin x \<Rightarrow> if fn_tasks f \<noteq> 0 \<and> bs (fn_child f) < x then bs(fn_child f := x) else bs
     | Infinite \<Rightarrow> bs)"

definition fv_compute :: "(rat \<times> nat) heap_ops \<Rightarrow> 32 word \<Rightarrow> 64 word \<Rightarrow> func_vector \<Rightarrow> func_vector option" where
  "fv_compute H num a v =
    (if fv_funcs v \<noteq> [] then
       map_option (\<lambda>w. w\<lparr>fv_diff := fv_total w - num, fv_branchSlow := fold raise_slowness (fv_funcs w) (fv_branchSlow w)\<rparr>)
         (func_loop H num a 1 (v\<lparr>fv_minSlow := Fin 0\<rparr>))
     else Some v)"

definition func_share :: "func_info \<Rightarrow> 32 word" where
  "func_share f = of_nat (fn_tasks f) * fz_value (fn_cluster f)"

definition branch_share :: "nat \<Rightarrow> func_info list \<Rightarrow> 32 word" where
  "branch_share c fs = (\<Sum>f \<leftarrow> filter (\<lambda>f. fn_child f = c) fs. func_share f)"

definition tasks_per_branch :: "func_vector \<Rightarrow> nat \<Rightarrow> 32 word" where
  "tasks_per_branch v c = branch_share c (fv_funcs v) - (if c = fv_worst v then fv_diff v else 0)"

section \<open>Handling a bag\<close>

definition check_state :: "branch \<Rightarrow> 'i disp \<Rightarrow> bool" where
  "check_state b s \<longleftrightarrow> br_inNetwork b \<and> (lk_waiting (dp_father s) \<noteq> None \<or> lk_notified (dp_father s) \<noteq> None)"

definition must_go_down :: "addr \<Rightarrow> taskbag_msg \<Rightarrow> 'i disp \<Rightarrow> bool" where
  "must_go_down src m s \<longleftrightarrow> lk_addr (dp_father s) = null_addr \<or> (\<not> tb_fromEN m \<and> lk_addr (dp_father s) = src)"

definition child_functions :: "task_desc \<Rightarrow> nat \<Rightarrow> fsp_info disp \<Rightarrow> (nat \<times> fz_cluster) list" where
  "child_functions req c s =
    (case lk_avail (dp_child s c) of
       None \<Rightarrow> [] | Some i \<Rightarrow> map (\<lambda>k. (k, fi_summary i ! k)) (fi_functions req i))"

definition child_slowness :: "fsp_info disp \<Rightarrow> nat \<Rightarrow> rat" where
  "child_slowness s c = (case lk_avail (dp_child s c) of None \<Rightarrow> 0 | Some i \<Rightarrow> sw_min (fi_slowness i))"

definition slowness_limit :: "rat \<Rightarrow> fsp_info disp \<Rightarrow> rat option" where
  "slowness_limit beta s = map_option (\<lambda>zone.
     (let l = (case lk_avail (dp_father s) of Some f \<Rightarrow> sw_max (fi_slowness f) | None \<Rightarrow> sw_max (fi_slowness zone))
      in (if fi_slowest zone > l then fi_slowest zone else l) * beta)) (branch_info s)"

definition fsp_update_child :: "(fsp_info \<Rightarrow> fsp_info) \<Rightarrow> nat \<Rightarrow> fsp_info disp \<Rightarrow> fsp_info disp" where
  "fsp_update_child f c s = s\<lparr>dp_child := (dp_child s)(c := (dp_child s c)
     \<lparr>lk_avail := map_option f (lk_avail (dp_child s c))\<rparr>)\<rparr>"

definition update_slowness :: "(nat \<Rightarrow> rat) \<Rightarrow> nat \<Rightarrow> fsp_info disp \<Rightarrow> fsp_info disp" where
  "update_slowness bs c = fsp_update_child (\<lambda>i.
     (let i1 = fi_setMinimum (bs c) i
      in if sw_max (fi_slowness i1) < bs c then fi_setMaximum (bs c) i1 else i1)) c"

definition remove_used :: "func_vector \<Rightarrow> nat \<Rightarrow> fsp_info disp \<Rightarrow> fsp_info disp" where
  "remove_used v c s =
    (let ks = map fn_pos (filter (\<lambda>f. fn_tasks f \<noteq> 0 \<and> fn_child f = c) (fv_funcs v))
     in if ks \<noteq> [] then
          (let s1 = fsp_update_child (fi_removeClusters ks) c s
           in s1\<lparr>dp_child := (dp_child s1)(c := (dp_child s1 c)\<lparr>lk_new := True\<rparr>)\<rparr>)
        else s)"

text \<open>The copy of the message carries an estimated slowness, zero at first.\<close>

definition msg_copy :: "taskbag_msg \<Rightarrow> taskbag_msg" where
  "msg_copy m = (case tb_slowness m of None \<Rightarrow> m\<lparr>tb_slowness := Some (Fin 0)\<rparr> | Some x \<Rightarrow> m)"

definition fsp_take :: "(rat \<Rightarrow> rat) \<Rightarrow> (fsp_info \<Rightarrow> fsp_info) \<Rightarrow> (fsp_info msg \<Rightarrow> 32 word) \<Rightarrow> rat \<Rightarrow> branch \<Rightarrow> bool \<Rightarrow>
    func_vector \<Rightarrow> fsp_info disp \<Rightarrow> fsp_info disp" where
  "fsp_take sq red sz ubw b down v s =
    (let s1 = update_slowness (fv_branchSlow v) 1 (update_slowness (fv_branchSlow v) 0 s);
         s2 = remove_used v 1 (remove_used v 0 s1);
         s3 = recompute_info (fsp_ops sq red) b s2
     in if down then s3 else disp_notify (fsp_ops sq red) sz ubw b s3)"

record fsp_config =
  fc_beta :: rat
  fc_discard :: bool
  fc_ratio :: rat

text \<open>The parts, the message and the state to send with; no parts if the bag is discarded.\<close>

definition fsp_decide :: "(rat \<Rightarrow> rat) \<Rightarrow> (fsp_info \<Rightarrow> fsp_info) \<Rightarrow> (fsp_info msg \<Rightarrow> 32 word) \<Rightarrow> rat \<Rightarrow> fsp_config \<Rightarrow>
    branch \<Rightarrow> addr \<Rightarrow> taskbag_msg \<Rightarrow> func_vector \<Rightarrow> rat \<Rightarrow> fsp_info disp \<Rightarrow>
    (nat \<Rightarrow> 32 word) option \<times> taskbag_msg \<times> fsp_info disp" where
  "fsp_decide sq red sz ubw F b src m v limit s =
    (if must_go_down src m s \<or> fv_minSlow v \<le> Fin limit then
       (let c = msg_copy m;
            c1 = (if tb_fromEN m \<or> src \<noteq> lk_addr (dp_father s) then c\<lparr>tb_slowness := Some (fv_minSlow v)\<rparr> else c)
        in if fv_minSlow v > ext_scale (fc_ratio F) (the (tb_slowness c1)) then
             (if fc_discard F then (None, c1, s) else (Some (\<lambda>_. 0), c1, s))
           else (Some (tasks_per_branch v), c1, fsp_take sq red sz ubw b (must_go_down src m s) v s))
     else (Some (\<lambda>_. 0), msg_copy m, s))"

definition fsp_handle_bag :: "(rat \<Rightarrow> rat) \<Rightarrow> (fsp_info \<Rightarrow> fsp_info) \<Rightarrow> (fsp_info msg \<Rightarrow> 32 word) \<Rightarrow> rat \<Rightarrow> fsp_config \<Rightarrow>
    (rat \<times> nat) heap_ops \<Rightarrow> branch \<Rightarrow> addr \<Rightarrow> taskbag_msg \<Rightarrow> fsp_info disp \<Rightarrow> fsp_info disp option" where
  "fsp_handle_bag sq red sz ubw F H b src m s =
    (if tb_forEN m \<or> \<not> check_state b s then Some s
     else
       (let n = tb_lastTask m - tb_firstTask m + 1; req = tb_minReq m; T = fsp_ops sq red;
            v = mk_vector (child_functions req 0 s) (child_functions req 1 s) (child_slowness s)
        in if \<not> must_go_down src m s \<and> fv_nodes v < n then send_tasks T b (msg_copy m) (\<lambda>_. 0) False s
           else do {
             w \<leftarrow> fv_compute H n (td_length req) v;
             limit \<leftarrow> slowness_limit (fc_beta F) s;
             (case fsp_decide sq red sz ubw F b src m w limit s of
                (None, c, s1) \<Rightarrow> Some s1
              | (Some parts, c, s1) \<Rightarrow> send_tasks T b c parts False s1)
           }))"

definition fsp_receive :: "(rat \<Rightarrow> rat) \<Rightarrow> (fsp_info \<Rightarrow> fsp_info) \<Rightarrow> (fsp_info msg \<Rightarrow> 32 word) \<Rightarrow> rat \<Rightarrow> fsp_config \<Rightarrow>
    (rat \<times> nat) heap_ops \<Rightarrow> branch \<Rightarrow> fsp_info disp \<Rightarrow> addr \<Rightarrow> fsp_info msg \<Rightarrow> (bool \<times> fsp_info disp) option" where
  "fsp_receive sq red sz ubw F H b s src m =
    (let T = fsp_ops sq red
     in case m of
       MTaskBag tm \<Rightarrow> map_option (Pair True) (fsp_handle_bag sq red sz ubw F H b src tm s)
     | MUpdateTimer \<Rightarrow> Some (True, disp_handle_timer T sz ubw b s)
     | MAvail i \<Rightarrow> Some (True, disp_handle_info T sz ubw b src i False s)
     | _ \<Rightarrow> Some (False, s))"

end
