(* ===== verification/Fsp_Division.thy ===== *)
theory Fsp_Division
  imports Fsp_Dispatcher
begin

text \<open>
  How the dispatcher of the fair policy divides a bag: the search for the least slowness ends, and
  the two children together get exactly the tasks of the bag.
\<close>

section \<open>Sums of words\<close>

lemma unat_sum_words:
  "(\<Sum>w \<leftarrow> ws. unat w) < 2 ^ LENGTH('a) \<Longrightarrow> unat (sum_list ws) = (\<Sum>w \<leftarrow> ws. unat (w :: 'a :: len word))"
proof (induction ws)
  case (Cons w ws)
  then have "unat (sum_list ws) = (\<Sum>w \<leftarrow> ws. unat w)" by simp
  with Cons.prems show ?case by (simp add: unat_word_ariths)
qed simp

lemma unat_times_word: "t * unat (w :: 'a :: len word) < 2 ^ LENGTH('a) \<Longrightarrow> unat (of_nat t * w) = t * unat w"
proof (cases "w = 0")
  case False
  assume a: "t * unat w < 2 ^ LENGTH('a)"
  have "0 < unat w" using False by (simp add: unat_gt_0)
  then have "t < 2 ^ LENGTH('a)" using a by (metis One_nat_def Suc_leI le_less_trans mult.right_neutral mult_le_mono2)
  then have "unat (of_nat t :: 'a word) = t" by (simp add: unat_of_nat)
  with a show ?thesis by (simp add: unat_word_ariths)
qed simp

lemma sum_list_member_le: "x \<in> set xs \<Longrightarrow> f x \<le> (\<Sum>x \<leftarrow> xs. f x :: nat)"
  by (induction xs) auto

section \<open>The search\<close>

text \<open>The tasks given out, and that the function used last is the one that may go beyond the request.\<close>

definition given :: "func_info list \<Rightarrow> nat" where
  "given fs = (\<Sum>f \<leftarrow> fs. fn_tasks f * unat (fz_value (fn_cluster f)))"

definition fv_ok :: "32 word \<Rightarrow> nat \<Rightarrow> func_vector \<Rightarrow> bool" where
  "fv_ok num M v \<longleftrightarrow> fv_funcs v \<noteq> [] \<and> unat num + M < 2 ^ 32
     \<and> (\<forall>f \<in> set (fv_funcs v). fz_value (fn_cluster f) \<noteq> 0 \<and> unat (fz_value (fn_cluster f)) \<le> M \<and> fn_child f \<in> {0, 1})
     \<and> unat (fv_total v) = given (fv_funcs v)
     \<and> (fv_total v = 0 \<or> (\<exists>f \<in> set (fv_funcs v). 0 < fn_tasks f \<and> fn_child f = fv_worst v
          \<and> unat (fv_total v) < unat num + unat (fz_value (fn_cluster f))))"

lemma given_update:
  assumes "j < length fs" and "fn_cluster g = fn_cluster (fs ! j)" and "fn_tasks g = Suc (fn_tasks (fs ! j))"
  shows "given (fs[j := g]) = given fs + unat (fz_value (fn_cluster (fs ! j)))"
proof -
  let ?h = "\<lambda>f. fn_tasks f * unat (fz_value (fn_cluster f))"
  have "?h (fs ! j) \<le> given fs" unfolding given_def by (rule sum_list_member_le) (use assms(1) in simp)
  moreover have "given (fs[j := g]) = given fs + ?h g - ?h (fs ! j)"
    unfolding given_def using assms(1) by (simp add: map_update sum_list_update)
  ultimately show ?thesis by (simp add: assms(2,3))
qed

lemma use_func_ok:
  assumes "fv_ok num M v" and "fv_total v < num" and "j < length (fv_funcs v)"
  shows "fv_ok num M (use_func (x, j) v)" and "unat (fv_total v) < unat (fv_total (use_func (x, j) v))"
proof -
  let ?f = "fv_funcs v ! j" and ?v = "use_func (x, j) v"
  let ?g = "?f\<lparr>fn_tasks := fn_tasks ?f + 1, fn_slowness := Fin x\<rparr>"
  have f: "fz_value (fn_cluster ?f) \<noteq> 0" "unat (fz_value (fn_cluster ?f)) \<le> M" "fn_child ?f \<in> {0, 1}"
    using assms(1,3) nth_mem unfolding fv_ok_def by blast+
  have v: "fv_funcs ?v = (fv_funcs v)[j := ?g]" "fv_total ?v = fv_total v + fz_value (fn_cluster ?f)"
    "fv_worst ?v = fn_child ?f"
    by (simp_all add: use_func_def Let_def)
  have lt: "unat (fv_total v) < unat num" using assms(2) by (simp add: word_less_nat_alt)
  moreover have room: "unat num + M < 2 ^ 32" using assms(1) by (simp add: fv_ok_def)
  ultimately have tot: "unat (fv_total ?v) = unat (fv_total v) + unat (fz_value (fn_cluster ?f))"
    using f(2) by (simp add: v(2) unat_word_ariths)
  have giv: "given (fv_funcs ?v) = given (fv_funcs v) + unat (fz_value (fn_cluster ?f))"
    unfolding v(1) by (rule given_update [OF assms(3)]) simp_all
  have pos: "0 < unat (fz_value (fn_cluster ?f))" using f(1) by (simp add: unat_gt_0)
  then show "unat (fv_total v) < unat (fv_total ?v)" using tot by simp
  have mem: "\<forall>h \<in> set (fv_funcs ?v). fz_value (fn_cluster h) \<noteq> 0 \<and> unat (fz_value (fn_cluster h)) \<le> M \<and> fn_child h \<in> {0, 1}"
  proof
    fix h assume "h \<in> set (fv_funcs ?v)"
    then have "h = ?g \<or> h \<in> set (fv_funcs v)" using set_update_subset_insert [of "fv_funcs v" j ?g] v(1) by auto
    then show "fz_value (fn_cluster h) \<noteq> 0 \<and> unat (fz_value (fn_cluster h)) \<le> M \<and> fn_child h \<in> {0, 1}"
      using f assms(1) by (auto simp: fv_ok_def)
  qed
  have "?g \<in> set (fv_funcs ?v)" unfolding v(1) using assms(3) by (simp add: set_update_memI)
  moreover have "unat (fv_total ?v) < unat num + unat (fz_value (fn_cluster ?g))" using tot lt by simp
  ultimately have last: "\<exists>h \<in> set (fv_funcs ?v). 0 < fn_tasks h \<and> fn_child h = fv_worst ?v
      \<and> unat (fv_total ?v) < unat num + unat (fz_value (fn_cluster h))"
    by (intro bexI [of _ ?g]) (simp_all add: v(3))
  have "fv_funcs ?v \<noteq> []" using assms(1) by (simp add: v(1) fv_ok_def)
  moreover have "unat (fv_total ?v) = given (fv_funcs ?v)" using tot giv assms(1) by (simp add: fv_ok_def)
  ultimately show "fv_ok num M ?v" unfolding fv_ok_def using room mem last by blast
qed

lemma use_func_length [simp]: "length (fv_funcs (use_func p v)) = length (fv_funcs v)"
  by (simp add: use_func_def Let_def)

lemma take_funcs_ok:
  assumes "std_heap cost_less H heap" and "heap hs" and "snd ` set hs \<subseteq> {..<length (fv_funcs v)}" and "fv_ok num M v"
  shows "fv_ok num M (take_funcs H num n hs v)" and "unat (fv_total v) \<le> unat (fv_total (take_funcs H num n hs v))"
    and "fv_total v < num \<Longrightarrow> hs \<noteq> [] \<Longrightarrow> 0 < n \<Longrightarrow> unat (fv_total v) < unat (fv_total (take_funcs H num n hs v))"
proof -
  have "fv_ok num M (take_funcs H num n hs v) \<and> unat (fv_total v) \<le> unat (fv_total (take_funcs H num n hs v))
    \<and> (fv_total v < num \<and> hs \<noteq> [] \<and> 0 < n \<longrightarrow> unat (fv_total v) < unat (fv_total (take_funcs H num n hs v)))"
    using assms(2-4)
  proof (induction n arbitrary: hs v)
    case 0
    then show ?case by simp
  next
    case (Suc n)
    show ?case
    proof (cases "hs \<noteq> [] \<and> fv_total v < num")
      case False
      with Suc.prems show ?thesis by auto
    next
      case True
      let ?hs = "hp_pop H hs" and ?v = "use_func (hd hs) v"
      have ne: "hs \<noteq> []" using True by simp
      have last: "last ?hs = hd hs" by (rule std_heap.last_pop [OF assms(1) Suc.prems(1) ne])
      have j: "snd (hd hs) < length (fv_funcs v)" using Suc.prems(2) ne hd_in_set [OF ne] by blast
      have "set (butlast ?hs) \<subseteq> set hs"
        using arg_cong [OF std_heap.pop_split(2) [OF assms(1) Suc.prems(1) ne], of set_mset] by auto
      then have sub: "snd ` set (butlast ?hs) \<subseteq> {..<length (fv_funcs ?v)}" using Suc.prems(2) by auto
      note u = use_func_ok [OF Suc.prems(3), of "snd (hd hs)" "fst (hd hs)", unfolded prod.collapse]
      have ok: "fv_ok num M ?v" and inc: "unat (fv_total v) < unat (fv_total ?v)" using u True j by auto
      from Suc.IH [OF std_heap.heap_pop [OF assms(1) Suc.prems(1) ne] sub ok]
      show ?thesis using True inc by (simp add: Let_def last)
    qed
  qed
  then show "fv_ok num M (take_funcs H num n hs v)" and "unat (fv_total v) \<le> unat (fv_total (take_funcs H num n hs v))"
    and "fv_total v < num \<Longrightarrow> hs \<noteq> [] \<Longrightarrow> 0 < n \<Longrightarrow> unat (fv_total v) < unat (fv_total (take_funcs H num n hs v))"
    by blast+
qed

lemma cost_heap_ok:
  assumes "std_heap cost_less H heap" and "fv_funcs v \<noteq> []"
  shows "heap (cost_heap H a tpn v)" and "snd ` set (cost_heap H a tpn v) \<subseteq> {..<length (fv_funcs v)}"
    and "cost_heap H a tpn v \<noteq> []"
proof -
  let ?p = "\<lambda>j hs. hp_push H (hs @ [(func_cost a tpn (fv_branchSlow v) (fv_funcs v ! j), j)])"
  have "heap (fold ?p js hs) \<and> snd ` set (fold ?p js hs) = set js \<union> snd ` set hs" if "heap hs" for js hs
    using that
  proof (induction js arbitrary: hs)
    case (Cons j js)
    from Cons.IH [OF std_heap.heap_push [OF assms(1) Cons.prems]] show ?case
      by (simp add: std_heap.push_set [OF assms(1) Cons.prems])
  qed simp
  from this [OF std_heap.heap_empty [OF assms(1)], of "[0..<length (fv_funcs v)]"]
  have h: "heap (cost_heap H a tpn v)" "snd ` set (cost_heap H a tpn v) = {0..<length (fv_funcs v)}"
    by (simp_all add: cost_heap_def)
  then show "heap (cost_heap H a tpn v)" "snd ` set (cost_heap H a tpn v) \<subseteq> {..<length (fv_funcs v)}" by auto
  show "cost_heap H a tpn v \<noteq> []" using h(2) assms(2) by force
qed

text \<open>Every turn gives out a task, so the loop ends.\<close>

lemma func_loop_result:
  assumes "std_heap cost_less H heap" and "fv_ok num M v"
  shows "\<exists>w. func_loop H num a tpn v = Some w \<and> fv_ok num M w \<and> num \<le> fv_total w"
  using assms(2)
proof (induction "unat num - unat (fv_total v)" arbitrary: v tpn rule: less_induct)
  case less
  show ?case
  proof (cases "fv_total v < num")
    case False
    with less.prems show ?thesis by (subst func_loop.simps) simp
  next
    case True
    let ?hs = "cost_heap H a tpn v"
    have ne: "fv_funcs v \<noteq> []" using less.prems by (simp add: fv_ok_def)
    note h = cost_heap_ok [OF assms(1) ne, of a tpn]
    note t = take_funcs_ok [OF assms(1) h(1,2) less.prems, of "length ?hs"]
    have "unat (fv_total v) < unat (fv_total (take_funcs H num (length ?hs) ?hs v))"
      by (rule t(3) [OF True h(3)]) (use h(3) in simp)
    moreover have "unat (fv_total v) < unat num" using True by (simp add: word_less_nat_alt)
    ultimately have "unat num - unat (fv_total (take_funcs H num (length ?hs) ?hs v)) < unat num - unat (fv_total v)"
      by linarith
    from less.hyps [OF this t(1), of "tpn + 1"] show ?thesis using True by (subst func_loop.simps) (simp add: Let_def)
  qed
qed

section \<open>The shares\<close>

lemma shares_sum:
  assumes "\<forall>f \<in> set fs. fn_child f \<in> {0, 1}" and "given fs < 2 ^ 32"
  shows "unat (branch_share 0 fs) + unat (branch_share 1 fs) = given fs"
    and "f \<in> set fs \<Longrightarrow> fn_tasks f * unat (fz_value (fn_cluster f)) \<le> unat (branch_share (fn_child f) fs)"
proof -
  let ?h = "\<lambda>f. fn_tasks f * unat (fz_value (fn_cluster f))"
  have part: "(\<Sum>f \<leftarrow> filter P fs. ?h f) \<le> given fs" for P
    unfolding given_def by (induction fs) auto
  have share: "unat (branch_share c fs) = (\<Sum>f \<leftarrow> filter (\<lambda>f. fn_child f = c) fs. ?h f)" for c
  proof -
    have one: "unat (func_share f) = ?h f" if "f \<in> set fs" for f
    proof -
      have "?h f \<le> given fs" unfolding given_def by (rule sum_list_member_le [OF that])
      then show ?thesis unfolding func_share_def by (intro unat_times_word) (use assms(2) in simp)
    qed
    have "(\<Sum>w \<leftarrow> map func_share (filter (\<lambda>f. fn_child f = c) fs). unat w) = (\<Sum>f \<leftarrow> filter (\<lambda>f. fn_child f = c) fs. ?h f)"
      by (auto simp: comp_def one intro!: arg_cong [of _ _ sum_list] map_cong)
    with part [of "\<lambda>f. fn_child f = c"] assms(2) show ?thesis
      unfolding branch_share_def by (subst unat_sum_words) simp_all
  qed
  show "unat (branch_share 0 fs) + unat (branch_share 1 fs) = given fs"
    unfolding share given_def using assms(1) by (induction fs) auto
  show "f \<in> set fs \<Longrightarrow> ?h f \<le> unat (branch_share (fn_child f) fs)"
    unfolding share by (rule sum_list_member_le) simp
qed

lemma tasks_per_branch_sum:
  assumes "fv_ok num M w" and "num \<le> fv_total w" and "fv_diff w = fv_total w - num"
  shows "unat (tasks_per_branch w 0) + unat (tasks_per_branch w 1) = unat num"
proof -
  let ?fs = "fv_funcs w"
  have le: "unat num \<le> unat (fv_total w)" using assms(2) by (simp add: word_le_nat_alt)
  have tot: "unat (fv_total w) = given ?fs" using assms(1) by (simp add: fv_ok_def)
  have lt: "given ?fs < 2 ^ 32" unfolding tot [symmetric] using unsigned_less [of "fv_total w"] by simp
  have ch: "\<forall>f \<in> set ?fs. fn_child f \<in> {0, 1}" using assms(1) by (auto simp: fv_ok_def)
  note s = shares_sum [OF ch lt]
  have diff: "unat (fv_diff w) = given ?fs - unat num" unfolding assms(3) using assms(2) tot by (simp add: unat_sub)
  show ?thesis
  proof (cases "fv_total w = 0")
    case True
    then have "given ?fs = 0" "num = 0" "fv_diff w = 0" using tot le assms(3) by (simp_all add: unat_eq_0)
    then have "tasks_per_branch w c = branch_share c ?fs" for c by (simp add: tasks_per_branch_def)
    then show ?thesis using s(1) \<open>given ?fs = 0\<close> \<open>num = 0\<close> by simp
  next
    case False
    then obtain f where f: "f \<in> set ?fs" "0 < fn_tasks f" "fn_child f = fv_worst w"
      "unat (fv_total w) < unat num + unat (fz_value (fn_cluster f))"
      using assms(1) by (auto simp: fv_ok_def)
    have "unat (fz_value (fn_cluster f)) \<le> fn_tasks f * unat (fz_value (fn_cluster f))" using f(2) by simp
    also have "\<dots> \<le> unat (branch_share (fv_worst w) ?fs)" using s(2) [OF f(1)] f(3) by simp
    finally have "unat (fv_diff w) \<le> unat (branch_share (fv_worst w) ?fs)" using diff f(4) tot by simp
    then have sub: "unat (branch_share (fv_worst w) ?fs - fv_diff w) = unat (branch_share (fv_worst w) ?fs) - unat (fv_diff w)"
      and sub_le: "unat (fv_diff w) \<le> unat (branch_share (fv_worst w) ?fs)"
      by (simp_all add: unat_sub word_le_nat_alt)
    have "fv_worst w = 0 \<or> fv_worst w = 1" using f(1,3) ch by auto
    then show ?thesis
    proof
      assume 0: "fv_worst w = 0"
      then have "tasks_per_branch w 0 = branch_share 0 ?fs - fv_diff w" "tasks_per_branch w 1 = branch_share 1 ?fs"
        by (simp_all add: tasks_per_branch_def)
      note eq = this
      show ?thesis unfolding eq using sub [unfolded 0] sub_le [unfolded 0] s(1) diff le tot by linarith
    next
      assume 1: "fv_worst w = 1"
      then have "tasks_per_branch w 0 = branch_share 0 ?fs" "tasks_per_branch w 1 = branch_share 1 ?fs - fv_diff w"
        by (simp_all add: tasks_per_branch_def)
      note eq = this
      show ?thesis unfolding eq using sub [unfolded 1] sub_le [unfolded 1] s(1) diff le tot by linarith
    qed
  qed
qed

text \<open>
  C19. Given any nodes at all, the fair policy divides a bag exactly: whatever the slowness functions are,
  the search ends, and the tasks that it gives to the two children are as many as the bag has. (The
  clusters are not empty, and the tasks and the nodes of a cluster together fit in 32 bits.)
\<close>

theorem fsp_divides_exactly:
  assumes "std_heap cost_less H heap" and "kcs0 @ kcs1 \<noteq> []" and "unat num + M < 2 ^ 32"
    and "\<forall>(k, c) \<in> set (kcs0 @ kcs1). fz_value c \<noteq> 0 \<and> unat (fz_value c) \<le> M"
  shows "\<exists>w. fv_compute H num a (mk_vector kcs0 kcs1 bs) = Some w
    \<and> unat (tasks_per_branch w 0) + unat (tasks_per_branch w 1) = unat num"
proof -
  let ?v = "(mk_vector kcs0 kcs1 bs)\<lparr>fv_minSlow := Fin 0\<rparr>"
  have fs: "fv_funcs ?v = map (mk_func 0) kcs0 @ map (mk_func 1) kcs1" "fv_total ?v = 0"
    by (simp_all add: mk_vector_def)
  have "given (fv_funcs ?v) = 0" unfolding fs given_def by (simp add: comp_def mk_func_def)
  then have "fv_ok num M ?v" unfolding fv_ok_def using assms(2-4) by (auto simp: fs mk_func_def)
  from func_loop_result [OF assms(1) this, of a 1] obtain w
    where w: "func_loop H num a 1 ?v = Some w" "fv_ok num M w" "num \<le> fv_total w" by blast
  let ?w = "w\<lparr>fv_diff := fv_total w - num, fv_branchSlow := fold raise_slowness (fv_funcs w) (fv_branchSlow w)\<rparr>"
  have eq: "fv_funcs ?w = fv_funcs w" "fv_total ?w = fv_total w" "fv_worst ?w = fv_worst w" by simp_all
  have "fv_ok num M ?w" unfolding fv_ok_def eq using w(2) by (rule fv_ok_def [THEN iffD1])
  from tasks_per_branch_sum [OF this] w(3)
  have "unat (tasks_per_branch ?w 0) + unat (tasks_per_branch ?w 1) = unat num" by simp
  moreover have "fv_compute H num a (mk_vector kcs0 kcs1 bs) = Some ?w"
    using assms(2) w(1) by (simp add: fv_compute_def mk_vector_def)
  ultimately show ?thesis by blast
qed

section \<open>The parts of a bag\<close>

lemma fsp_take_frame [simp]: "routed (dp_comm (fsp_take sq red sz ubw b down v s)) = routed (dp_comm s)"
  by (simp add: fsp_take_def Let_def remove_used_def update_slowness_def fsp_update_child_def)

lemma msg_copy_frame [simp]:
  "tb_firstTask (msg_copy m) = tb_firstTask m" "tb_lastTask (msg_copy m) = tb_lastTask m"
  by (simp_all add: msg_copy_def split: option.split)

definition nodes_ok :: "nat \<Rightarrow> (nat \<times> fz_cluster) list \<Rightarrow> bool" where
  "nodes_ok M kcs \<longleftrightarrow> (\<forall>(k, c) \<in> set kcs. fz_value c \<noteq> 0 \<and> unat (fz_value c) \<le> M)"

lemma no_functions: "fv_compute H num a (mk_vector [] [] bs) = Some (mk_vector [] [] bs)"
  "tasks_per_branch (mk_vector [] [] bs) c = 0"
  by (simp_all add: fv_compute_def mk_vector_def tasks_per_branch_def branch_share_def)

text \<open>What is sent when the first \<open>k\<close> tasks have parts.\<close>

lemma send_parts_routed:
  assumes "send_tasks T b m parts False s = Some s'" and "tb_firstTask m \<le> tb_lastTask m" and "tb_lastTask m < - 1"
    and "unat (parts 0) + unat (parts 1) \<in> {0, unat (tb_lastTask m - tb_firstTask m + 1)}"
  shows "\<exists>k \<in> {unat (tb_firstTask m), Suc (unat (tb_lastTask m))}.
    routed (dp_comm s') = routed (dp_comm s) + mset [unat (tb_firstTask m)..<k]
    \<and> (br_father b \<noteq> null_addr \<longrightarrow> k = Suc (unat (tb_lastTask m)))"
proof -
  have le: "unat (tb_firstTask m) \<le> unat (tb_lastTask m)" using assms(2) by (simp add: word_le_nat_alt)
  note n = bag_size [OF assms(2,3)]
  have "unat (parts 0) + unat (parts 1) \<le> Suc (unat (tb_lastTask m)) - unat (tb_firstTask m)"
    using assms(4) unfolding n by auto
  note r = send_tasks_routed [OF assms(1) this assms(2,3)]
  show ?thesis
  proof (cases "br_father b = null_addr")
    case False
    with r show ?thesis by (simp del: upt_Suc)
  next
    case True
    have "unat (tb_firstTask m) + unat (parts 0) + unat (parts 1) \<in> {unat (tb_firstTask m), Suc (unat (tb_lastTask m))}"
      using assms(4) le unfolding n by auto
    with r True show ?thesis by (intro bexI [of _ "unat (tb_firstTask m) + unat (parts 0) + unat (parts 1)"]) (simp_all del: upt_Suc)
  qed
qed

lemma decided_parts:
  assumes "fsp_decide sq red sz ubw F b src m w limit s = (Some parts, c, s1)"
  shows "parts = (\<lambda>_. 0) \<or> parts = tasks_per_branch w" and "routed (dp_comm s1) = routed (dp_comm s)"
    and "tb_firstTask c = tb_firstTask m" and "tb_lastTask c = tb_lastTask m"
  using assms by (auto simp: fsp_decide_def Let_def split: if_splits)


end
