(* ===== verification/Fsp_Dispatch_Props.thy ===== *)
theory Fsp_Dispatch_Props
  imports Fsp_Division
begin

text \<open>
  The summary of the fair policy and its dispatcher under the contracts of the heap, the clustering
  and the updates, and an example.
\<close>

section \<open>The contracts\<close>

interpretation cost_order: heap_order cost_less
  by unfold_locales (auto simp: cost_less_def)

interpretation fz: summable "fz_ops sq lg k i" for sq lg k i
  by unfold_locales (simp_all add: fz_ops_def fz_aggregate_def Let_def split: prod.split)

lemma fi_reduced_seq: "fi_seq (fi_reduced sq lg H N n k K Q i) = fi_seq i"
  by (auto simp: fi_reduced_def fi_reduce_def bind_eq_Some_conv split: option.split)

interpretation fsp_avail: avail_info "fsp_ops sq (fi_reduced sq lg H N n k K Q)" for sq lg H N n k K Q
  by unfold_locales (simp_all add: fsp_ops_def fi_setSeq_def fi_setFromSch_def fi_reduced_seq)

section \<open>An example\<close>

definition fair_node :: "rat \<Rightarrow> fsp_info" where
  "fair_node pw = mk_fsp\<lparr>fi_seq := 1, fi_summary := [mk_fz 100 100 [mk_piece min_length 0 0 (1 / pw) 0]],
     fi_maxZ := [mk_piece min_length 0 0 (1 / pw) 0]\<rparr>"

definition fsp_example :: "fsp_info disp" where
  "fsp_example = (mk_disp example_branch \<lparr>c_local = Addr 1 1, c_now = 10, c_queue = [],
       c_net = [], c_timers = [], c_timerId = 0, c_rand = (\<lambda>n. 7), c_drawn = 0, c_exit = False\<rparr>)
     \<lparr>dp_child := (\<lambda>k. if k = 0 then (mk_link (Addr 2 1))\<lparr>lk_avail := Some (fair_node 1000)\<rparr>
        else (mk_link (Addr 3 1))\<lparr>lk_avail := Some (fair_node 500)\<rparr>),
      dp_father := (mk_link (Addr 9 1))\<lparr>lk_notified := Some (fair_node 500)\<rparr>\<rparr>"

abbreviation example_fair :: fsp_config where
  "example_fair \<equiv> \<lparr>fc_beta = 2 / 5, fc_discard = False, fc_ratio = 2\<rparr>"

abbreviation fsp_run :: "taskbag_msg \<Rightarrow> fsp_info disp option" where
  "fsp_run m \<equiv> fsp_handle_bag (\<lambda>x. x) (\<lambda>i. i) (\<lambda>m. 0) 0 example_fair (sorted_heap cost_less) example_branch (Addr 9 1) m fsp_example"

lemma example_functions:
  "child_functions (tb_minReq example_bag) 0 fsp_example = [(0, mk_fz 100 100 [mk_piece min_length 0 0 (1 / 1000) 0])]"
  "child_functions (tb_minReq example_bag) 1 fsp_example = [(0, mk_fz 100 100 [mk_piece min_length 0 0 (1 / 500) 0])]"
  by code_simp+

text \<open>Two nodes, one twice as fast: of four tasks each gets two.\<close>

theorem fsp_divides_exactly_witness:
  "\<exists>w. fv_compute (sorted_heap cost_less) 4 1000 (mk_vector [(0, mk_fz 100 100 [mk_piece 1000 0 0 (1 / 1000) 0])]
      [(0, mk_fz 100 100 [mk_piece 1000 0 0 (1 / 500) 0])] (\<lambda>_. 0)) = Some w
    \<and> unat (tasks_per_branch w 0) + unat (tasks_per_branch w 1) = 4"
proof -
  have "unat (4 :: 32 word) + 1 < 2 ^ 32" by simp
  from fsp_divides_exactly [OF cost_order.sorted_range _ this,
      of "[(0, mk_fz 100 100 [mk_piece 1000 0 0 (1 / 1000) 0])]" "[(0, mk_fz 100 100 [mk_piece 1000 0 0 (1 / 500) 0])]" 1000 "\<lambda>_. 0"]
  show ?thesis by (simp add: mk_fz_def)
qed

lemma example_goes_up: "fsp_run example_bag \<noteq> None"
proof -
  have "fv_nodes (mk_vector (child_functions (tb_minReq example_bag) 0 fsp_example)
      (child_functions (tb_minReq example_bag) 1 fsp_example) (child_slowness fsp_example)) < 4"
    unfolding example_functions by (simp add: mk_vector_def cluster_nodes_def mk_fz_def)
  moreover have "tb_lastTask example_bag - tb_firstTask example_bag + 1 = 4" "\<not> must_go_down (Addr 9 1) example_bag fsp_example"
    "\<not> tb_forEN example_bag" "check_state example_branch fsp_example"
    "send_tasks (fsp_ops (\<lambda>x. x) (\<lambda>i. i)) example_branch (msg_copy example_bag) (\<lambda>_. 0) False fsp_example \<noteq> None"
    by code_simp+
  ultimately show ?thesis by (simp add: fsp_handle_bag_def Let_def)
qed


end
