(* ===== verification/Za_Extremes.thy ===== *)
theory Za_Extremes
  imports Za_Combine
begin

text \<open>
  The minimum and the maximum of two slowness functions. Where the roots that the code computes are
  exact, they are the minimum and the maximum for every length.
\<close>

section \<open>Where a difference changes its sign\<close>

abbreviation quad :: "rat \<Rightarrow> rat \<Rightarrow> rat \<Rightarrow> rat \<Rightarrow> rat" where
  "quad a b c x \<equiv> a * x * x + b * x + c"

lemma linear_root:
  fixes m k x y :: rat
  assumes "(m * x + k) * (m * y + k) < 0" and "x < y"
  shows "\<exists>z. x < z \<and> z < y \<and> m * z + k = 0"
proof -
  have m: "m \<noteq> 0" using assms by (auto simp: mult_less_0_iff)
  define z where "z = - k / m"
  have z: "m * z + k = 0" using m by (simp add: z_def)
  have "m * x + k = m * (x - z)" "m * y + k = m * (y - z)" using z by (simp_all add: algebra_simps)
  then have "(m * (x - z)) * (m * (y - z)) < 0" using assms(1) by simp
  then have "(m * m) * ((x - z) * (y - z)) < 0" by (simp add: ac_simps)
  moreover have "m * m > 0" using m by (metis not_square_less_zero linorder_neqE mult_eq_0_iff)
  ultimately have "(x - z) * (y - z) < 0" by (metis mult_less_0_iff order_less_asym)
  then have "x < z \<and> z < y" using assms(2) by (auto simp: mult_less_0_iff)
  with z show ?thesis by blast
qed

lemma quad_root:
  fixes a b c d x y :: rat
  assumes "a \<noteq> 0" and "d * d = b * b - 4 * a * c" and "quad a b c x * quad a b c y < 0" and "x < y"
  shows "\<exists>z. x < z \<and> z < y \<and> quad a b c z = 0"
proof -
  have q: "4 * a * quad a b c t = (2 * a * t + (b - d)) * (2 * a * t + (b + d))" for t
  proof -
    have "(2 * a * t + (b - d)) * (2 * a * t + (b + d)) = (2 * a * t + b) * (2 * a * t + b) - d * d"
      by (simp add: algebra_simps)
    also have "\<dots> = 4 * a * quad a b c t" unfolding assms(2) by (simp add: algebra_simps)
    finally show ?thesis by simp
  qed
  have "(4 * a * quad a b c x) * (4 * a * quad a b c y) = (4 * a) * (4 * a) * (quad a b c x * quad a b c y)"
    by (simp only: ac_simps)
  moreover have "(4 * a) * (4 * a) > 0" using assms(1) by (metis not_square_less_zero linorder_neqE mult_eq_0_iff zero_neq_numeral)
  ultimately have "(4 * a * quad a b c x) * (4 * a * quad a b c y) < 0"
    using assms(3) by (metis mult_pos_neg)
  then have "((2 * a * x + (b - d)) * (2 * a * y + (b - d))) * ((2 * a * x + (b + d)) * (2 * a * y + (b + d))) < 0"
    unfolding q by (simp only: ac_simps)
  then consider "(2 * a * x + (b - d)) * (2 * a * y + (b - d)) < 0" | "(2 * a * x + (b + d)) * (2 * a * y + (b + d)) < 0"
    by (auto simp: mult_less_0_iff [of "_ * _"])
  then obtain z where "x < z" "z < y" "2 * a * z + (b - d) = 0 \<or> 2 * a * z + (b + d) = 0"
    using linear_root [OF _ assms(4)] by cases blast+
  moreover from this(3) have "4 * a * quad a b c z = 0" unfolding q by auto
  ultimately show ?thesis using assms(1) by auto
qed

text \<open>The square roots that the code takes for a difference are exact.\<close>

definition exact_root :: "(rat \<Rightarrow> rat) \<Rightarrow> rat \<Rightarrow> bool" where
  "exact_root sq x \<longleftrightarrow> sq x \<ge> 0 \<and> sq x * sq x = x"

definition cross_exact :: "(rat \<Rightarrow> rat) \<Rightarrow> rat \<Rightarrow> rat \<Rightarrow> rat \<Rightarrow> bool" where
  "cross_exact sq a b c \<longleftrightarrow>
    (if a = 0 then True
     else if b = 0 then (0 < - c / a \<longrightarrow> exact_root sq (- c / a))
     else (0 < b * b - 4 * a * c \<longrightarrow> exact_root sq (b * b - 4 * a * c)))"

lemma root_between:
  assumes "cross_exact sq a b c" and "quad a b c x * quad a b c y < 0" and "x < y"
  shows "\<exists>z. x < z \<and> z < y \<and> quad a b c z = 0"
proof (cases "a = 0")
  case True
  with assms(2,3) show ?thesis using linear_root [of b x c y] by simp
next
  case a: False
  show ?thesis
  proof (cases "0 \<le> b * b - 4 * a * c")
    case True
    have "\<exists>d. d * d = b * b - 4 * a * c"
    proof (cases "b * b - 4 * a * c = 0")
      case False
      show ?thesis
      proof (cases "b = 0")
        case b: True
        have "- c / a = (b * b - 4 * a * c) / (4 * a * a)" using a b by (simp add: field_simps)
        also have "\<dots> > 0" using True False a
          by (intro divide_pos_pos) (auto simp: zero_less_mult_iff linorder_neq_iff)
        finally have "sq (- c / a) * sq (- c / a) = - c / a"
          using assms(1) a b by (simp add: cross_exact_def exact_root_def)
        then have "(2 * a * sq (- c / a)) * (2 * a * sq (- c / a)) = 4 * a * a * (- c / a)"
          by (metis (no_types, opaque_lifting) mult.assoc mult.commute mult_2_right numeral_Bit0 mult_numeral_1)
        then show ?thesis using a b by (intro exI [of _ "2 * a * sq (- c / a)"]) simp
      qed (use True False assms(1) a in \<open>auto simp: cross_exact_def exact_root_def\<close>)
    qed (intro exI [of _ 0], simp)
    then show ?thesis using quad_root [OF a _ assms(2,3)] by blast
  next
    case False
    have p: "a * quad a b c t > 0" for t
    proof -
      have "4 * (a * quad a b c t) = (2 * a * t + b) * (2 * a * t + b) - (b * b - 4 * a * c)"
        by (simp add: algebra_simps)
      also have "\<dots> > 0" using False by (smt (verit) not_square_less_zero diff_gt_0_iff_gt not_le order_less_le_trans linorder_not_less)
      finally show ?thesis by simp
    qed
    from p [of x] p [of y] assms(2) show ?thesis by (auto simp: zero_less_mult_iff mult_less_0_iff)
  qed
qed

lemma root_listed:
  assumes "cross_exact sq a b c" and "quad a b c z = 0" and "a \<noteq> 0 \<or> b \<noteq> 0 \<or> c \<noteq> 0"
    and "0 < s" and "s < z" and "Fin z < e"
  shows "z \<in> set (za_cross sq s e a b c)"
proof (cases "a = 0")
  case True
  then have b: "b \<noteq> 0" using assms(2,3) by auto
  with True assms(2) have "z = - c / b" by (simp add: eq_divide_eq add_eq_0_iff mult.commute)
  then show ?thesis using True b assms(5,6) by (simp add: za_cross_def za_between_def)
next
  case a: False
  show ?thesis
  proof (cases "b = 0")
    case True
    have z: "z * z = - c / a" using assms(2) a True by (simp add: field_simps add_eq_0_iff)
    have "0 < z * z" using assms(4,5) by simp
    then have e: "exact_root sq (z * z)" using assms(1) a True unfolding z by (simp add: cross_exact_def)
    then have "sq (z * z) = z" using assms(4,5) unfolding exact_root_def
      by (metis abs_of_nonneg abs_mult_self_eq less_imp_le order_less_trans power2_eq_imp_eq power2_eq_square)
    moreover have "s * s < z * z" using assms(4,5) by (simp add: mult_strict_mono)
    moreover have "Fin (z * z) < ext_square e"
      using assms(4-6) by (cases e) (auto simp: ext_square_def mult_strict_mono)
    ultimately show ?thesis using a True unfolding za_cross_def za_between_def z [symmetric] by simp
  next
    case b: False
    define D where "D = b * b - 4 * a * c"
    have "(2 * a * z + b) * (2 * a * z + b) = D + 4 * a * quad a b c z" unfolding D_def by (simp add: algebra_simps)
    then have sq: "(2 * a * z + b) * (2 * a * z + b) = D" using assms(2) by simp
    then have D0: "0 \<le> D" by (metis zero_le_square)
    show ?thesis
    proof (cases "D = 0")
      case True
      then have "2 * a * z + b = 0" using sq by simp
      then have "z = - b / (2 * a)" using a by (simp add: field_simps add_eq_0_iff)
      then show ?thesis using a b True assms(5,6) by (simp add: za_cross_def za_between_def D_def [symmetric])
    next
      case False
      then have "sq D * sq D = D" using assms(1) a b D0 by (simp add: cross_exact_def exact_root_def D_def)
      then have "(2 * a * z + b - sq D) * (2 * a * z + b + sq D) = 0" using sq by (simp add: algebra_simps)
      then have "2 * a * z = - b + sq D \<or> 2 * a * z = - b - sq D" by auto
      then have "z = (- b + sq D) / (2 * a) \<or> z = (- b - sq D) / (2 * a)" using a by (auto simp: field_simps)
      then show ?thesis using a b False D0 assms(5,6)
        by (auto simp: za_cross_def za_between_def Let_def D_def [symmetric])
    qed
  qed
qed

lemma exact_root_within:
  assumes "exact_root sq z" and "0 < s" and "s * s < z" and "Fin z < ext_square e" and "Fin s < e"
  shows "s < sq z \<and> Fin (sq z) < e"
proof -
  have r: "0 \<le> sq z" "sq z * sq z = z" using assms(1) by (auto simp: exact_root_def)
  have "s < sq z" using r assms(2,3) by (metis less_imp_le linorder_not_le mult_mono)
  moreover have "sq z < x" if "z < x * x" "0 < x" for x
    using r that by (metis less_imp_le linorder_not_le mult_mono)
  ultimately show ?thesis using assms(2,4,5) by (cases e) (auto simp: ext_square_def)
qed

lemma cross_sorted:
  assumes "cross_exact sq a b c" and "0 < s" and "Fin s < e"
  shows "sorted_wrt (<) (za_cross sq s e a b c) \<and> (\<forall>z \<in> set (za_cross sq s e a b c). s < z \<and> Fin z < e)"
proof (cases "a = 0")
  case True then show ?thesis by (simp add: za_cross_def za_between_def)
next
  case a: False
  show ?thesis
  proof (cases "b = 0")
    case True
    have "s < sq (- c / a) \<and> Fin (sq (- c / a)) < e" if "s * s < - c / a" "Fin (- c / a) < ext_square e"
    proof (rule exact_root_within [OF _ assms(2) that assms(3)])
      have "0 < - c / a" using that(1) assms(2) by (smt (verit) mult_pos_pos order_less_trans)
      then show "exact_root sq (- c / a)" using assms(1) a True by (simp add: cross_exact_def)
    qed
    then show ?thesis using a True by (simp add: za_cross_def za_between_def)
  next
    case b: False
    define D where "D = b * b - 4 * a * c"
    have "sq D \<noteq> 0" if "0 < D" using assms(1) a b that by (auto simp: cross_exact_def exact_root_def D_def [symmetric])
    then have "(- b + sq D) / (2 * a) \<noteq> (- b - sq D) / (2 * a)" if "0 < D" using a that by simp
    then have "(sq D - b) / (2 * a) < (- b - sq D) / (2 * a) \<or> (- b - sq D) / (2 * a) < (sq D - b) / (2 * a)" if "0 < D"
      using that by (metis linorder_neqE uminus_add_conv_diff)
    then show ?thesis using a b
      by (auto simp: za_cross_def za_between_def Let_def D_def [symmetric] sorted_wrt_append)
  qed
qed

section \<open>One segment\<close>

lemma piece_difference:
  assumes "0 < x"
  shows "x * (pc_value p x 1 - pc_value q x 1)
    = quad (pc_y p - pc_y q) (pc_z1 p - pc_z1 q + pc_z2 p - pc_z2 q) (pc_x p - pc_x q) x"
  using assms by (simp add: pc_value_def field_simps)

text \<open>The piece that is the greater one in the middle is so in the whole segment.\<close>

lemma segment_sign:
  assumes "cross_exact sq a b c" and "0 < s" and "s \<le> x" and "x < e'" and "s < m" and "m < e'"
    and "Fin e' \<le> e" and "\<forall>z \<in> set (za_cross sq s e a b c). z \<le> l \<or> e' \<le> z" and "l \<le> x" and "l < m"
  shows "if c / m + a * m + b > 0 then 0 \<le> quad a b c x else quad a b c x \<le> 0"
proof -
  have m: "c / m + a * m + b > 0 \<longleftrightarrow> quad a b c m > 0"
  proof -
    have "quad a b c m = m * (c / m + a * m + b)" using assms(2,5) by (simp add: field_simps)
    then show ?thesis using assms(2,5) by (simp add: zero_less_mult_iff)
  qed
  have none: "\<not> (quad a b c z = 0 \<and> l < z \<and> s < z \<and> z < e')" if "a \<noteq> 0 \<or> b \<noteq> 0 \<or> c \<noteq> 0" for z
  proof
    assume z: "quad a b c z = 0 \<and> l < z \<and> s < z \<and> z < e'"
    then have "Fin z < e" using assms(7) by (metis less_ext_simps(1) order_less_le_trans)
    from root_listed [OF assms(1) _ that assms(2) _ this] z assms(8) show False by force
  qed
  have opp: "\<not> quad a b c x * quad a b c m < 0"
  proof
    assume neg: "quad a b c x * quad a b c m < 0"
    then have nz: "a \<noteq> 0 \<or> b \<noteq> 0 \<or> c \<noteq> 0" by auto
    have "x \<noteq> m" using neg by (metis not_square_less_zero)
    then consider "x < m" | "m < x" by linarith
    then obtain z where "quad a b c z = 0" "l < z" "s < z" "z < e'"
    proof cases
      case 1
      from root_between [OF assms(1) neg this] that assms show ?thesis by force
    next
      case 2
      from root_between [OF assms(1) _ this] neg that assms show ?thesis by (force simp: mult.commute)
    qed
    with none [OF nz] show False by blast
  qed
  show ?thesis
  proof (cases "quad a b c m = 0")
    case True
    then have "a = 0 \<and> b = 0 \<and> c = 0" using none [of m] assms by force
    then show ?thesis by simp
  next
    case False
    then show ?thesis using opp unfolding m by (auto simp: mult_less_0_iff not_less)
  qed
qed

section \<open>Functions in pieces\<close>

definition za_wf :: "za \<Rightarrow> bool" where
  "za_wf f \<longleftrightarrow> f \<noteq> [] \<and> pc_left (hd f) = min_length \<and> sorted_wrt (<) (map pc_left f)"

lemma takeWhile_last: "\<not> P y \<Longrightarrow> takeWhile P (xs @ [y]) = takeWhile P xs"
  by (induction xs) auto

lemma za_piece_at:
  assumes "sorted_wrt (<) (map pc_left (pre @ p # post))" and "pre = [] \<or> pc_left p \<le> x"
    and "\<forall>q \<in> set post. x < pc_left q"
  shows "za_piece x (pre @ p # post) = p"
proof -
  have post: "takeWhile (pc_covers x) post = []"
    using assms(3) by (cases post) (auto simp: pc_covers_def)
  show ?thesis
  proof (cases pre)
    case Nil then show ?thesis using post by (simp add: za_piece_def)
  next
    case (Cons h t)
    then have x: "pc_left p \<le> x" using assms(2) by simp
    have "\<forall>q \<in> set t. pc_covers x q"
      using assms(1) x Cons by (force simp: sorted_wrt_append pc_covers_def)
    then have "takeWhile (pc_covers x) (t @ p # post) = t @ [p]"
      using x post by (simp add: pc_covers_def)
    then show ?thesis using Cons by (simp add: za_piece_def)
  qed
qed

text \<open>A function that is built up to a length \<open>e\<close> and has the values \<open>g\<close> there.\<close>

definition za_upto :: "(rat \<Rightarrow> rat) \<Rightarrow> ext \<Rightarrow> za \<Rightarrow> bool" where
  "za_upto g e ps \<longleftrightarrow> sorted_wrt (<) (map pc_left ps) \<and> (\<forall>p \<in> set ps. Fin (pc_left p) < e)
     \<and> (if ps = [] then e = Fin min_length else pc_left (hd ps) = min_length)
     \<and> (\<forall>x. min_length \<le> x \<and> Fin x < e \<longrightarrow> pc_value (za_piece x ps) x 1 = g x)"

lemma za_upto_push:
  assumes "za_upto g (Fin s) ps" and "Fin s < e" and "\<And>x. s \<le> x \<Longrightarrow> Fin x < e \<Longrightarrow> pc_value p x 1 = g x"
  shows "za_upto g e (za_push p (piece_from s p) ps)"
proof (cases "ps = [] \<or> \<not> pc_extends p (last ps)")
  case True
  let ?new = "piece_from s p"
  have new: "pc_left ?new = s" "\<And>x. pc_value ?new x 1 = pc_value p x 1" by (simp_all add: piece_from_def pc_value_def)
  have left: "\<forall>q \<in> set ps. pc_left q < s" using assms(1) by (simp add: za_upto_def)
  have srt: "sorted_wrt (<) (map pc_left (ps @ [?new]))"
    using assms(1) left new by (auto simp: za_upto_def sorted_wrt_append)
  have val: "pc_value (za_piece x (ps @ [?new])) x 1 = g x" if "min_length \<le> x" "Fin x < e" for x
  proof (cases "s \<le> x")
    case True
    with za_piece_at [of ps ?new "[]" x] srt new assms(3) [OF True that(2)] show ?thesis by simp
  next
    case False
    then have "za_piece x (ps @ [?new]) = za_piece x ps" if "ps \<noteq> []"
      using that new by (cases ps) (simp_all add: za_piece_def takeWhile_last pc_covers_def)
    moreover have "ps \<noteq> []" using assms(1) that(1) False by (auto simp: za_upto_def)
    ultimately show ?thesis using assms(1) that(1) False by (simp add: za_upto_def)
  qed
  have "\<forall>q \<in> set (ps @ [?new]). Fin (pc_left q) < e"
    using left new assms(2) by (auto intro: order_less_trans [of _ "Fin s"])
  moreover have "pc_left (hd (ps @ [?new])) = min_length"
    using assms(1) new by (cases ps) (auto simp: za_upto_def)
  ultimately show ?thesis using True srt val by (auto simp: za_upto_def za_push_def)
next
  case False
  then obtain pre l where ps: "ps = pre @ [l]" by (metis append_butlast_last_id)
  then have same: "\<And>x. pc_value l x 1 = pc_value p x 1" using False by (simp add: pc_extends_def pc_value_def)
  have "pc_value (za_piece x ps) x 1 = g x" if "min_length \<le> x" "Fin x < e" for x
  proof (cases "s \<le> x")
    case True
    have "pc_left l < s" using assms(1) ps by (simp add: za_upto_def)
    then have "za_piece x ps = l" using za_piece_at [of pre l "[]" x] assms(1) True ps by (simp add: za_upto_def)
    then show ?thesis using same assms(3) [OF True that(2)] by simp
  qed (use assms(1) that in \<open>simp add: za_upto_def\<close>)
  moreover have "\<forall>q \<in> set ps. Fin (pc_left q) < e"
    using assms(1,2) by (auto simp: za_upto_def intro: order_less_trans [of _ "Fin s"])
  ultimately show ?thesis using False assms(1) by (auto simp: za_upto_def za_push_def)
qed

section \<open>Picking a piece in each segment\<close>

definition pick_step :: "(nat \<Rightarrow> nat) \<Rightarrow> za za_step" where
  "pick_step k ps s e cur m = za_push (cur ! k m) (piece_from s (cur ! k m)) ps"

lemma pick_steps: "za_high_step = pick_step (\<lambda>m. m)" "za_low_step = pick_step (\<lambda>m. 1 - m)"
  by (simp_all add: fun_eq_iff pick_step_def za_high_step_def za_low_step_def)

text \<open>\<open>k\<close> chooses a piece by the position of the greater one, \<open>pick\<close> a value.\<close>

text \<open>The piece \<open>p\<close> of a function is the one at \<open>s\<close>, and \<open>u\<close> are the pieces to come.\<close>

definition active :: "za \<Rightarrow> rat \<Rightarrow> sub_fun \<Rightarrow> za \<Rightarrow> bool" where
  "active f s p u \<longleftrightarrow> (\<exists>pre. f = pre @ p # u) \<and> sorted_wrt (<) (map pc_left f)
     \<and> pc_left p \<le> s \<and> (\<forall>q \<in> set u. s \<le> pc_left q)"

definition next_left :: "za \<Rightarrow> ext" where
  "next_left u = (if u = [] then Infinite else Fin (pc_left (hd u)))"

lemma za_next_pair:
  "za_next 0 [u, v] (Infinite, 0) = (if next_left v < next_left u then (next_left v, 1) else (next_left u, 0))"
  by (simp add: next_left_def)

lemma active_next: "active f s p u \<Longrightarrow> Fin s \<le> next_left u"
  by (cases u) (auto simp: active_def next_left_def)

lemma active_value:
  assumes "active f s p u" and "s \<le> x" and "Fin x < next_left u"
  shows "za_getSlowness x f = pc_value p x 1"
proof -
  from assms(1) obtain pre where f: "f = pre @ p # u" "sorted_wrt (<) (map pc_left f)" "pc_left p \<le> s"
    by (auto simp: active_def)
  have "\<forall>q \<in> set u. x < pc_left q"
    using f(1,2) assms(3) by (cases u) (auto simp: next_left_def sorted_wrt_append intro: order_less_trans)
  then have "za_piece x f = p" using za_piece_at [of pre p u x] f assms(2) by simp
  then show ?thesis by (simp add: za_getSlowness_def)
qed

lemma active_advance:
  assumes "active f s p u" and "next_left u = Fin e"
  shows "active f e (hd u) (tl u)"
proof -
  obtain q w where u: "u = q # w" "pc_left q = e" using assms(2) by (cases u) (auto simp: next_left_def)
  from assms(1) obtain pre where f: "f = pre @ p # u" "sorted_wrt (<) (map pc_left f)" by (auto simp: active_def)
  have "f = (pre @ [p]) @ q # w" using f(1) u(1) by simp
  then show ?thesis using f(2) u by (auto simp: active_def sorted_wrt_append intro: less_imp_le)
qed

lemma active_later: "active f s p u \<Longrightarrow> s \<le> e \<Longrightarrow> Fin e \<le> next_left u \<Longrightarrow> active f e p u"
  by (cases u) (auto simp: active_def next_left_def sorted_wrt_append intro: order_trans,
    meson less_imp_le order_trans)

lemma active_first: "za_wf f \<Longrightarrow> active f min_length (hd f) (tl f)"
  by (cases f) (auto simp: active_def za_wf_def intro: less_imp_le)

locale extreme =
  fixes k :: "nat \<Rightarrow> nat" and pick :: "rat \<Rightarrow> rat \<Rightarrow> rat"
  assumes first_greater: "w \<le> v \<Longrightarrow> pick v w = [v, w] ! k 0"
    and second_greater: "v \<le> w \<Longrightarrow> pick v w = [v, w] ! k 1"
    and position: "m < 2 \<Longrightarrow> k m < 2"
begin

lemma picked:
  assumes "if up then w \<le> v else v \<le> w"
  shows "pick v w = [v, w] ! k (if up then 0 else 1)"
  using assms first_greater second_greater by (auto split: if_splits)

lemma value_at: "m < 2 \<Longrightarrow> pc_value ([p, q] ! k m) x 1 = [pc_value p x 1, pc_value q x 1] ! k m"
  using position [of m] by (auto simp: less_Suc_eq numeral_2_eq_2)

lemma segment_step:
  assumes "cross_exact sq a b c" and "0 < s" and "s \<le> l" and "Fin l < r" and "r \<le> e"
    and abc: "a = pc_y p - pc_y q" "b = pc_z1 p - pc_z1 q + pc_z2 p - pc_z2 q" "c = pc_x p - pc_x q"
    and g: "\<And>x. s \<le> x \<Longrightarrow> Fin x < e \<Longrightarrow> g x = pick (pc_value p x 1) (pc_value q x 1)"
    and roots: "\<forall>z \<in> set (za_cross sq s e a b c). z \<le> l \<or> r \<le> Fin z"
    and ps: "za_upto g (Fin l) ps"
  shows "za_upto g r (pick_step k ps l r [p, q] (if c / za_middle l r + a * za_middle l r + b > 0 then 0 else 1))"
proof -
  let ?m = "za_middle l r" and ?up = "c / za_middle l r + a * za_middle l r + b > 0"
  have m: "l < ?m" "Fin ?m < r" using assms(4) by (auto simp: za_middle_def field_simps split: ext.split)
  have "pc_value ([p, q] ! k (if ?up then 0 else 1)) x 1 = g x" if x: "l \<le> x" "Fin x < r" for x
  proof -
    obtain e' where e': "x < e'" "?m < e'" "Fin e' \<le> r"
    proof (cases r)
      case (Fin y) then show ?thesis using that [of y] x m by simp
    next
      case Infinite then show ?thesis using that [of "max x ?m + 1"] by simp
    qed
    have "\<forall>z \<in> set (za_cross sq s e a b c). z \<le> l \<or> e' \<le> z"
      using roots e'(3) by (metis less_eq_ext.simps(1) order_trans)
    from segment_sign [OF assms(1,2) _ e'(1) _ e'(2) _ this x(1) m(1)] assms(3,5) x(1) m(1) e'(3)
    have "if ?up then 0 \<le> quad a b c x else quad a b c x \<le> 0" by (auto intro: order_trans)
    moreover have "0 < x" using assms(2,3) x(1) by simp
    moreover note piece_difference [OF this, of p q, folded abc]
    ultimately have "if ?up then pc_value q x 1 \<le> pc_value p x 1 else pc_value p x 1 \<le> pc_value q x 1"
      by (smt (verit, best) zero_le_mult_iff mult_le_0_iff diff_ge_0_iff_ge diff_le_0_iff_le order_less_imp_not_less linorder_not_le)
    from picked [OF this] value_at [of "if ?up then 0 else 1" p q x] show ?thesis
      using g [of x] assms(3,5) x by (auto intro: order_less_le_trans)
  qed
  then show ?thesis unfolding pick_step_def by (intro za_upto_push [OF ps assms(4)]) auto
qed

lemma segments_upto:
  assumes "cross_exact sq a b c" and "0 < s"
    and abc: "a = pc_y p - pc_y q" "b = pc_z1 p - pc_z1 q + pc_z2 p - pc_z2 q" "c = pc_x p - pc_x q"
    and g: "\<And>x. s \<le> x \<Longrightarrow> Fin x < e \<Longrightarrow> g x = pick (pc_value p x 1) (pc_value q x 1)"
  shows "s \<le> l \<Longrightarrow> Fin l < e \<Longrightarrow> sorted_wrt (<) (l # cs) \<Longrightarrow> \<forall>z \<in> set cs. Fin z < e \<Longrightarrow>
    \<forall>z \<in> set (za_cross sq s e a b c). z \<le> l \<or> z \<in> set cs \<Longrightarrow> za_upto g (Fin l) ps \<Longrightarrow>
    za_upto g e (za_segments (pick_step k) [p, q] a b c l (map Fin cs @ [e]) ps)"
proof (induction cs arbitrary: l ps)
  case Nil
  have "za_upto g e (pick_step k ps l e [p, q] (if c / za_middle l e + a * za_middle l e + b > 0 then 0 else 1))"
    by (rule segment_step [OF assms(1,2) Nil.prems(1,2) _ abc g]) (use Nil.prems in auto)
  then show ?case by (cases e) (auto simp: Let_def)
next
  case (Cons z cs)
  have "\<forall>y \<in> set (za_cross sq s e a b c). y \<le> l \<or> Fin z \<le> Fin y" using Cons.prems(3,5) by force
  then have "za_upto g (Fin z) (pick_step k ps l (Fin z) [p, q]
      (if c / za_middle l (Fin z) + a * za_middle l (Fin z) + b > 0 then 0 else 1))"
    by (intro segment_step [OF assms(1,2) Cons.prems(1) _ _ abc g]) (use Cons.prems in \<open>auto intro: less_imp_le\<close>)
  from Cons.IH [OF _ _ _ _ _ this] Cons.prems show ?case by (force simp: Let_def)
qed

lemma interval_upto:
  assumes exact: "cross_exact sq (pc_y p - pc_y q) (pc_z1 p - pc_z1 q + pc_z2 p - pc_z2 q) (pc_x p - pc_x q)"
    and "0 < s" and "Fin s \<le> e" and g: "\<And>x. s \<le> x \<Longrightarrow> Fin x < e \<Longrightarrow> g x = pick (pc_value p x 1) (pc_value q x 1)"
    and ps: "za_upto g (Fin s) ps"
  shows "za_upto g e (za_interval sq (pick_step k) [p, q] s e ps)"
proof (cases "Fin s < e")
  case True
  from cross_sorted [OF exact assms(2) True]
    segments_upto [OF exact assms(2) refl refl refl g order_refl True _ _ _ ps,
      of "za_cross sq s e (pc_y p - pc_y q) (pc_z1 p - pc_z1 q + pc_z2 p - pc_z2 q) (pc_x p - pc_x q)"]
  show ?thesis using True by (simp add: za_interval_def Let_def)
next
  case False
  then have "e = Fin s" using assms(3) by simp
  then show ?thesis using ps by (simp add: za_interval_def)
qed

lemma stepper_upto:
  assumes exact: "\<And>p q. p \<in> set f \<Longrightarrow> q \<in> set h \<Longrightarrow>
      cross_exact sq (pc_y p - pc_y q) (pc_z1 p - pc_z1 q + pc_z2 p - pc_z2 q) (pc_x p - pc_x q)"
    and g: "\<And>x. g x = pick (za_getSlowness x f) (za_getSlowness x h)"
  shows "active f s p u \<Longrightarrow> active h s q v \<Longrightarrow> 0 < s \<Longrightarrow> za_upto g (Fin s) ps \<Longrightarrow>
    za_upto g Infinite (za_stepper sq (pick_step k) s [p, q] [u, v] ps)"
proof (induction "length u + length v" arbitrary: s p u q v ps rule: less_induct)
  case less
  let ?e = "if next_left v < next_left u then next_left v else next_left u"
  have e: "Fin s \<le> ?e" "?e \<le> next_left u" "?e \<le> next_left v"
    using less.prems(1,2) active_next by auto
  have pq: "p \<in> set f" "q \<in> set h" using less.prems(1,2) by (auto simp: active_def)
  have "g x = pick (pc_value p x 1) (pc_value q x 1)" if "s \<le> x" "Fin x < ?e" for x
    using active_value [OF less.prems(1) that(1)] active_value [OF less.prems(2) that(1)] that(2) e(2,3) g
    by (metis order_less_le_trans)
  note ps0 = interval_upto [OF exact [OF pq] less.prems(3) e(1) this less.prems(4)]
  have nx: "za_next 0 [u, v] (Infinite, 0) = (?e, if next_left v < next_left u then 1 else 0)"
    by (simp add: za_next_pair del: za_next.simps)
  have ps1: "za_upto g ?e (za_interval sq (pick_step k) [p, q] s ?e ps)" by (rule ps0)
  show ?case
  proof (cases ?e)
    case Infinite
    then show ?thesis using ps1 unfolding za_stepper.simps [of _ _ s] nx by (simp only: prod.case ext.case)
  next
    case (Fin x)
    have x: "s \<le> x" "0 < x" using e(1) Fin less.prems(3) by auto
    show ?thesis
    proof (cases "next_left v < next_left u")
      case True
      have "length u + length (tl v) < length u + length v" using Fin True by (cases v) (auto simp: next_left_def)
      moreover have "next_left v = Fin x" using Fin True by simp
      moreover note less.hyps [OF _ active_later [OF less.prems(1) x(1)] active_advance [OF less.prems(2)] x(2)]
      ultimately show ?thesis using ps1 e(2,3) True unfolding za_stepper.simps [of _ _ s] nx Fin by simp
    next
      case False
      have "length (tl u) + length v < length u + length v" using Fin False by (cases u) (auto simp: next_left_def)
      moreover have "next_left u = Fin x" using Fin False by simp
      moreover note less.hyps [OF _ active_advance [OF less.prems(1)] active_later [OF less.prems(2) x(1)] x(2)]
      ultimately show ?thesis using ps1 e(2,3) False unfolding za_stepper.simps [of _ _ s] nx Fin by simp
    qed
  qed
qed

lemma run_picks:
  assumes "za_wf f" and "za_wf h"
    and "\<And>p q. p \<in> set f \<Longrightarrow> q \<in> set h \<Longrightarrow>
      cross_exact sq (pc_y p - pc_y q) (pc_z1 p - pc_z1 q + pc_z2 p - pc_z2 q) (pc_x p - pc_x q)"
  shows "za_wf (za_run sq (pick_step k) [f, h] []) \<and> (\<forall>x. min_length \<le> x \<longrightarrow>
    za_getSlowness x (za_run sq (pick_step k) [f, h] []) = pick (za_getSlowness x f) (za_getSlowness x h))"
proof -
  let ?g = "\<lambda>x. pick (za_getSlowness x f) (za_getSlowness x h)"
  have "za_upto ?g (Fin min_length) []" by (simp add: za_upto_def)
  from stepper_upto [OF assms(3) refl active_first [OF assms(1)] active_first [OF assms(2)] _ this]
  have "za_upto ?g Infinite (za_run sq (pick_step k) [f, h] [])" by (simp add: za_run_def min_length_def)
  then show ?thesis by (auto simp: za_upto_def za_wf_def za_getSlowness_def split: if_splits)
qed

end

interpretation highest: extreme "\<lambda>m. m" max
  by unfold_locales (auto simp: max_def)

interpretation lowest: extreme "\<lambda>m. 1 - m" min
  by unfold_locales (auto simp: min_def)

definition roots_exact :: "(rat \<Rightarrow> rat) \<Rightarrow> za \<Rightarrow> za \<Rightarrow> bool" where
  "roots_exact sq f h \<longleftrightarrow> (\<forall>p \<in> set f. \<forall>q \<in> set h.
     cross_exact sq (pc_y p - pc_y q) (pc_z1 p - pc_z1 q + pc_z2 p - pc_z2 q) (pc_x p - pc_x q))"



end
