(* ===== verification/Za_Queue.thy ===== *)
theory Za_Queue
  imports Za_Extremes Fsp_Props
begin

text \<open>
  What the construction of a slowness function from a queue gives: a function in pieces over all the
  lengths from the least one on, whose pieces are more than a unit apart.
\<close>

section \<open>The pass over the queue\<close>

abbreviation new_task :: "proxy \<Rightarrow> bool" where
  "new_task p \<equiv> tp_id p = - 1"

text \<open>The lengths that the new task has in a queue; there is one new task.\<close>

definition new_lengths :: "proxy list \<Rightarrow> rat list" where
  "new_lengths ts = map tp_a (filter new_task ts)"

lemma scan_steps:
  "map (\<lambda>p. (tp_id p, tp_a p)) (zs_tasks (fold scan_task ts mk_scan)) = map (\<lambda>p. (tp_id p, tp_a p)) ts
   \<and> ((\<exists>p \<in> set ts. new_task p) \<longrightarrow>
      (let n = zs_tn (fold scan_task ts mk_scan) in n < length ts \<and> new_task (zs_tasks (fold scan_task ts mk_scan) ! n)))"
proof (induction ts rule: rev_induct)
  case Nil then show ?case by (simp add: mk_scan_def)
next
  case (snoc p ts)
  let ?s = "fold scan_task ts mk_scan"
  have len: "length (zs_tasks ?s) = length ts" using map_eq_imp_length_eq [OF snoc [THEN conjunct1]] .
  have us: "zs_tasks (scan_task p ?s) = zs_tasks ?s @ [p\<lparr>tp_tsum := (if new_task p then zs_tsum ?s else zs_tsum ?s + tp_t p)\<rparr>]"
    by (simp add: scan_task_def Let_def)
  have tn: "zs_tn (scan_task p ?s) = (if new_task p then length ts else zs_tn ?s)"
    by (simp add: scan_task_def Let_def len)
  have "map (\<lambda>p. (tp_id p, tp_a p)) (zs_tasks (scan_task p ?s)) = map (\<lambda>p. (tp_id p, tp_a p)) (ts @ [p])"
    using snoc by (subst us) simp
  moreover have "new_task (zs_tasks (scan_task p ?s) ! zs_tn (scan_task p ?s)) \<and> zs_tn (scan_task p ?s) < length (ts @ [p])"
    if "\<exists>q \<in> set (ts @ [p]). new_task q"
    using snoc that len unfolding tn by (subst us) (auto simp: nth_append Let_def)
  ultimately show ?case by simp
qed

lemma new_lengths_keys:
  "map (\<lambda>p. (tp_id p, tp_a p)) us = map (\<lambda>p. (tp_id p, tp_a p)) ts \<Longrightarrow> new_lengths us = new_lengths ts"
proof -
  have key: "new_lengths vs = map snd (filter (\<lambda>k. fst k = - 1) (map (\<lambda>p. (tp_id p, tp_a p)) vs))" for vs
    by (simp add: new_lengths_def filter_map comp_def)
  show "map (\<lambda>p. (tp_id p, tp_a p)) us = map (\<lambda>p. (tp_id p, tp_a p)) ts \<Longrightarrow> ?thesis"
    unfolding key [of us] key [of ts] by simp
qed

lemma new_lengths_sort:
  assumes "same_queue pre ts us" shows "mset (new_lengths us) = mset (new_lengths ts)"
proof -
  have key: "new_lengths vs = map tp_a (filter new_task (map tp_key vs))" for vs
    by (simp add: new_lengths_def filter_map comp_def tp_key_def)
  have "mset (map tp_key us) = mset (map tp_key ts)"
    using assms by (cases pre; cases ts; cases us) (auto simp: same_queue_def fl_from_def)
  then show ?thesis unfolding key [of us] key [of ts] by (metis mset_filter mset_map)
qed

section \<open>One turn\<close>

lemma za_turn_parts:
  fixes ts defines "s \<equiv> fold scan_task ts mk_scan"
  shows "\<exists>sf as. pc_left sf = tp_a (zs_tasks s ! zs_tn s) \<and> za_turn sq pw bs ts =
    (sf, fold (nearer (tp_a (zs_tasks s ! zs_tn s))) as Infinite,
     take (zs_tn s) (zs_tasks s), zs_tasks s ! zs_tn s, drop (Suc (zs_tn s)) (zs_tasks s))"
proof -
  have left: "pc_left (mk_piece a x y z w) = a" for a x y z w by (simp add: mk_piece_def)
  show ?thesis unfolding za_turn_def Let_def s_def [symmetric]
    by (cases "zs_tm s = zs_tn s"; cases "zs_minBefore s") (simp_all add: left, (use left in blast)+)
qed

lemma fold_nearer: "fold (nearer cur) as m = Fin a \<Longrightarrow> (m = Fin a \<Longrightarrow> cur < a) \<Longrightarrow> cur < a"
  by (induction as arbitrary: m) (auto simp: nearer_def split: if_splits)

text \<open>The piece starts at the length of the new task, the next length is above it.\<close>

lemma za_turn_result:
  assumes "za_turn sq pw bs ts = (sf, m, prev, tn, after)" and "new_lengths ts = [cur]"
  shows "pc_left sf = cur" and "tp_a tn = cur" and "new_task tn" and "new_lengths (prev @ after) = []"
    and "m = Fin a \<Longrightarrow> cur < a"
proof -
  let ?s = "fold scan_task ts mk_scan"
  let ?us = "zs_tasks ?s"
  have us: "new_lengths ?us = [cur]" using new_lengths_keys [OF scan_steps [THEN conjunct1]] assms(2) by simp
  have n: "zs_tn ?s < length ?us" "new_task (?us ! zs_tn ?s)"
    using scan_steps [of ts] assms(2) by (auto simp: new_lengths_def Let_def filter_eq_Cons_iff dest!: arg_cong [of _ _ length])
  have parts: "prev = take (zs_tn ?s) ?us" "tn = ?us ! zs_tn ?s" "after = drop (Suc (zs_tn ?s)) ?us"
    "pc_left sf = tp_a tn" "\<exists>as. m = fold (nearer (tp_a tn)) as Infinite"
    using za_turn_parts [of ts sq pw bs] unfolding assms(1) by auto
  have "?us = prev @ tn # after" unfolding parts using n(1) by (simp add: id_take_nth_drop)
  from arg_cong [of _ _ new_lengths, OF this] have "new_lengths (prev @ tn # after) = [cur]" using us by (rule trans [OF sym])
  moreover have "new_task tn" using n(2) parts(2) by simp
  ultimately have "new_lengths prev @ tp_a tn # new_lengths after = [cur]" by (simp add: new_lengths_def)
  then have c: "tp_a tn = cur" "new_lengths prev = []" "new_lengths after = []"
    by (auto simp: append_eq_Cons_conv)
  then show "pc_left sf = cur" "tp_a tn = cur" "new_task tn" "new_lengths (prev @ after) = []"
    using parts n(2) by (simp_all add: new_lengths_def)
  show "cur < a" if "m = Fin a"
    using parts(5) that fold_nearer [of cur _ Infinite a] c(1) by auto
qed

section \<open>The whole function\<close>

text \<open>What holds before a turn at the length \<open>cur\<close>.\<close>

definition built :: "rat \<Rightarrow> za \<Rightarrow> bool" where
  "built cur ps \<longleftrightarrow> sorted_wrt (\<lambda>x y. x + 1 < y) (map pc_left ps)
     \<and> (if ps = [] then cur = min_length else pc_left (hd ps) = min_length \<and> (\<forall>p \<in> set ps. pc_left p + 1 < cur))"

definition apart :: "za \<Rightarrow> bool" where
  "apart f \<longleftrightarrow> f \<noteq> [] \<and> pc_left (hd f) = min_length \<and> sorted_wrt (\<lambda>x y. x + 1 < y) (map pc_left f)"

lemma built_push:
  assumes "built cur ps" and "pc_left sf = cur"
  shows "apart (za_push sf sf ps)" and "cur < a \<Longrightarrow> built (a + 1) (za_push sf sf ps)"
  using assms by (auto simp: built_def apart_def za_push_def sorted_wrt_append hd_append
      intro: order_less_trans split: if_splits)

lemma loop_apart:
  assumes "za_loop sq pre now pw bounds ts ps = Some f" and "new_lengths ts = [cur]" and "built cur ps"
  shows "apart f"
proof -
  have "(\<exists>cur. new_lengths ts = [cur] \<and> built cur ps) \<longrightarrow> apart f"
  proof (rule za_loop.raw_induct [where P = "\<lambda>sq pre now pw bounds ts ps f.
      (\<exists>cur. new_lengths ts = [cur] \<and> built cur ps) \<longrightarrow> apart f", OF _ assms(1)], intro impI)
    fix loop :: "(rat \<Rightarrow> rat) \<Rightarrow> bool \<Rightarrow> time \<Rightarrow> rat \<Rightarrow> rat list \<Rightarrow> proxy list \<Rightarrow> za \<Rightarrow> za option"
      and sq pre now pw bounds ts ps f
    assume IH: "\<And>sq pre now pw bounds ts ps f. loop sq pre now pw bounds ts ps = Some f \<Longrightarrow>
        (\<exists>cur. new_lengths ts = [cur] \<and> built cur ps) \<longrightarrow> apart f"
      and run: "Option.bind (add_boundary_values pre (last ts) ts bounds) (\<lambda>bs.
        (case za_turn sq pw bs (fl_sortMinSlowness pre now bs ts) of
           (sf, minA, prev, tn, after) \<Rightarrow>
             (case minA of
                Infinite \<Rightarrow> Some (za_push sf sf ps)
              | Fin a \<Rightarrow> loop sq pre now pw bounds (prev @ after @ [tn\<lparr>tp_a := a + 1, tp_t := (a + 1) / pw\<rparr>])
                  (za_push sf sf ps)))) = Some f"
      and inv: "\<exists>cur. new_lengths ts = [cur] \<and> built cur ps"
    from inv obtain cur where cur: "new_lengths ts = [cur]" "built cur ps" by blast
    from run obtain bs where bs: "add_boundary_values pre (last ts) ts bounds = Some bs"
      by (cases "add_boundary_values pre (last ts) ts bounds") simp_all
    obtain sf minA prev tn after where
      turn: "za_turn sq pw bs (fl_sortMinSlowness pre now bs ts) = (sf, minA, prev, tn, after)"
      by (rule prod_cases5)
    with run bs have next': "(case minA of Infinite \<Rightarrow> Some (za_push sf sf ps)
        | Fin a \<Rightarrow> loop sq pre now pw bounds (prev @ after @ [tn\<lparr>tp_a := a + 1, tp_t := (a + 1) / pw\<rparr>])
            (za_push sf sf ps)) = Some f"
      by simp
    have "mset (new_lengths (fl_sortMinSlowness pre now bs ts)) = mset [cur]"
      using new_lengths_sort sort_min_result [of pre ts now bs] cur(1) by metis
    then have "new_lengths (fl_sortMinSlowness pre now bs ts) = [cur]" by simp
    note result = za_turn_result [OF turn this]
    show "apart f"
    proof (cases minA)
      case Infinite
      then show ?thesis using next' built_push(1) [OF cur(2) result(1)] by simp
    next
      case (Fin a)
      have "new_lengths (prev @ after @ [tn\<lparr>tp_a := a + 1, tp_t := (a + 1) / pw\<rparr>]) = [a + 1]"
        using result(3,4) by (simp add: new_lengths_def)
      moreover have "built (a + 1) (za_push sf sf ps)"
        by (rule built_push(2) [OF cur(2) result(1) result(5) [OF Fin]])
      ultimately show ?thesis using IH next' Fin by simp
    qed
  qed
  with assms(2,3) show ?thesis by blast
qed


text \<open>A queue with one task, of 2000 units: up to that length the new task goes first.\<close>

definition one_task :: proxy where
  "one_task = (proxy_of_app 2000 1000 0)\<lparr>tp_id := 1\<rparr>"

lemmas queue_simps = one_task_def proxy_of_app_def switch_values_def switch_value_def fl_from_def secs_def
  sort_unique_def add_boundary_values_def fl_sortMinSlowness_def fl_sortBySlowness_def tp_setSlowness_def
  tp_deadline_def dur_of_def trunc_rat_def tp_less_def

lemmas turn_simps = cands_after_def cands_new_def cands_before_def nearer_def za_root_def

abbreviation sorted_pair :: "proxy list" where
  "sorted_pair \<equiv> [\<lparr>tp_id = 1, tp_rabs = 0, tp_d = 2000000000, tp_a = 2000, tp_r = 0, tp_t = 2, tp_tsum = 2\<rparr>,
     \<lparr>tp_id = - 1, tp_rabs = 0, tp_d = 1000000000, tp_a = 2001, tp_r = 0, tp_t = 2001 / 1000, tp_tsum = 0\<rparr>]"

lemma example_turns:
  "za_turn (\<lambda>_. 4000) 1000 [] (fl_sortMinSlowness True 0 [] [one_task, proxy_of_app 1000 1000 0]) =
    (mk_piece 1000 0 (1 / 2000000) 0 (1 / 1000), Fin 2000, [],
     \<lparr>tp_id = - 1, tp_rabs = 0, tp_d = 1000000000, tp_a = 1000, tp_r = 0, tp_t = 1, tp_tsum = 0\<rparr>,
     [\<lparr>tp_id = 1, tp_rabs = 0, tp_d = 2000000000, tp_a = 2000, tp_r = 0, tp_t = 2, tp_tsum = 2\<rparr>])"
  "fst (za_turn (\<lambda>_. 4000) 1000 [] (fl_sortMinSlowness True 0 [] sorted_pair)) = mk_piece 2001 2 0 (1 / 1000) 0"
  "fst (snd (za_turn (\<lambda>_. 4000) 1000 [] (fl_sortMinSlowness True 0 [] sorted_pair))) = Infinite"
  by ((simp add: queue_simps, simp add: za_turn_def scan_task_def mk_scan_def Let_def, simp add: turn_simps; fail),
    (simp add: queue_simps, simp add: za_turn_def scan_task_def mk_scan_def Let_def; fail),
    (simp add: queue_simps, simp add: za_turn_def scan_task_def mk_scan_def Let_def, simp add: turn_simps; fail))

lemma example_values:
  "add_boundary_values True (proxy_of_app 1000 1000 0) [one_task, proxy_of_app 1000 1000 0] [] = Some []"
  "add_boundary_values True (last sorted_pair) sorted_pair [] = Some []"
  by (simp_all add: queue_simps)

lemma example_function:
  "za_make (\<lambda>_. 4000) True 0 \<lparr>fl_tasks = [one_task], fl_bounds = [], fl_dirty = False\<rparr> 1000
    = Some [mk_piece 1000 0 (1 / 2000000) 0 (1 / 1000), mk_piece 2001 2 0 (1 / 1000) 0]"
proof -
  let ?p = "mk_piece 1000 0 (1 / 2000000) 0 (1 / 1000)" and ?q = "mk_piece 2001 2 0 (1 / 1000) 0"
  have second: "za_loop (\<lambda>_. 4000) True 0 1000 [] sorted_pair [?p] = Some [?p, ?q]"
    using example_turns(2,3) unfolding za_loop.simps [of _ _ _ _ _ sorted_pair] example_values
    by (simp add: split_beta za_push_def pc_extends_def mk_piece_def)
  have first: "za_loop (\<lambda>_. 4000) True 0 1000 [] [one_task, proxy_of_app 1000 1000 0] [] = Some [?p, ?q]"
    using second by (subst za_loop.simps) (simp add: example_values example_turns(1) za_push_def)
  have "fl_updateReleaseTime 0 ([one_task] @ [proxy_of_app min_length 1000 0]) = [one_task, proxy_of_app 1000 1000 0]"
    by (simp add: fl_updateReleaseTime_def one_task_def proxy_of_app_def secs_def min_length_def)
  then show ?thesis using first by (simp add: za_make_def Let_def fl_computeBoundaries_def)
qed


end
