(* ===== verification/Za_Reduction.thy ===== *)
theory Za_Reduction
  imports Za_Combine
begin

text \<open>
  What the reduction of a slowness function does: the candidates all have the same cost, so the
  queue keeps the order in which they come.
\<close>

section \<open>The queue of candidates\<close>

lemma multimap_append:
  "\<forall>q \<in> set cs. fst q = 0 \<Longrightarrow> multimap_insert (0, f) cs = cs @ [(0, f)]"
  by (induction cs) auto

lemma add_options_take:
  assumes "0 < Q" and "length cs \<le> Q"
  shows "add_options Q fs (map (Pair 0) cs) = Some (map (Pair 0) (cs @ take (Q - length cs) fs))"
  using assms
proof (induction fs arbitrary: cs)
  case (Cons f fs)
  show ?case
  proof (cases "length cs < Q")
    case True
    from True have q: "Q - length cs = Suc (Q - Suc (length cs))" by simp
    have "multimap_insert (0, f) (map (Pair 0) cs) = map (Pair 0) (cs @ [f])" by (simp add: multimap_append)
    then have "add_options Q (f # fs) (map (Pair 0) cs) = add_options Q fs (map (Pair 0) (cs @ [f]))"
      using True by (simp add: option_cost_def)
    also have "\<dots> = Some (map (Pair 0) ((cs @ [f]) @ take (Q - length (cs @ [f])) fs))"
      by (rule Cons.IH) (use Cons.prems True in auto)
    finally show ?thesis unfolding q by simp
  next
    case False
    then have "cs \<noteq> []" "Q - length cs = 0" using Cons.prems by auto
    with False Cons.IH [of cs] Cons.prems show ?thesis by (simp add: option_cost_def last_map)
  qed
qed simp

lemma length_join_at: "Suc i < length f \<Longrightarrow> length (join_at h f i) = length f - 1"
  by (simp add: join_at_def)

lemma za_options_length: "g \<in> set (za_options h f) \<Longrightarrow> length g = length f - 1"
  by (auto simp: za_options_def length_join_at)

lemma za_options_first:
  assumes "1 < length f" shows "za_options h f \<noteq> []" and "hd (za_options h f) = join_at h f 0"
  using assms by (simp_all add: za_options_def hd_map)

text \<open>All the functions of a length are replaced by shorter ones before any of these is looked at.\<close>

lemma reduce_level:
  assumes "0 < K" and "K < n" and "0 < Q"
  shows "length (as @ bs) \<le> Q \<Longrightarrow> \<forall>f \<in> set as. length f = n \<Longrightarrow> \<forall>f \<in> set bs. length f = n - 1 \<Longrightarrow>
    \<exists>cs. reduce_loop K Q h (map (Pair 0) (as @ bs)) = reduce_loop K Q h (map (Pair 0) (bs @ cs))
      \<and> length (bs @ cs) \<le> Q \<and> (\<forall>f \<in> set cs. length f = n - 1)
      \<and> (bs = [] \<and> as \<noteq> [] \<longrightarrow> cs \<noteq> [] \<and> hd cs = join_at h (hd as) 0)"
proof (induction as arbitrary: bs)
  case Nil then show ?case by (intro exI [of _ "[]"]) simp
next
  case (Cons f as)
  let ?new = "take (Q - length (as @ bs)) (za_options h f)"
  have f: "length f = n" using Cons.prems by simp
  have q: "length (as @ bs) < Q" using Cons.prems by simp
  have "reduce_loop K Q h (map (Pair 0) ((f # as) @ bs))
      = Option.bind (add_options Q (za_options h f) (map (Pair 0) (as @ bs))) (reduce_loop K Q h)"
    using f assms(2) by (subst reduce_loop.simps) simp
  also have "\<dots> = reduce_loop K Q h (map (Pair 0) (as @ (bs @ ?new)))"
    using add_options_take [OF assms(3), of "as @ bs" "za_options h f"] q by simp
  finally have step: "reduce_loop K Q h (map (Pair 0) ((f # as) @ bs))
    = reduce_loop K Q h (map (Pair 0) (as @ (bs @ ?new)))" .
  have new: "?new \<noteq> []" "hd ?new = join_at h f 0"
    using za_options_first [of f h] f assms q by auto
  have len: "length (as @ (bs @ ?new)) \<le> Q" using q by simp
  have as: "\<forall>f \<in> set as. length f = n" using Cons.prems by simp
  have short: "\<forall>g \<in> set (bs @ ?new). length g = n - 1"
    using Cons.prems(3) za_options_length [of _ h f] f by (auto dest: in_set_takeD)
  from Cons.IH [OF len as short] obtain cs where
    "reduce_loop K Q h (map (Pair 0) (as @ (bs @ ?new))) = reduce_loop K Q h (map (Pair 0) ((bs @ ?new) @ cs))"
    "length ((bs @ ?new) @ cs) \<le> Q" "\<forall>f \<in> set cs. length f = n - 1" by blast
  then show ?case using step new short by (intro exI [of _ "?new @ cs"]) auto
qed

lemma reduce_loop_first:
  assumes "0 < K" and "0 < Q"
  shows "length (f # fs) \<le> Q \<Longrightarrow> \<forall>g \<in> set (f # fs). length g = K + n \<Longrightarrow>
    reduce_loop K Q h (map (Pair 0) (f # fs)) = Some (0, ((\<lambda>g. join_at h g 0) ^^ n) f)"
proof (induction n arbitrary: f fs)
  case 0 then show ?case by (subst reduce_loop.simps) simp
next
  case (Suc n)
  from reduce_level [OF assms(1) _ assms(2), of "K + Suc n" "f # fs" "[]" h] Suc.prems
  obtain cs where cs: "reduce_loop K Q h (map (Pair 0) (f # fs)) = reduce_loop K Q h (map (Pair 0) cs)"
    "length cs \<le> Q" "\<forall>f \<in> set cs. length f = K + n" "cs \<noteq> []" "hd cs = join_at h f 0" by auto
  then obtain gs where gs: "cs = join_at h f 0 # gs" by (cases cs) auto
  have "reduce_loop K Q h (map (Pair 0) (join_at h f 0 # gs))
      = Some (0, ((\<lambda>g. join_at h g 0) ^^ n) (join_at h f 0))"
    by (rule Suc.IH) (use cs(2,3) gs in auto)
  then show ?case unfolding cs(1) gs funpow_Suc_right comp_def .
qed

lemma join_first: "1 < length f \<Longrightarrow> tl (join_at h f 0) = drop 2 f"
  by (simp add: join_at_def numeral_2_eq_2)

lemma join_first_funpow:
  "n < length f \<Longrightarrow> length (((\<lambda>g. join_at h g 0) ^^ n) f) = length f - n
    \<and> tl (((\<lambda>g. join_at h g 0) ^^ n) f) = drop (Suc n) f"
proof (induction n)
  case 0 then show ?case by (simp add: drop_Suc)
next
  case (Suc n)
  let ?g = "((\<lambda>g. join_at h g 0) ^^ n) f"
  have g: "length ?g = length f - n" "tl ?g = drop (Suc n) f" using Suc by auto
  have "tl (join_at h ?g 0) = drop 1 (tl ?g)" using join_first [of ?g h] g(1) Suc.prems by (simp add: drop_Suc numeral_2_eq_2)
  then show ?case using g length_join_at [of 0 ?g h] Suc.prems by simp
qed

section \<open>The result\<close>

text \<open>
  C23. The reduction of a slowness function never looks at the loss of precision: whatever the number of
  candidates it keeps, it joins the first two pieces again and again, keeps all the others as they
  are, and reports no loss.
\<close>

theorem fsp_reduction_joins_first:
  assumes "0 < K" and "0 < Q" and "K < length f"
  shows "\<exists>g. za_reduceMax K Q h f = Some (g, 0) \<and> g = ((\<lambda>g. join_at h g 0) ^^ (length f - K)) f
    \<and> length g = K \<and> tl g = drop (Suc (length f - K)) f"
proof -
  have "reduce_loop K Q h [(0, f)] = Some (0, ((\<lambda>g. join_at h g 0) ^^ (length f - K)) f)"
    using reduce_loop_first [OF assms(1,2), of f "[]" "length f - K" h] assms by simp
  then show ?thesis using assms join_first_funpow [of "length f - K" f h] by (auto simp: za_reduceMax_def)
qed

theorem fsp_reduction_joins_first_witness:
  "map_option (\<lambda>(g, c). (map pc_left g, c)) (za_reduceMax 2 10 5000
     [mk_piece 1000 0 0 1 0, mk_piece 2000 0 1 0 0, mk_piece 3000 0 1 1 0, mk_piece 4000 0 2 0 0])
    = Some ([1000, 4000], 0)"
proof -
  let ?f = "[mk_piece 1000 0 0 1 0, mk_piece 2000 0 1 0 0, mk_piece 3000 0 1 1 0, mk_piece 4000 0 2 0 0]"
  from fsp_reduction_joins_first [of 2 10 ?f 5000] obtain g
    where g: "za_reduceMax 2 10 5000 ?f = Some (g, 0)" "g = ((\<lambda>g. join_at 5000 g 0) ^^ 2) ?f"
      "length g = 2" "tl g = [mk_piece 4000 0 2 0 0]"
    by (auto simp: numeral_2_eq_2)
  have left: "pc_left (pc_join l r e) = pc_left l" for l r e
    by (simp add: pc_join_def three_points_def two_points_def Let_def mk_piece_def)
  have "pc_left (hd (((\<lambda>g. join_at 5000 g 0) ^^ 2) ?f)) = 1000"
    by (simp add: numeral_2_eq_2 join_at_def left mk_piece_def)
  then have "pc_left (hd g) = 1000" unfolding g(2) .
  moreover obtain p where "g = [p, mk_piece 4000 0 2 0 0]" using g(3,4) by (cases g) auto
  ultimately show ?thesis unfolding g(1) by (simp add: mk_piece_def)
qed

end
