(* ===== verification/Spec2Isabelle.thy ===== *)
theory Spec2Isabelle
  imports Join_Protocol Sched_Props Dispatcher_Props Submission_Props Fsp_Scheduler Central_Slowness
    Mmp_Props Dp_Props Fsp_Dispatch_Props Za_Queue Za_Reduction
begin

text \<open>
  A model of STaRS, a peer-to-peer scheduler of bag-of-tasks applications written in C++, and the
  theorems that make its services correct.

  THE PROGRAM. Every peer runs a set of services over one communication layer. A \<open>ResourceNode\<close> is
  a leaf of an overlay tree and a \<open>StructureNode\<close> a branch of it; they insert, divide and move
  nodes with small distributed transactions. A \<open>Dispatcher\<close> aggregates the availability that its
  two children publish and routes bags of tasks down the tree, or up when there is no room. A
  \<open>Scheduler\<close> accepts tasks, orders and runs them and reports to their owner, which is a
  \<open>SubmissionNode\<close> with a database of the applications it launched. The policies IBP (any free
  node), MMP (shortest queue), DP (deadlines) and FSP (fair slowness) instantiate the dispatcher and
  the scheduler. A simulator runs the same services and can put a centralised scheduler in the
  place of the dispatchers.

  THE THEORIES, and the files under src/ they model.
   - \<open>Stars_Prelude\<close>, \<open>Std_Heap\<close>: shared vocabulary; the sort and the heap of the C++ library with
     the contracts the proofs rest on (locales \<open>sort_order\<close>, \<open>weak_order\<close>, \<open>std_heap\<close>).
   - \<open>Comm_Address\<close>, \<open>Zone_Description\<close>, \<open>Transactional_Zone\<close>: addresses, the zones of the tree and
     the entry of a child with its pending changes (\<open>CommAddress.hpp\<close>, \<open>ZoneDescription\<close>,
     \<open>TransactionalZoneDescription.hpp\<close>).
   - \<open>Stars_Messages\<close>, \<open>Comm_Layer\<close>: the messages, and the queue, timers and delivery of
     \<open>CommLayer.cpp\<close>.
   - \<open>Structure_State\<close>, \<open>Structure_Split\<close>, \<open>Structure_Node\<close>: the state and every handler of
     \<open>StructureNode.cpp\<close>; \<open>Structure_Frames\<close>, \<open>Structure_Commit\<close>, \<open>Structure_Reach\<close>,
     \<open>Structure_Routing\<close>, \<open>Structure_Handover\<close> hold its theorems: what no handler touches, what a
     commit and a rollback do, the invariant of the reachable states, where insertions go, and a
     division from its request to its commit.
   - \<open>Resource_Node\<close>, \<open>Join_Protocol\<close>: \<open>ResourceNode.cpp\<close> and the handshake of a node that joins.
   - \<open>Scheduler\<close>, \<open>Sched_Policies\<close>, \<open>Sched_Props\<close>: \<open>Scheduler.cpp\<close> with its virtual methods as
     arguments, the policies IBP, MMP and DP, the simulated task \<open>SimTask.cpp\<close>, and what each policy
     guarantees (locale \<open>task_backend\<close> for the execution environment).
   - \<open>Fsp_Tasks\<close>, \<open>Fsp_Props\<close>, \<open>Fsp_Scheduler\<close>: \<open>FSPTaskList.cpp\<close>, \<open>TaskProxy.hpp\<close> and
     \<open>FSPScheduler.cpp\<close>.
   - \<open>Ibp_Info\<close>, \<open>Dispatcher\<close>, \<open>Dispatcher_Props\<close>: the availability summary of IBP, the dispatcher
     template of \<open>Dispatcher.hpp\<close> (its type parameter is a record of operations) and its IBP
     instance.
   - \<open>Clustering\<close>, \<open>Clustering_Props\<close>: \<open>ClusteringList.hpp\<close>, how a summary is shortened, for any type of
     cluster: it ends, and the result comes from the summary by joining pairs. \<open>Ibp_Clustering\<close>: the
     clusters of free nodes, whose reduced summary is conservative and how short it is.
   - \<open>Mmp_Info\<close>, \<open>Mmp_Dispatcher\<close>, \<open>Mmp_Props\<close>: the summary of queues of the first-come policy
     (\<open>MMPAvailabilityInformation\<close>), whose reduction is conservative, the search for a deadline with
     room, and \<open>MMPDispatcher.cpp\<close>: which tasks of a bag go where.
   - \<open>Ld_Function\<close>, \<open>Ld_Props\<close>: \<open>LDeltaFunction.cpp\<close>, the free time of a node with deadlines as a
     function; what a node publishes is what it accepts, and where assignments and minima go wrong.
     \<open>Dp_Info\<close>, \<open>Dp_Dispatcher\<close>, \<open>Dp_Props\<close>: the summary of these functions
     (\<open>DPAvailabilityInformation\<close>) and \<open>DPDispatcher.cpp\<close>: its cache of requests and the division.
   - \<open>Za_Function\<close>, \<open>Za_Combine\<close>: \<open>ZAFunction.cpp\<close>, the slowness a node would reach with a new
     application, as a function of the length of its tasks, and how such functions are combined and
     reduced. \<open>Za_Queue\<close>, \<open>Za_Extremes\<close>, \<open>Za_Reduction\<close>: the function of a queue is well formed,
     minimum and maximum are exact, and the reduction joins the first pieces. \<open>Fsp_Info\<close>, \<open>Fsp_Dispatcher\<close>: the summary of these functions
     (\<open>FSPAvailabilityInformation\<close>) and \<open>FSPDispatcher.cpp\<close>; \<open>Fsp_Division\<close>, \<open>Fsp_Dispatch_Props\<close>: a
     bag is divided exactly and routed whole or not at all.
   - \<open>Sim_Database\<close>, \<open>Submission_Node\<close>, \<open>Submission_Props\<close>: the application database of the
     simulator and \<open>SubmissionNode.cpp\<close> over it.
   - \<open>Central_Base\<close>, \<open>Central_Policies\<close>, \<open>Central_Dp\<close>, \<open>Central_Fsp\<close>: \<open>CentralizedScheduler.cpp\<close> and
     \<open>SlaveLocalScheduler.cpp\<close>; \<open>Central_Props\<close>, \<open>Central_Best\<close>, \<open>Central_Greedy\<close>, \<open>Central_Holes\<close>,
     \<open>Central_Slowness\<close>: that IBP takes the best nodes, MMP is optimal, DP and FSP place every task
     that fits, and the node runs the order it is sent.

  CONVENTIONS. A class is a record of its fields and a method a function of it that returns the new
  record; a class that extends another extends its record, and virtual methods are arguments.
  \<open>None\<close> is an outcome the source does not define (a null pointer followed, an iterator past the
  end, an assertion that fails, a loop that never ends); theorems say where it cannot happen.
  Unsigned numbers are words and wrap around; \<open>int64_t\<close> times are \<open>int\<close>, whose overflow the source
  does not define; \<open>double\<close> values are exact rationals, and a division by zero, infinite in the
  source, is zero in HOL: powers and lengths are supposed positive where it matters. Observers are
  traces of the events fired, the network is the trace of what was handed to it, random numbers come
  from a stream. Pointers into a container are positions in it.

  FUEL AND BOUNDS. Loops are structural recursions, \<open>function\<close>s with a measure, or partial functions
  where the source may loop for ever (\<open>round_loop\<close>, whose termination is characterised). The search
  of the centralised FSP scheduler has fuel \<open>num + 2\<close> for \<open>num\<close> tasks, and a theorem shows that it
  is enough.

  NOT MODELLED. Printing, logging and serialisation; sockets, processes, files and SQL
  (\<open>NetworkManager.cpp\<close>, \<open>UnixExecutionEnvironment.cpp\<close>, \<open>Database.cpp\<close>, \<open>TaskBagAppDatabase.cpp\<close>),
  which are calls of libraries; configuration, statistics and the set-up of experiments; the SimGrid
  port of the simulator, whose processes are the library's.
  The event loop of the old simulator is not modelled either.
\<close>

end
